(* ===== verification/Prelude.thy ===== *)
theory Prelude
  imports Main "HOL-Library.Word"
begin

text \<open>
  The prelude of the development: the names of the machine types of Go that the source uses,
  pointers and slices with their nil value, the collections of rewrite rules the component
  theories share, and the generic lemmas on lists, options and words that the component proofs
  rest on. A Go \<open>string\<close> and a Go \<open>[]byte\<close> are both lists of bytes; Isabelle's \<open>char\<close> is a byte,
  so both are \<open>string\<close>.
\<close>

type_synonym int32 = "32 word"
type_synonym int64 = "64 word"

text \<open>
  A pointer is \<open>None\<close> (nil) or the object it points to. A slice or a map whose nil value the
  source tells apart from the empty one is an option too; \<open>elems\<close> reads it the way \<open>len\<close>,
  \<open>range\<close>, \<open>slices.Equal\<close> and \<open>slices.Contains\<close> do, for which nil is empty.
\<close>

type_synonym 'a ptr = "'a option"
type_synonym 'a slice = "'a list option"

definition elems :: "'a slice \<Rightarrow> 'a list" where
  "elems s = (case s of None \<Rightarrow> [] | Some xs \<Rightarrow> xs)"

definition slices_Equal :: "'a slice \<Rightarrow> 'a slice \<Rightarrow> bool" where
  "slices_Equal a b \<longleftrightarrow> elems a = elems b"

text \<open>A Go map from strings to strings read with a missing key gives the zero value.\<close>

type_synonym strmap = "string \<rightharpoonup> string"

definition map_get :: "strmap \<Rightarrow> string \<Rightarrow> string" where
  "map_get m k = (case m k of None \<Rightarrow> [] | Some v \<Rightarrow> v)"

named_theorems go_simps \<open>rewrite rules for the Go runtime operations\<close>
named_theorems wf_intros \<open>introduction rules for the well-formedness predicates\<close>

lemma elems_simps [simp]: "elems None = []" "elems (Some xs) = xs"
  by (simp_all add: elems_def)

lemma slices_Equal_simps [simp]:
  "slices_Equal (Some xs) (Some ys) \<longleftrightarrow> xs = ys"
  "slices_Equal None b \<longleftrightarrow> elems b = []"
  "slices_Equal a None \<longleftrightarrow> elems a = []"
  by (auto simp: slices_Equal_def)

lemma map_get_simps [simp]:
  "map_get (m(k \<mapsto> v)) k = v"
  "k' \<noteq> k \<Longrightarrow> map_get (m(k \<mapsto> v)) k' = map_get m k'"
  "map_get (m(k := None)) k = []"
  "k' \<noteq> k \<Longrightarrow> map_get (m(k := None)) k' = map_get m k'"
  "map_get Map.empty k = []"
  by (simp_all add: map_get_def)

lemma map_get_nonempty_Some: "map_get m k \<noteq> [] \<Longrightarrow> m k = Some (map_get m k)"
  by (simp add: map_get_def split: option.splits)

text \<open>Signed readings of small literals, which the guards of the source compare with.\<close>

lemma sint_int32_numerals [go_simps]:
  "sint (0 :: int32) = 0" "sint (1 :: int32) = 1"
  by simp_all

lemma sint_int32_lower: "- (2 ^ 31) \<le> sint (x :: int32)"
  using sint_ge [of x] by simp

lemma sint_int32_upper: "sint (x :: int32) \<le> 2 ^ 31 - 1"
  using sint_lt [of x] by simp

lemmas sint_int32_range = sint_int32_lower sint_int32_upper

lemma scast_int32_int64: "sint (scast (x :: int32) :: int64) = sint x"
  by (rule sint_up_scast) (simp add: is_up)

text \<open>
  The signed 64-bit product of an \<open>int32\<close> and a non-negative constant below \<open>2 ^ 32\<close> does not
  wrap: this is the multiplication \<open>time.Duration(seconds) * time.Second\<close>.
\<close>

lemma sint_word_of_int_64:
  "- (2 ^ 63) \<le> i \<Longrightarrow> i < 2 ^ 63 \<Longrightarrow> sint (word_of_int i :: int64) = i"
  by (simp add: sint_sbintrunc' signed_take_bit_int_eq_self)

lemma sint_int32_scale:
  assumes "0 \<le> k" "k < 2 ^ 32"
  shows "sint (scast (x :: int32) * (word_of_int k :: int64)) = sint x * k"
proof -
  have eq: "scast x * (word_of_int k :: int64) = word_of_int (sint x * k)"
    by (simp add: wi_hom_mult [symmetric] flip: signed_scast_eq)
  have "\<bar>sint x\<bar> \<le> 2 ^ 31"
    using sint_int32_range [of x] by linarith
  then have "\<bar>sint x * k\<bar> \<le> 2 ^ 31 * k"
    using assms by (simp add: abs_mult mult_right_mono)
  moreover have "2 ^ 31 * k \<le> 2 ^ 31 * (2 ^ 32 - 1)"
    using assms by simp
  ultimately have "\<bar>sint x * k\<bar> < 2 ^ 63"
    by simp
  then show ?thesis
    unfolding eq by (intro sint_word_of_int_64) auto
qed

text \<open>Lists.\<close>

lemma list_all_take: "list_all P xs \<Longrightarrow> list_all P (take n xs)"
  by (metis append_take_drop_id list_all_append)

lemma filter_eq_Cons_single:
  "filter P xs = [x] \<Longrightarrow> x \<in> set xs \<and> P x"
  by (metis (no_types) filter_eq_ConsD in_set_conv_decomp)

end
