(* ===== verification/GoStrings.thy ===== *)
theory GoStrings
  imports Prelude "HOL-Library.Char_ord" "HOL-Library.List_Lexorder"
begin

text \<open>
  The part of Go's \<open>strings\<close>, \<open>bytes\<close>, \<open>strconv\<close> and \<open>net/url\<close> that the source uses, over
  strings as lists of bytes. The regular expressions of the source are character classes with
  bounded repetition; each is a predicate over these classes, declared in the theory of the
  component that declares the Go variable.
\<close>

section \<open>Character classes\<close>

definition is_digit :: "char \<Rightarrow> bool" where
  "is_digit c \<longleftrightarrow> CHR ''0'' \<le> c \<and> c \<le> CHR ''9''"

definition is_upper :: "char \<Rightarrow> bool" where
  "is_upper c \<longleftrightarrow> CHR ''A'' \<le> c \<and> c \<le> CHR ''Z''"

definition is_lower :: "char \<Rightarrow> bool" where
  "is_lower c \<longleftrightarrow> CHR ''a'' \<le> c \<and> c \<le> CHR ''z''"

definition is_alnum :: "char \<Rightarrow> bool" where
  "is_alnum c \<longleftrightarrow> is_digit c \<or> is_upper c \<or> is_lower c"

text \<open>\<open>[A-Za-z0-9][A-Za-z0-9._-]*\<close>, the class of resource names.\<close>

definition name_char :: "char \<Rightarrow> bool" where
  "name_char c \<longleftrightarrow> is_alnum c \<or> c = CHR ''.'' \<or> c = CHR ''_'' \<or> c = CHR ''-''"

definition safe_name_match :: "string \<Rightarrow> bool" where
  "safe_name_match s \<longleftrightarrow> (case s of [] \<Rightarrow> False | c # cs \<Rightarrow> is_alnum c \<and> list_all name_char cs)"

text \<open>\<open>[A-Za-z0-9_-]\<close>, the class of identifiers.\<close>

definition id_char :: "char \<Rightarrow> bool" where
  "id_char c \<longleftrightarrow> is_alnum c \<or> c = CHR ''_'' \<or> c = CHR ''-''"

section \<open>Trimming and searching\<close>

text \<open>
  The UTF-8 encodings of the runes for which \<open>unicode.IsSpace\<close> holds. \<open>TrimSpace\<close> removes them
  from both ends; a rune at the end of a string is found by its own bytes, because a
  continuation byte never starts a rune.
\<close>

definition unicode_spaces :: "string list" where
  "unicode_spaces =
     [[CHR 0x09], [CHR 0x0A], [CHR 0x0B], [CHR 0x0C], [CHR 0x0D], [CHR 0x20],
      [CHR 0xC2, CHR 0x85], [CHR 0xC2, CHR 0xA0], [CHR 0xE1, CHR 0x9A, CHR 0x80],
      [CHR 0xE2, CHR 0x80, CHR 0x80], [CHR 0xE2, CHR 0x80, CHR 0x81], [CHR 0xE2, CHR 0x80, CHR 0x82],
      [CHR 0xE2, CHR 0x80, CHR 0x83], [CHR 0xE2, CHR 0x80, CHR 0x84], [CHR 0xE2, CHR 0x80, CHR 0x85],
      [CHR 0xE2, CHR 0x80, CHR 0x86], [CHR 0xE2, CHR 0x80, CHR 0x87], [CHR 0xE2, CHR 0x80, CHR 0x88],
      [CHR 0xE2, CHR 0x80, CHR 0x89], [CHR 0xE2, CHR 0x80, CHR 0x8A], [CHR 0xE2, CHR 0x80, CHR 0xA8],
      [CHR 0xE2, CHR 0x80, CHR 0xA9], [CHR 0xE2, CHR 0x80, CHR 0xAF], [CHR 0xE2, CHR 0x81, CHR 0x9F],
      [CHR 0xE3, CHR 0x80, CHR 0x80]]"

fun strip_prefix :: "string \<Rightarrow> string \<Rightarrow> string option" where
  "strip_prefix [] s = Some s"
| "strip_prefix (p # ps) [] = None"
| "strip_prefix (p # ps) (c # cs) = (if p = c then strip_prefix ps cs else None)"

fun strip_any :: "string list \<Rightarrow> string \<Rightarrow> string option" where
  "strip_any [] s = None"
| "strip_any (p # ps) s = (case strip_prefix p s of None \<Rightarrow> strip_any ps s | Some t \<Rightarrow> Some t)"

lemma strip_prefix_append: "strip_prefix p s = Some t \<Longrightarrow> s = p @ t"
  by (induction p s rule: strip_prefix.induct) (auto split: if_splits)

lemma strip_any_shorter:
  "strip_any ps s = Some t \<Longrightarrow> [] \<notin> set ps \<Longrightarrow> length t < length s"
  by (induction ps) (auto split: option.splits dest: strip_prefix_append)

text \<open>Trim on the left by a set of non-empty encodings; the fuel is the length of the string.\<close>

fun trim_fuel :: "nat \<Rightarrow> string list \<Rightarrow> string \<Rightarrow> string" where
  "trim_fuel 0 ps s = s"
| "trim_fuel (Suc n) ps s = (case strip_any ps s of None \<Rightarrow> s | Some t \<Rightarrow> trim_fuel n ps t)"

definition trim_left :: "string list \<Rightarrow> string \<Rightarrow> string" where
  "trim_left ps s = trim_fuel (length s) ps s"

definition TrimSpace :: "string \<Rightarrow> string" where
  "TrimSpace s = rev (trim_left (map rev unicode_spaces) (rev (trim_left unicode_spaces s)))"

definition ContainsAny :: "string \<Rightarrow> string \<Rightarrow> bool" where
  "ContainsAny s chars \<longleftrightarrow> list_ex (\<lambda>c. c \<in> set chars) s"

fun HasPrefix :: "string \<Rightarrow> string \<Rightarrow> bool" where
  "HasPrefix s p = (strip_prefix p s \<noteq> None)"

fun Contains :: "string \<Rightarrow> string \<Rightarrow> bool" where
  "Contains [] p = HasPrefix [] p"
| "Contains (c # cs) p = (HasPrefix (c # cs) p \<or> Contains cs p)"

fun Split :: "string \<Rightarrow> char \<Rightarrow> string list" where
  "Split [] sep = [[]]"
| "Split (c # cs) sep =
     (if c = sep then [] # Split cs sep
      else (case Split cs sep of [] \<Rightarrow> [[c]] | w # ws \<Rightarrow> (c # w) # ws))"

text \<open>
  \<open>strings.ToLower\<close>. Beside the ASCII letters two runes have an ASCII lower case: the Kelvin
  sign (E2 84 AA, to k) and the capital I with dot above (C4 B0, to i). Other runes keep their
  bytes here; the source compares the result with ASCII text only.
\<close>

definition lower_char :: "char \<Rightarrow> char" where
  "lower_char c = (if is_upper c then char_of (of_char c + 32 :: nat) else c)"

fun ToLower :: "string \<Rightarrow> string" where
  "ToLower (a # b # c # cs) =
     (if a = CHR 0xE2 \<and> b = CHR 0x84 \<and> c = CHR 0xAA then CHR ''k'' # ToLower cs
      else if a = CHR 0xC4 \<and> b = CHR 0xB0 then CHR ''i'' # ToLower (c # cs)
      else lower_char a # ToLower (b # c # cs))"
| "ToLower [a, b] = (if a = CHR 0xC4 \<and> b = CHR 0xB0 then ''i'' else [lower_char a, lower_char b])"
| "ToLower [a] = [lower_char a]"
| "ToLower [] = []"

section \<open>Numbers and URLs\<close>

definition digit_val :: "char \<Rightarrow> int" where
  "digit_val c = int (of_char c) - 48"

definition digits_val :: "string \<Rightarrow> int" where
  "digits_val s = foldl (\<lambda>n c. 10 * n + digit_val c) 0 s"

text \<open>\<open>strconv.Atoi\<close>: an optional sign, decimal digits, in the range of a 64-bit int.\<close>

definition Atoi :: "string \<Rightarrow> int option" where
  "Atoi s =
     (let neg = (case s of c # _ \<Rightarrow> c = CHR ''-'' | [] \<Rightarrow> False);
          ds = (case s of c # cs \<Rightarrow> if c = CHR ''-'' \<or> c = CHR ''+'' then cs else s | [] \<Rightarrow> s);
          n = (if neg then - digits_val ds else digits_val ds)
      in if ds \<noteq> [] \<and> list_all is_digit ds \<and> - (2 ^ 63) \<le> n \<and> n < 2 ^ 63 then Some n else None)"

text \<open>
  \<open>url.PathEscape\<close>: unreserved characters and the sub-delimiters Go leaves alone in a path
  segment stay, every other byte becomes \<open>%XX\<close>.
\<close>

definition hex_digit :: "nat \<Rightarrow> char" where
  "hex_digit n = (if n < 10 then char_of (48 + n) else char_of (55 + n))"

definition path_plain :: "char \<Rightarrow> bool" where
  "path_plain c \<longleftrightarrow> is_alnum c \<or> c \<in> set ''-_.~$&+:=@''"

definition PathEscape :: "string \<Rightarrow> string" where
  "PathEscape s =
     concat (map (\<lambda>c. if path_plain c then [c]
                      else [CHR ''%'', hex_digit (of_char c div 16), hex_digit (of_char c mod 16)]) s)"

section \<open>Lemmas\<close>

lemma trim_fuel_suffix: "\<exists>p. s = p @ trim_fuel n ps s"
proof (induction n arbitrary: s)
  case (Suc n)
  show ?case
  proof (cases "strip_any ps s")
    case (Some t)
    then have "\<exists>p. s = p @ t"
      by (induction ps) (auto split: option.splits dest: strip_prefix_append)
    moreover have "\<exists>q. t = q @ trim_fuel n ps t" by (rule Suc.IH)
    ultimately show ?thesis using Some by (metis append_assoc option.simps(5) trim_fuel.simps(2))
  qed auto
qed auto

lemma trim_left_suffix: "\<exists>p. s = p @ trim_left ps s"
  unfolding trim_left_def by (rule trim_fuel_suffix)

lemma TrimSpace_infix: "\<exists>p q. s = p @ TrimSpace s @ q"
proof -
  obtain p where p: "s = p @ trim_left unicode_spaces s" using trim_left_suffix by blast
  obtain q where "rev (trim_left unicode_spaces s) = q @ trim_left (map rev unicode_spaces) (rev (trim_left unicode_spaces s))"
    using trim_left_suffix by blast
  then have "trim_left unicode_spaces s = TrimSpace s @ rev q"
    unfolding TrimSpace_def by (metis rev_append rev_rev_ident)
  with p show ?thesis by metis
qed

lemma set_TrimSpace: "set (TrimSpace s) \<subseteq> set s"
  using TrimSpace_infix [of s] by (metis Un_iff set_append subsetI)

text \<open>
  The fuel is enough: trimming stops because no space is left at the end, never because the fuel
  ran out, so \<open>TrimSpace\<close> is idempotent.
\<close>

lemma trim_fuel_done:
  "[] \<notin> set ps \<Longrightarrow> length s \<le> n \<Longrightarrow> strip_any ps (trim_fuel n ps s) = None"
proof (induction n arbitrary: s)
  case 0
  then show ?case
    by (cases "strip_any ps s") (auto dest: strip_any_shorter)
next
  case (Suc n)
  show ?case
  proof (cases "strip_any ps s")
    case (Some t)
    with Suc.prems have "length t \<le> n" using strip_any_shorter by fastforce
    with Suc.IH [of t] Suc.prems Some show ?thesis by simp
  qed auto
qed

lemma trim_left_done: "[] \<notin> set ps \<Longrightarrow> strip_any ps (trim_left ps s) = None"
  unfolding trim_left_def by (rule trim_fuel_done) auto

lemma Contains_sublist: "Contains s p \<longleftrightarrow> (\<exists>a b. s = a @ p @ b)"
proof (induction s)
  case Nil
  have "HasPrefix [] p \<longleftrightarrow> p = []" by (cases p) auto
  then show ?case by auto
next
  case (Cons c cs)
  have pre: "HasPrefix s q \<longleftrightarrow> (\<exists>b. s = q @ b)" for s q
    by (induction q s rule: strip_prefix.induct) auto
  show ?case
  proof
    assume "Contains (c # cs) p"
    then show "\<exists>a b. c # cs = a @ p @ b"
      using Cons pre [of "c # cs" p] by (metis Contains.simps(2) append_Cons append_Nil)
  next
    assume "\<exists>a b. c # cs = a @ p @ b"
    then obtain a b where ab: "c # cs = a @ p @ b" by blast
    show "Contains (c # cs) p"
    proof (cases a)
      case Nil
      with ab pre [of "c # cs" p] show ?thesis by (metis Contains.simps(2) append_Nil)
    next
      case (Cons x xs)
      with ab have "\<exists>a b. cs = a @ p @ b" by (metis append_Cons list.inject)
      with Cons.IH show ?thesis by simp
    qed
  qed
qed

lemma Split_nonempty [simp]: "Split s sep \<noteq> []"
  by (induction s sep rule: Split.induct) (auto split: list.splits)

lemma Split_no_sep: "w \<in> set (Split s sep) \<Longrightarrow> sep \<notin> set w"
  by (induction s sep arbitrary: w rule: Split.induct)
     (auto split: list.splits if_splits)

lemma id_char_path_plain: "id_char c \<Longrightarrow> path_plain c"
  by (auto simp: id_char_def path_plain_def)

lemma PathEscape_plain: "list_all path_plain s \<Longrightarrow> PathEscape s = s"
  by (induction s) (auto simp: PathEscape_def)

end
