(* ===== verification/GoErrors.thy ===== *)
theory GoErrors
  imports Prelude
begin

text \<open>
  Go errors as values. \<open>Err\<close> is a fresh \<open>errors.New\<close>; the package variables that the source
  compares with \<open>errors.Is\<close> are constructors of their own; \<open>Wrapf\<close> is \<open>fmt.Errorf\<close> with its
  whole formatted text and the operands of its \<open>%w\<close> verbs; \<open>APIError\<close> is the struct of the
  RunPod client; \<open>KubeErr\<close> is an error of the Kubernetes client, whose flag is what
  \<open>apierrors.IsNotFound\<close> answers; \<open>TransportErr\<close> is an error of the HTTP transport or of the
  context. A run-time panic of the source (a nil dereference, a slice bound out of range) ends
  the handler and is the error value \<open>GoPanic\<close>.
\<close>

datatype error =
    Err string
  | ErrNotFound
  | ErrAmbiguous
  | ErrCreateAmbiguous
  | ErrEndpointLifetimeExpired
  | ErrResponseLimit
  | APIError int string
  | KubeErr bool string
  | TransportErr string
  | GoPanic string
  | Wrapf string "error list"

type_synonym 'a result = "error + 'a"

text \<open>
  \<open>errors.Is(err, target)\<close> for a target that is one of the package variables: the error itself
  or one that it wraps.
\<close>

fun errors_Is :: "error \<Rightarrow> error \<Rightarrow> bool" where
  "errors_Is (Wrapf s es) target \<longleftrightarrow> Wrapf s es = target \<or> (\<exists>e \<in> set es. errors_Is e target)"
| "errors_Is e target \<longleftrightarrow> e = target"

definition IsNotFound :: "error \<Rightarrow> bool" where
  "IsNotFound e \<longleftrightarrow> (case e of KubeErr nf _ \<Rightarrow> nf | _ \<Rightarrow> False)"

text \<open>The decimal text of an integer, as the verb \<open>%d\<close> prints it.\<close>

fun show_nat :: "nat \<Rightarrow> string" where
  "show_nat n = (if n < 10 then [char_of (48 + n)] else show_nat (n div 10) @ [char_of (48 + n mod 10)])"

definition show_int :: "int \<Rightarrow> string" where
  "show_int i = (if i < 0 then ''-'' @ show_nat (nat (- i)) else show_nat (nat i))"

declare show_nat.simps [simp del]

text \<open>\<open>(*APIError).Error\<close> of client.go.\<close>

definition APIError_Error :: "int \<Rightarrow> string \<Rightarrow> string" where
  "APIError_Error status requestID =
     (if requestID = [] then ''RunPod API returned HTTP '' @ show_int status
      else ''RunPod API returned HTTP '' @ show_int status @ '' (request '' @ requestID @ '')'')"

fun error_text :: "error \<Rightarrow> string" where
  "error_text (Err s) = s"
| "error_text ErrNotFound = ''runpod resource not found''"
| "error_text ErrAmbiguous = ''multiple RunPod resources matched recovery lookup''"
| "error_text ErrCreateAmbiguous = ''RunPod create result is ambiguous''"
| "error_text ErrEndpointLifetimeExpired = ''referenced Endpoint lifetime expired''"
| "error_text ErrResponseLimit = ''upstream response exceeded limit''"
| "error_text (APIError c r) = APIError_Error c r"
| "error_text (KubeErr _ s) = s"
| "error_text (TransportErr s) = s"
| "error_text (GoPanic s) = s"
| "error_text (Wrapf s _) = s"

lemma errors_Is_refl [simp]: "errors_Is e e"
  by (cases e) auto

lemma errors_Is_Err [simp]: "errors_Is (Err s) t \<longleftrightarrow> t = Err s"
  by auto

text \<open>
  \<open>fmt.Errorf("%w: %v", sentinel, err)\<close>, which hides \<open>err\<close> and keeps the sentinel visible to
  \<open>errors.Is\<close>, and \<open>fmt.Errorf("text: %w", err)\<close>.
\<close>

definition wrap_sentinel :: "error \<Rightarrow> error \<Rightarrow> error" where
  "wrap_sentinel s e = Wrapf (error_text s @ '': '' @ error_text e) [s]"

definition wrap_text :: "string \<Rightarrow> error \<Rightarrow> error" where
  "wrap_text t e = Wrapf (t @ '': '' @ error_text e) [e]"

lemma errors_Is_wrap_sentinel [simp]: "errors_Is (wrap_sentinel s e) s"
  by (simp add: wrap_sentinel_def)

lemma errors_Is_wrap_text:
  "errors_Is (wrap_text t e) ErrNotFound \<longleftrightarrow> errors_Is e ErrNotFound"
  "errors_Is (wrap_text t e) ErrCreateAmbiguous \<longleftrightarrow> errors_Is e ErrCreateAmbiguous"
  "errors_Is (wrap_text t e) ErrAmbiguous \<longleftrightarrow> errors_Is e ErrAmbiguous"
  by (auto simp: wrap_text_def)

lemma errors_Is_wrap_sentinel_other [simp]:
  "errors_Is (wrap_sentinel ErrCreateAmbiguous e) ErrNotFound \<longleftrightarrow> False"
  by (simp add: wrap_sentinel_def)

end
