(* ===== verification/GoJson.thy ===== *)
theory GoJson
  imports GoStrings GoErrors
begin

text \<open>
  Go's package \<open>encoding/json\<close>, as far as the source uses it: JSON values, the text they are
  printed to and parsed from, and the decoding of an object into the fields of a struct. A number
  keeps its literal text, which \<open>int32\<close>, \<open>float64\<close> and \<open>json.Number\<close> targets read in their own
  ways. An object keeps its members in document order with repeated keys. The scanner and the
  parser are structural recursions over the bytes and the tokens, so both always return.
\<close>

datatype json =
    JNull
  | JBool bool
  | JNum string
  | JStr string
  | JArr "json list"
  | JObj "(string \<times> json) list"

section \<open>UTF-8\<close>

definition byte :: "char \<Rightarrow> nat" where
  "byte c = of_char c"

definition cont_byte :: "char \<Rightarrow> bool" where
  "cont_byte c \<longleftrightarrow> 128 \<le> byte c \<and> byte c < 192"

text \<open>The length of the well-formed UTF-8 sequence at the head of a string, 0 if there is none.\<close>

fun utf8_len :: "string \<Rightarrow> nat" where
  "utf8_len [] = 0"
| "utf8_len (a # cs) =
     (if byte a < 128 then 1
      else case cs of [] \<Rightarrow> 0 | b # cs' \<Rightarrow>
        if 194 \<le> byte a \<and> byte a < 224 then (if cont_byte b then 2 else 0)
        else case cs' of [] \<Rightarrow> 0 | c # cs'' \<Rightarrow>
          if 224 \<le> byte a \<and> byte a < 240 then
            (if cont_byte b \<and> cont_byte c \<and> (byte a = 224 \<longrightarrow> 160 \<le> byte b) \<and> (byte a = 237 \<longrightarrow> byte b < 160) then 3 else 0)
          else case cs'' of [] \<Rightarrow> 0 | d # _ \<Rightarrow>
            if 240 \<le> byte a \<and> byte a < 245 \<and> cont_byte b \<and> cont_byte c \<and> cont_byte d
               \<and> (byte a = 240 \<longrightarrow> 144 \<le> byte b) \<and> (byte a = 244 \<longrightarrow> byte b < 144) then 4 else 0)"

definition replacement :: string where
  "replacement = [CHR 0xEF, CHR 0xBF, CHR 0xBD]"

definition utf8_encode :: "nat \<Rightarrow> string" where
  "utf8_encode r =
     (if r < 128 then [char_of r]
      else if r < 2048 then [char_of (192 + r div 64), char_of (128 + r mod 64)]
      else if r < 65536 then [char_of (224 + r div 4096), char_of (128 + r div 64 mod 64), char_of (128 + r mod 64)]
      else [char_of (240 + r div 262144), char_of (128 + r div 4096 mod 64), char_of (128 + r div 64 mod 64),
            char_of (128 + r mod 64)])"

section \<open>Tokens\<close>

datatype token = TDelim char | TStr string | TNum string | TBool bool | TNull

definition is_json_space :: "char \<Rightarrow> bool" where
  "is_json_space c \<longleftrightarrow> c = CHR '' '' \<or> c = CHR 0x09 \<or> c = CHR 0x0A \<or> c = CHR 0x0D"

definition hex_val :: "char \<Rightarrow> nat option" where
  "hex_val c = (if is_digit c then Some (byte c - 48)
                else if CHR ''a'' \<le> c \<and> c \<le> CHR ''f'' then Some (byte c - 87)
                else if CHR ''A'' \<le> c \<and> c \<le> CHR ''F'' then Some (byte c - 55) else None)"

definition hex4 :: "char \<Rightarrow> char \<Rightarrow> char \<Rightarrow> char \<Rightarrow> nat option" where
  "hex4 a b c d =
     (case (hex_val a, hex_val b, hex_val c, hex_val d) of
        (Some w, Some x, Some y, Some z) \<Rightarrow> Some (((w * 16 + x) * 16 + y) * 16 + z) | _ \<Rightarrow> None)"

text \<open>
  The contents of a string literal between its quotes, decoded: escapes, surrogate pairs, and the
  replacement character for a lone surrogate or a malformed byte. \<open>None\<close> is a syntax error.
\<close>

fun unquote_fuel :: "nat \<Rightarrow> string \<Rightarrow> string option" where
  "unquote_fuel 0 s = (if s = [] then Some [] else None)"
| "unquote_fuel (Suc n) [] = Some []"
| "unquote_fuel (Suc n) (x # xs) =
     (if x = CHR 0x5C then
        (case xs of [] \<Rightarrow> None | e # es \<Rightarrow>
           if e = CHR 0x22 \<or> e = CHR 0x5C \<or> e = CHR ''/'' then map_option (Cons e) (unquote_fuel n es)
           else if e = CHR ''b'' then map_option (Cons (CHR 0x08)) (unquote_fuel n es)
           else if e = CHR ''f'' then map_option (Cons (CHR 0x0C)) (unquote_fuel n es)
           else if e = CHR ''n'' then map_option (Cons (CHR 0x0A)) (unquote_fuel n es)
           else if e = CHR ''r'' then map_option (Cons (CHR 0x0D)) (unquote_fuel n es)
           else if e = CHR ''t'' then map_option (Cons (CHR 0x09)) (unquote_fuel n es)
           else if e = CHR ''u'' then
             (case es of a # b # c # d # rest \<Rightarrow>
                (case hex4 a b c d of None \<Rightarrow> None | Some r \<Rightarrow>
                   if r < 55296 \<or> 57344 \<le> r then map_option (append (utf8_encode r)) (unquote_fuel n rest)
                   else (case rest of
                           bs # u # a' # b' # c' # d' # rest' \<Rightarrow>
                             (case hex4 a' b' c' d' of
                                Some r' \<Rightarrow>
                                  if bs = CHR 0x5C \<and> u = CHR ''u'' \<and> r < 56320 \<and> 56320 \<le> r' \<and> r' < 57344
                                  then map_option (append (utf8_encode (65536 + (r - 55296) * 1024 + (r' - 56320))))
                                         (unquote_fuel n rest')
                                  else map_option (append replacement) (unquote_fuel n rest)
                              | None \<Rightarrow> map_option (append replacement) (unquote_fuel n rest))
                         | _ \<Rightarrow> map_option (append replacement) (unquote_fuel n rest)))
              | _ \<Rightarrow> None)
           else None)
      else if byte x < 32 then None
      else (case utf8_len (x # xs) of
              0 \<Rightarrow> map_option (append replacement) (unquote_fuel n xs)
            | k \<Rightarrow> map_option (append (take k (x # xs))) (unquote_fuel n (drop k (x # xs)))))"

definition unquote :: "string \<Rightarrow> string option" where
  "unquote s = unquote_fuel (length s) s"

text \<open>The grammar of JSON numbers: \<open>-?(0|[1-9][0-9]*)(\.[0-9]+)?([eE][+-]?[0-9]+)?\<close>.\<close>

definition valid_exp :: "string \<Rightarrow> bool" where
  "valid_exp s \<longleftrightarrow>
     (case s of [] \<Rightarrow> True
      | e # ds \<Rightarrow> (e = CHR ''e'' \<or> e = CHR ''E'') \<and>
          (let ds' = (case ds of c # cs \<Rightarrow> if c = CHR ''+'' \<or> c = CHR ''-'' then cs else ds | [] \<Rightarrow> ds)
           in ds' \<noteq> [] \<and> list_all is_digit ds'))"

definition valid_frac :: "string \<Rightarrow> bool" where
  "valid_frac s \<longleftrightarrow>
     (case s of c # cs \<Rightarrow>
        if c = CHR ''.'' then takeWhile is_digit cs \<noteq> [] \<and> valid_exp (dropWhile is_digit cs) else valid_exp s
      | [] \<Rightarrow> True)"

definition valid_num :: "string \<Rightarrow> bool" where
  "valid_num s \<longleftrightarrow>
     (let u = (case s of c # cs \<Rightarrow> if c = CHR ''-'' then cs else s | [] \<Rightarrow> s);
          ds = takeWhile is_digit u
      in ds \<noteq> [] \<and> (hd ds = CHR ''0'' \<longrightarrow> length ds = 1) \<and> valid_frac (dropWhile is_digit u))"

definition num_char :: "char \<Rightarrow> bool" where
  "num_char c \<longleftrightarrow> is_digit c \<or> c = CHR ''-'' \<or> c = CHR ''+'' \<or> c = CHR ''.'' \<or> c = CHR ''e'' \<or> c = CHR ''E''"

datatype lexstate = LStart | LStr string | LEsc string | LNum string | LWord string

definition word_token :: "string \<Rightarrow> token option" where
  "word_token w = (if w = ''true'' then Some (TBool True) else if w = ''false'' then Some (TBool False)
                   else if w = ''null'' then Some TNull else None)"

definition lex_start :: "char \<Rightarrow> (token list \<times> lexstate) option" where
  "lex_start c =
     (if is_json_space c then Some ([], LStart)
      else if c \<in> set ''{}[],:'' then Some ([TDelim c], LStart)
      else if c = CHR 0x22 then Some ([], LStr [])
      else if is_digit c \<or> c = CHR ''-'' then Some ([], LNum [c])
      else if is_lower c then Some ([], LWord [c])
      else None)"

fun lex :: "lexstate \<Rightarrow> string \<Rightarrow> token list option" where
  "lex LStart [] = Some []"
| "lex (LNum acc) [] = (if valid_num (rev acc) then Some [TNum (rev acc)] else None)"
| "lex (LWord acc) [] = (case word_token (rev acc) of None \<Rightarrow> None | Some t \<Rightarrow> Some [t])"
| "lex (LStr acc) [] = None"
| "lex (LEsc acc) [] = None"
| "lex LStart (c # cs) =
     (case lex_start c of None \<Rightarrow> None | Some (ts, st) \<Rightarrow> map_option (append ts) (lex st cs))"
| "lex (LStr acc) (c # cs) =
     (if c = CHR 0x22 then
        (case unquote (rev acc) of None \<Rightarrow> None | Some s \<Rightarrow> map_option (Cons (TStr s)) (lex LStart cs))
      else if c = CHR 0x5C then lex (LEsc (c # acc)) cs
      else lex (LStr (c # acc)) cs)"
| "lex (LEsc acc) (c # cs) = lex (LStr (c # acc)) cs"
| "lex (LNum acc) (c # cs) =
     (if num_char c then lex (LNum (c # acc)) cs
      else if valid_num (rev acc) then
        (case lex_start c of None \<Rightarrow> None
         | Some (ts, st) \<Rightarrow> map_option (\<lambda>rest. TNum (rev acc) # ts @ rest) (lex st cs))
      else None)"
| "lex (LWord acc) (c # cs) =
     (if is_lower c then lex (LWord (c # acc)) cs
      else case word_token (rev acc) of None \<Rightarrow> None
           | Some t \<Rightarrow> (case lex_start c of None \<Rightarrow> None
                        | Some (ts, st) \<Rightarrow> map_option (\<lambda>rest. t # ts @ rest) (lex st cs)))"

section \<open>Parsing\<close>

text \<open>
  A pushdown parser over the tokens. A frame is an open array with the elements read so far
  (reversed) or an open object with its members and the key whose value is being read. The
  package refuses a nesting depth above 10000.
\<close>

datatype frame = FArr "json list" | FObj "(string \<times> json) list" string

datatype mode =
    MVal
  | MValOrEnd
  | MKeyOrEnd
  | MKey "(string \<times> json) list"
  | MColon "(string \<times> json) list" string
  | MAfter json

definition maxNestingDepth :: int where
  "maxNestingDepth = 10000"

definition open_value :: "frame list \<Rightarrow> token \<Rightarrow> (mode \<times> frame list) option" where
  "open_value fs t =
     (case t of
        TStr s \<Rightarrow> Some (MAfter (JStr s), fs)
      | TNum s \<Rightarrow> Some (MAfter (JNum s), fs)
      | TBool b \<Rightarrow> Some (MAfter (JBool b), fs)
      | TNull \<Rightarrow> Some (MAfter JNull, fs)
      | TDelim c \<Rightarrow>
          if int (length fs) \<ge> maxNestingDepth then None
          else if c = CHR ''['' then Some (MValOrEnd, FArr [] # fs)
          else if c = CHR ''{'' then Some (MKeyOrEnd, fs)
          else None)"

definition parse_step :: "mode \<Rightarrow> frame list \<Rightarrow> token \<Rightarrow> (mode \<times> frame list) option" where
  "parse_step m fs t =
     (case m of
        MVal \<Rightarrow> open_value fs t
      | MValOrEnd \<Rightarrow>
          if t = TDelim (CHR '']'') then (case fs of FArr vs # fs' \<Rightarrow> Some (MAfter (JArr (rev vs)), fs') | _ \<Rightarrow> None)
          else open_value fs t
      | MKeyOrEnd \<Rightarrow>
          (case t of TStr k \<Rightarrow> Some (MColon [] k, fs)
           | TDelim c \<Rightarrow> if c = CHR ''}'' then Some (MAfter (JObj []), fs) else None
           | _ \<Rightarrow> None)
      | MKey kvs \<Rightarrow> (case t of TStr k \<Rightarrow> Some (MColon kvs k, fs) | _ \<Rightarrow> None)
      | MColon kvs k \<Rightarrow> if t = TDelim (CHR '':'') then Some (MVal, FObj kvs k # fs) else None
      | MAfter v \<Rightarrow>
          (case fs of
             [] \<Rightarrow> None
           | FArr vs # fs' \<Rightarrow>
               if t = TDelim (CHR '','') then Some (MVal, FArr (v # vs) # fs')
               else if t = TDelim (CHR '']'') then Some (MAfter (JArr (rev (v # vs))), fs')
               else None
           | FObj kvs k # fs' \<Rightarrow>
               if t = TDelim (CHR '','') then Some (MKey ((k, v) # kvs), fs')
               else if t = TDelim (CHR ''}'') then Some (MAfter (JObj (rev ((k, v) # kvs))), fs')
               else None))"

fun parse :: "mode \<Rightarrow> frame list \<Rightarrow> token list \<Rightarrow> json option" where
  "parse m fs [] = (case (m, fs) of (MAfter v, []) \<Rightarrow> Some v | _ \<Rightarrow> None)"
| "parse m fs (t # ts) = (case parse_step m fs t of None \<Rightarrow> None | Some (m', fs') \<Rightarrow> parse m' fs' ts)"

definition json_parse :: "string \<Rightarrow> json option" where
  "json_parse s = (case lex LStart s of None \<Rightarrow> None | Some ts \<Rightarrow> parse MVal [] ts)"

section \<open>Printing\<close>

text \<open>
  \<open>json.Marshal\<close> of a string: quotes, backslashes and control characters are escaped, and so are
  the HTML characters and the line separators U+2028 and U+2029; a malformed byte is printed as
  the escape of the replacement character.
\<close>

definition hexl :: "nat \<Rightarrow> char" where
  "hexl n = (if n < 10 then char_of (48 + n) else char_of (87 + n))"

definition u_escape :: "nat \<Rightarrow> string" where
  "u_escape n = [CHR 0x5C, CHR ''u'', hexl (n div 4096 mod 16), hexl (n div 256 mod 16), hexl (n div 16 mod 16), hexl (n mod 16)]"

definition escape_ascii :: "char \<Rightarrow> string" where
  "escape_ascii c =
     (if c = CHR 0x22 \<or> c = CHR 0x5C then [CHR 0x5C, c]
      else if c = CHR 0x08 then [CHR 0x5C, CHR ''b''] else if c = CHR 0x0C then [CHR 0x5C, CHR ''f'']
      else if c = CHR 0x0A then [CHR 0x5C, CHR ''n''] else if c = CHR 0x0D then [CHR 0x5C, CHR ''r'']
      else if c = CHR 0x09 then [CHR 0x5C, CHR ''t'']
      else if byte c < 32 \<or> c = CHR ''<'' \<or> c = CHR ''>'' \<or> c = CHR ''&'' then u_escape (byte c)
      else [c])"

fun quote_fuel :: "nat \<Rightarrow> string \<Rightarrow> string" where
  "quote_fuel 0 s = []"
| "quote_fuel (Suc n) [] = []"
| "quote_fuel (Suc n) (c # cs) =
     (if byte c < 128 then escape_ascii c @ quote_fuel n cs
      else case utf8_len (c # cs) of
        0 \<Rightarrow> u_escape 65533 @ quote_fuel n cs
      | k \<Rightarrow> (let r = take k (c # cs)
              in if r = [CHR 0xE2, CHR 0x80, CHR 0xA8] then u_escape 8232
                 else if r = [CHR 0xE2, CHR 0x80, CHR 0xA9] then u_escape 8233 else r)
             @ quote_fuel n (drop k (c # cs)))"

definition json_quote :: "string \<Rightarrow> string" where
  "json_quote s = [CHR 0x22] @ quote_fuel (length s) s @ [CHR 0x22]"

fun join :: "string list \<Rightarrow> string" where
  "join [] = []"
| "join [s] = s"
| "join (s # ss) = s @ '','' @ join ss"

fun json_text :: "json \<Rightarrow> string" where
  "json_text JNull = ''null''"
| "json_text (JBool b) = (if b then ''true'' else ''false'')"
| "json_text (JNum s) = s"
| "json_text (JStr s) = json_quote s"
| "json_text (JArr vs) = ''['' @ join (map json_text vs) @ '']''"
| "json_text (JObj kvs) = ''{'' @ join (map (\<lambda>(k, v). json_quote k @ '':'' @ json_text v) kvs) @ ''}''"

section \<open>Decoding an object into a struct\<close>

text \<open>
  \<open>json.Unmarshal\<close> matches member names with field names up to case folding: ASCII letters, and
  the two runes that fold to an ASCII letter, the long s (C5 BF) and the Kelvin sign (E2 84 AA).
  A repeated member is decoded again over the field's value; an unknown one is skipped. The
  struct decoder takes a table from folded names to field decoders; the first error is the
  result, since the source discards the target then.
\<close>

definition upper_char :: "char \<Rightarrow> char" where
  "upper_char c = (if is_lower c then char_of (of_char c - 32 :: nat) else c)"

fun foldName :: "string \<Rightarrow> string" where
  "foldName (a # b # c # cs) =
     (if a = CHR 0xE2 \<and> b = CHR 0x84 \<and> c = CHR 0xAA then CHR ''K'' # foldName cs
      else if a = CHR 0xC5 \<and> b = CHR 0xBF then CHR ''S'' # foldName (c # cs)
      else upper_char a # foldName (b # c # cs))"
| "foldName [a, b] = (if a = CHR 0xC5 \<and> b = CHR 0xBF then ''S'' else [upper_char a, upper_char b])"
| "foldName [a] = [upper_char a]"
| "foldName [] = []"

type_synonym 'r decoder = "json \<Rightarrow> 'r \<Rightarrow> 'r result"

fun decode_members :: "(string \<times> 'r decoder) list \<Rightarrow> (string \<times> json) list \<Rightarrow> 'r \<Rightarrow> 'r result" where
  "decode_members fields [] r = Inr r"
| "decode_members fields ((k, v) # kvs) r =
     (case map_of fields (foldName k) of
        None \<Rightarrow> decode_members fields kvs r
      | Some dec \<Rightarrow> (case dec v r of Inl e \<Rightarrow> Inl e | Inr r' \<Rightarrow> decode_members fields kvs r'))"

definition type_error :: error where
  "type_error = Err ''json: cannot unmarshal value into Go struct field''"

text \<open>A member of a struct value: null leaves it unchanged.\<close>

definition decode_struct :: "(string \<times> 'r decoder) list \<Rightarrow> 'r decoder" where
  "decode_struct fields v r =
     (case v of JObj kvs \<Rightarrow> decode_members fields kvs r | JNull \<Rightarrow> Inr r | _ \<Rightarrow> Inl type_error)"

definition with_field :: "('a decoder) \<Rightarrow> ('r \<Rightarrow> 'a) \<Rightarrow> (('a \<Rightarrow> 'a) \<Rightarrow> 'r \<Rightarrow> 'r) \<Rightarrow> 'r decoder" where
  "with_field dec get upd v r = (case dec v (get r) of Inl e \<Rightarrow> Inl e | Inr x \<Rightarrow> Inr (upd (\<lambda>_. x) r))"

definition dec_string :: "string decoder" where
  "dec_string v old = (case v of JNull \<Rightarrow> Inr old | JStr s \<Rightarrow> Inr s | _ \<Rightarrow> Inl type_error)"

definition dec_bool :: "bool decoder" where
  "dec_bool v old = (case v of JNull \<Rightarrow> Inr old | JBool b \<Rightarrow> Inr b | _ \<Rightarrow> Inl type_error)"

text \<open>An \<open>int32\<close> takes an integer literal in its range; a fraction or an exponent is refused.\<close>

definition dec_int32 :: "int32 decoder" where
  "dec_int32 v old =
     (case v of JNull \<Rightarrow> Inr old
      | JNum s \<Rightarrow> (case Atoi s of
                     Some n \<Rightarrow> if - (2 ^ 31) \<le> n \<and> n < 2 ^ 31 then Inr (word_of_int n) else Inl type_error
                   | None \<Rightarrow> Inl type_error)
      | _ \<Rightarrow> Inl type_error)"

text \<open>A pointer becomes nil on null and is allocated (with the zero value) otherwise.\<close>

definition dec_ptr :: "'a \<Rightarrow> 'a decoder \<Rightarrow> 'a ptr decoder" where
  "dec_ptr zero dec v old =
     (if v = JNull then Inr None
      else (case dec v (case old of None \<Rightarrow> zero | Some x \<Rightarrow> x) of Inl e \<Rightarrow> Inl e | Inr x \<Rightarrow> Inr (Some x)))"

text \<open>
  An array is decoded into the elements of the slice that is there, as far as it reaches, and into
  fresh ones after that. (Elements that an earlier, longer value of the same member left behind the
  end of a shorter one are not kept: they only matter for a member that occurs three times.)
\<close>

fun decode_elems :: "'a \<Rightarrow> 'a decoder \<Rightarrow> 'a list \<Rightarrow> json list \<Rightarrow> 'a list result" where
  "decode_elems zero dec old [] = Inr []"
| "decode_elems zero dec old (v # vs) =
     (case dec v (case old of [] \<Rightarrow> zero | x # _ \<Rightarrow> x) of Inl e \<Rightarrow> Inl e
      | Inr x \<Rightarrow> (case decode_elems zero dec (tl old) vs of Inl e \<Rightarrow> Inl e | Inr xs \<Rightarrow> Inr (x # xs)))"

definition dec_slice :: "'a \<Rightarrow> 'a decoder \<Rightarrow> 'a slice decoder" where
  "dec_slice zero dec v old =
     (case v of JNull \<Rightarrow> Inr None
      | JArr vs \<Rightarrow> (case decode_elems zero dec (elems old) vs of Inl e \<Rightarrow> Inl e | Inr xs \<Rightarrow> Inr (Some xs))
      | _ \<Rightarrow> Inl type_error)"

text \<open>A \<open>map[string]string\<close> as an association list, \<open>None\<close> for the nil map.\<close>

type_synonym go_strmap = "(string \<times> string) list option"

fun decode_entries :: "(string \<times> json) list \<Rightarrow> (string \<times> string) list \<Rightarrow> (string \<times> string) list result" where
  "decode_entries [] m = Inr m"
| "decode_entries ((k, v) # kvs) m =
     (case dec_string v [] of Inl e \<Rightarrow> Inl e
      | Inr s \<Rightarrow> decode_entries kvs ((k, s) # filter (\<lambda>(k', _). k' \<noteq> k) m))"

definition dec_strmap :: "go_strmap decoder" where
  "dec_strmap v old =
     (case v of JNull \<Rightarrow> Inr None
      | JObj kvs \<Rightarrow> (case decode_entries kvs (case old of None \<Rightarrow> [] | Some m \<Rightarrow> m) of
                       Inl e \<Rightarrow> Inl e | Inr m \<Rightarrow> Inr (Some m))
      | _ \<Rightarrow> Inl type_error)"

text \<open>A \<open>json.RawMessage\<close> keeps the value, null included; \<open>None\<close> is the nil message.\<close>

definition dec_raw :: "json option decoder" where
  "dec_raw v old = Inr (Some v)"

text \<open>Decoding member by member, and members that no field has.\<close>

lemma decode_members_append:
  "decode_members fields (xs @ ys) r =
     (case decode_members fields xs r of Inl e \<Rightarrow> Inl e | Inr r' \<Rightarrow> decode_members fields ys r')"
  by (induction fields xs r rule: decode_members.induct) (auto split: option.splits sum.splits)

lemma decode_members_unknown:
  "list_all (\<lambda>(k, v). map_of fields (foldName k) = None) kvs \<Longrightarrow> decode_members fields kvs r = Inr r"
  by (induction kvs arbitrary: r) auto

text \<open>
  A field that no member of the object names keeps the value it had: each decoder of the table
  writes its own field only.
\<close>

definition preserves :: "('r \<Rightarrow> 'a) \<Rightarrow> 'r decoder \<Rightarrow> bool" where
  "preserves get dec \<longleftrightarrow> (\<forall>v r r'. dec v r = Inr r' \<longrightarrow> get r' = get r)"

lemma preserves_with_field:
  assumes "\<And>f r. get' (upd f r) = get' r"
  shows "preserves get' (with_field dec get upd)"
  unfolding preserves_def with_field_def
proof (intro allI impI)
  fix v r r'
  assume "(case dec v (get r) of Inl e \<Rightarrow> Inl e | Inr x \<Rightarrow> Inr (upd (\<lambda>_. x) r)) = Inr r'"
  then show "get' r' = get' r"
    using assms by (cases "dec v (get r)") auto
qed

lemma decode_members_frame:
  assumes tbl: "list_all (\<lambda>(n, dec). n = N \<or> preserves get dec) fields"
    and "decode_members fields kvs r = Inr r'"
    and "N \<notin> foldName ` fst ` set kvs"
  shows "get r' = get r"
  using assms(2,3)
proof (induction kvs arbitrary: r)
  case (Cons kv kvs)
  obtain k v where kv: "kv = (k, v)" by (cases kv)
  show ?case
  proof (cases "map_of fields (foldName k)")
    case None
    with Cons kv show ?thesis by simp
  next
    case (Some dec)
    with Cons.prems kv obtain r1 where r1: "dec v r = Inr r1" "decode_members fields kvs r1 = Inr r'"
      by (simp split: sum.splits)
    from Cons.prems kv have "foldName k \<noteq> N" by auto
    with tbl map_of_SomeD [OF Some] have "preserves get dec"
      by (auto simp: list_all_iff)
    with r1(1) have "get r1 = get r" by (simp add: preserves_def)
    with Cons.IH [OF r1(2)] Cons.prems kv show ?thesis by simp
  qed
qed simp

section \<open>The tokens of a value\<close>

text \<open>
  A reference for the parser: the tokens a value is written with. Every token sequence that the
  parser accepts is the one of the value it returns, so the parser loses nothing: no member, no
  repetition and no order.
\<close>

fun separated :: "token list list \<Rightarrow> token list" where
  "separated [] = []"
| "separated [ts] = ts"
| "separated (ts # tss) = ts @ TDelim (CHR '','') # separated tss"

fun tokens :: "json \<Rightarrow> token list" where
  "tokens JNull = [TNull]"
| "tokens (JBool b) = [TBool b]"
| "tokens (JNum s) = [TNum s]"
| "tokens (JStr s) = [TStr s]"
| "tokens (JArr vs) = TDelim (CHR ''['') # separated (map tokens vs) @ [TDelim (CHR '']'')]"
| "tokens (JObj kvs) =
     TDelim (CHR ''{'') # separated (map (\<lambda>(k, v). TStr k # TDelim (CHR '':'') # tokens v) kvs) @ [TDelim (CHR ''}'')]"

definition with_comma :: "token list list \<Rightarrow> token list" where
  "with_comma tss = concat (map (\<lambda>ts. ts @ [TDelim (CHR '','')]) tss)"

lemma separated_snoc: "separated (tss @ [ts]) = with_comma tss @ ts"
  unfolding with_comma_def by (induction tss rule: separated.induct) auto

definition member_tokens :: "string \<times> json \<Rightarrow> token list" where
  "member_tokens = (\<lambda>(k, v). TStr k # TDelim (CHR '':'') # tokens v)"

text \<open>The tokens that have been read in a state of the parser.\<close>

fun frame_tokens :: "frame \<Rightarrow> token list" where
  "frame_tokens (FArr vs) = TDelim (CHR ''['') # with_comma (map tokens (rev vs))"
| "frame_tokens (FObj kvs k) = TDelim (CHR ''{'') # with_comma (map member_tokens (rev kvs)) @ [TStr k, TDelim (CHR '':'')]"

fun mode_tokens :: "mode \<Rightarrow> token list" where
  "mode_tokens MVal = []"
| "mode_tokens MValOrEnd = []"
| "mode_tokens MKeyOrEnd = [TDelim (CHR ''{'')]"
| "mode_tokens (MKey kvs) = TDelim (CHR ''{'') # with_comma (map member_tokens (rev kvs))"
| "mode_tokens (MColon kvs k) = TDelim (CHR ''{'') # with_comma (map member_tokens (rev kvs)) @ [TStr k]"
| "mode_tokens (MAfter v) = tokens v"

definition read_tokens :: "mode \<Rightarrow> frame list \<Rightarrow> token list" where
  "read_tokens m fs = concat (map frame_tokens (rev fs)) @ mode_tokens m"

definition parser_wf :: "mode \<Rightarrow> frame list \<Rightarrow> bool" where
  "parser_wf m fs \<longleftrightarrow> (m = MValOrEnd \<longrightarrow> (\<exists>fs'. fs = FArr [] # fs'))"

lemma with_comma_simps [simp]: "with_comma [] = []" "with_comma (tss @ [ts]) = with_comma tss @ ts @ [TDelim (CHR '','')]"
  by (simp_all add: with_comma_def)

lemma tokens_closed:
  "tokens (JArr (rev vs @ [v])) = TDelim (CHR ''['') # with_comma (map tokens (rev vs)) @ tokens v @ [TDelim (CHR '']'')]"
  "tokens (JObj (rev kvs @ [(k, v)])) =
     TDelim (CHR ''{'') # with_comma (map member_tokens (rev kvs)) @ [TStr k, TDelim (CHR '':'')] @ tokens v @ [TDelim (CHR ''}'')]"
  by (simp_all add: separated_snoc member_tokens_def [symmetric]) (simp add: member_tokens_def)

lemma open_value_tokens:
  "open_value fs t = Some (m', fs') \<Longrightarrow> read_tokens m' fs' = concat (map frame_tokens (rev fs)) @ [t] \<and> parser_wf m' fs'"
  by (auto simp: open_value_def read_tokens_def parser_wf_def split: token.splits if_splits)

lemma parse_step_tokens:
  assumes "parse_step m fs t = Some (m', fs')" "parser_wf m fs"
  shows "read_tokens m' fs' = read_tokens m fs @ [t] \<and> parser_wf m' fs'"
proof (cases m)
  case MVal
  with assms open_value_tokens [of fs t m' fs'] show ?thesis by (simp add: parse_step_def read_tokens_def)
next
  case MValOrEnd
  with assms open_value_tokens [of fs t m' fs'] show ?thesis
    by (auto simp: parse_step_def parser_wf_def read_tokens_def split: if_splits)
next
  case (MAfter v)
  with assms show ?thesis
    by (auto simp: parse_step_def read_tokens_def parser_wf_def tokens_closed member_tokens_def simp del: tokens.simps(5,6)
        split: list.splits frame.splits if_splits)
qed (use assms in \<open>auto simp: parse_step_def read_tokens_def parser_wf_def member_tokens_def split: token.splits if_splits\<close>)

lemma parse_tokens:
  "parse m fs ts = Some v \<Longrightarrow> parser_wf m fs \<Longrightarrow> read_tokens m fs @ ts = tokens v"
proof (induction m fs ts rule: parse.induct)
  case (1 m fs)
  then show ?case by (auto simp: read_tokens_def split: mode.splits list.splits)
next
  case (2 m fs t ts)
  then obtain m' fs' where s: "parse_step m fs t = Some (m', fs')" "parse m' fs' ts = Some v" by (auto split: option.splits)
  from parse_step_tokens [OF s(1) 2(3)] 2(1) [of "(m', fs')"] s show ?case by auto
qed

lemma json_parse_tokens: "json_parse s = Some v \<Longrightarrow> lex LStart s = Some (tokens v)"
  using parse_tokens [of MVal "[]"] by (auto simp: json_parse_def read_tokens_def parser_wf_def split: option.splits)

end
