(* ===== verification/GoFloat.thy ===== *)
theory GoFloat
  imports GoStrings Complex_Main
begin

text \<open>
  IEEE 754 binary64 as Go's \<open>float64\<close> uses it here: a finite value is the rational number it
  denotes (the sign of zero is never observed), rounding is to nearest, ties to even, with
  subnormals and overflow to infinity. \<open>ParseFloat\<close> is \<open>strconv.ParseFloat(s, 64)\<close>: decimal and
  hexadecimal literals, digit separators, and the names of the special values.
\<close>

datatype float64 = Fin rat | Infinite bool | NaN

definition round_half_even :: "rat \<Rightarrow> int" where
  "round_half_even x =
     (let n = \<lfloor>x\<rfloor>; d = x - of_int n
      in if d < 1 / 2 then n else if d > 1 / 2 then n + 1 else if even n then n else n + 1)"

definition pow2 :: "int \<Rightarrow> rat" where
  "pow2 e = (if 0 \<le> e then 2 ^ nat e else 1 / 2 ^ nat (- e))"

text \<open>The number of bits of a natural number, and the exponent of the leading bit of a positive rational.\<close>

function bits :: "int \<Rightarrow> int" where
  "bits n = (if n \<le> 0 then 0 else 1 + bits (n div 2))"
  by pat_completeness auto
termination
  by (relation "measure nat") auto

declare bits.simps [simp del]

definition log2_floor :: "rat \<Rightarrow> int" where
  "log2_floor x =
     (case quotient_of x of (a, b) \<Rightarrow>
        let e = bits a - bits b
        in if pow2 e \<le> x then e else e - 1)"

definition ulp_exponent :: "rat \<Rightarrow> int" where
  "ulp_exponent x = max (log2_floor x - 52) (- 1074)"

definition round_pos :: "rat \<Rightarrow> rat" where
  "round_pos x = (let u = ulp_exponent x in of_int (round_half_even (x / pow2 u)) * pow2 u)"

definition round64 :: "rat \<Rightarrow> float64" where
  "round64 x =
     (if x = 0 then Fin 0
      else let r = round_pos \<bar>x\<bar>
           in if pow2 1024 \<le> r then Infinite (x < 0) else Fin (if x < 0 then - r else r))"

definition float_div :: "float64 \<Rightarrow> float64 \<Rightarrow> float64" where
  "float_div a b =
     (case (a, b) of
        (Fin x, Fin y) \<Rightarrow> if y = 0 then (if x = 0 then NaN else Infinite (x < 0)) else round64 (x / y)
      | (Fin x, Infinite _) \<Rightarrow> Fin 0
      | (Infinite s, Fin y) \<Rightarrow> Infinite (s \<noteq> (y < 0))
      | _ \<Rightarrow> NaN)"

text \<open>The comparison \<open>a <= b\<close>, false when an operand is not a number.\<close>

definition float_le :: "float64 \<Rightarrow> float64 \<Rightarrow> bool" where
  "float_le a b \<longleftrightarrow>
     (case (a, b) of
        (Fin x, Fin y) \<Rightarrow> x \<le> y
      | (Fin _, Infinite neg) \<Rightarrow> \<not> neg
      | (Infinite neg, Fin _) \<Rightarrow> neg
      | (Infinite n1, Infinite n2) \<Rightarrow> n1 \<or> \<not> n2
      | _ \<Rightarrow> False)"

definition IsNaN :: "float64 \<Rightarrow> bool" where
  "IsNaN a \<longleftrightarrow> a = NaN"

definition IsInf :: "float64 \<Rightarrow> bool" where
  "IsInf a \<longleftrightarrow> (case a of Infinite _ \<Rightarrow> True | _ \<Rightarrow> False)"

text \<open>
  The digits of an exponent, read while the number is below ten thousand; the digits after that are
  skipped.
\<close>

definition exponent_val :: "string \<Rightarrow> nat" where
  "exponent_val ds = foldl (\<lambda>e c. if e < 10000 then e * 10 + nat (digit_val c) else e) 0 ds"

text \<open>The value of a decimal literal: digits, an optional fraction and an optional exponent.\<close>

definition decimal_value :: "string \<Rightarrow> rat option" where
  "decimal_value s =
     (let ip = takeWhile is_digit s; r1 = dropWhile is_digit s;
          dot = (case r1 of c # _ \<Rightarrow> c = CHR ''.'' | [] \<Rightarrow> False);
          fp = (if dot then takeWhile is_digit (tl r1) else []);
          r2 = (if dot then dropWhile is_digit (tl r1) else r1);
          m = of_int (digits_val (ip @ fp)) / 10 ^ length fp
      in if ip @ fp = [] then None
         else (case r2 of
                 [] \<Rightarrow> Some m
               | e # r3 \<Rightarrow>
                   if e = CHR ''e'' \<or> e = CHR ''E'' then
                     (let neg = (case r3 of c # _ \<Rightarrow> c = CHR ''-'' | [] \<Rightarrow> False);
                          ds = (case r3 of c # cs \<Rightarrow> if c = CHR ''-'' \<or> c = CHR ''+'' then cs else r3 | [] \<Rightarrow> r3);
                          k = exponent_val ds
                      in if ds \<noteq> [] \<and> list_all is_digit ds then Some (if neg then m / 10 ^ k else m * 10 ^ k) else None)
                   else None))"

text \<open>
  The value of a hexadecimal literal behind its prefix \<open>0x\<close>: digits, an optional fraction and an
  exponent of two, which is mandatory.
\<close>

definition is_hex :: "char \<Rightarrow> bool" where
  "is_hex c \<longleftrightarrow> is_digit c \<or> c \<in> set ''abcdefABCDEF''"

definition hex_digit :: "char \<Rightarrow> int" where
  "hex_digit c = (if is_digit c then digit_val c else int (of_char c) mod 32 + 9)"

definition hex_value :: "string \<Rightarrow> rat option" where
  "hex_value s =
     (let ip = takeWhile is_hex s; r1 = dropWhile is_hex s;
          dot = (case r1 of c # _ \<Rightarrow> c = CHR ''.'' | [] \<Rightarrow> False);
          fp = (if dot then takeWhile is_hex (tl r1) else []);
          r2 = (if dot then dropWhile is_hex (tl r1) else r1);
          m = of_int (foldl (\<lambda>n c. 16 * n + hex_digit c) 0 (ip @ fp)) / 16 ^ length fp
      in if ip @ fp = [] then None
         else (case r2 of
                 e # r3 \<Rightarrow>
                   if e = CHR ''p'' \<or> e = CHR ''P'' then
                     (let neg = (case r3 of c # _ \<Rightarrow> c = CHR ''-'' | [] \<Rightarrow> False);
                          ds = (case r3 of c # cs \<Rightarrow> if c = CHR ''-'' \<or> c = CHR ''+'' then cs else r3 | [] \<Rightarrow> r3);
                          k = exponent_val ds
                      in if ds \<noteq> [] \<and> list_all is_digit ds then Some (if neg then m / 2 ^ k else m * 2 ^ k) else None)
                   else None
               | [] \<Rightarrow> None))"

text \<open>
  \<open>underscoreOK\<close> of \<open>strconv\<close>: a separator stands between digits, or between a base prefix and a
  digit. The state is the kind of the last character: none or another one, a digit, a separator.
\<close>

datatype last_char = LastOther | LastDigit | LastUnderscore

fun separators_ok :: "bool \<Rightarrow> last_char \<Rightarrow> string \<Rightarrow> bool" where
  "separators_ok hex prev [] \<longleftrightarrow> prev \<noteq> LastUnderscore"
| "separators_ok hex prev (c # cs) \<longleftrightarrow>
     (if is_digit c \<or> hex \<and> is_hex c then separators_ok hex LastDigit cs
      else if c = CHR ''_'' then prev = LastDigit \<and> separators_ok hex LastUnderscore cs
      else prev \<noteq> LastUnderscore \<and> separators_ok hex LastOther cs)"

definition hex_prefixed :: "string \<Rightarrow> bool" where
  "hex_prefixed s \<longleftrightarrow> (case s of c # d # _ \<Rightarrow> c = CHR ''0'' \<and> d \<in> set ''xX'' | _ \<Rightarrow> False)"

definition underscoreOK :: "string \<Rightarrow> bool" where
  "underscoreOK s =
     (if (case s of c # d # _ \<Rightarrow> c = CHR ''0'' \<and> d \<in> set ''bBoOxX'' | _ \<Rightarrow> False)
      then separators_ok (hex_prefixed s) LastDigit (drop 2 s) else separators_ok False LastOther s)"

text \<open>The value of a literal without its sign.\<close>

definition literal_value :: "string \<Rightarrow> rat option" where
  "literal_value s =
     (let u = filter (\<lambda>c. c \<noteq> CHR ''_'') s
      in if CHR ''_'' \<in> set s \<and> \<not> underscoreOK s then None
         else if hex_prefixed u then hex_value (drop 2 u)
         else decimal_value u)"

definition ParseFloat :: "string \<Rightarrow> float64 option" where
  "ParseFloat s =
     (let neg = (case s of c # _ \<Rightarrow> c = CHR ''-'' | [] \<Rightarrow> False);
          signed = (case s of c # _ \<Rightarrow> c = CHR ''-'' \<or> c = CHR ''+'' | [] \<Rightarrow> False);
          u = (if signed then tl s else s);
          l = ToLower u
      in if l = ''inf'' \<or> l = ''infinity'' then Some (Infinite neg)
         else if l = ''nan'' \<and> \<not> signed then Some NaN
         else (case literal_value u of
                 None \<Rightarrow> None
               | Some m \<Rightarrow> (case round64 (if neg then - m else m) of
                              Infinite _ \<Rightarrow> None \<comment> \<open>a range error\<close>
                            | f \<Rightarrow> Some f)))"

lemma float_le_Fin [simp]: "float_le (Fin x) (Fin y) \<longleftrightarrow> x \<le> y"
  by (simp add: float_le_def)

lemma pow2_pos [simp]: "0 < pow2 e"
  by (simp add: pow2_def)

lemma round_half_even_error: "\<bar>of_int (round_half_even x) - x\<bar> \<le> 1 / 2"
proof -
  have "of_int \<lfloor>x\<rfloor> \<le> x" "x < of_int \<lfloor>x\<rfloor> + 1"
    using floor_correct [of x] by simp_all
  then show ?thesis
    unfolding round_half_even_def Let_def by (auto simp: abs_le_iff split: if_splits)
qed

text \<open>Rounding moves a value by at most half a unit in the last place.\<close>

lemma round_pos_error: "\<bar>round_pos x - x\<bar> \<le> pow2 (ulp_exponent x) / 2"
proof -
  let ?p = "pow2 (ulp_exponent x)" and ?q = "of_int (round_half_even (x / pow2 (ulp_exponent x))) :: rat"
  have p: "0 < ?p" "?p \<noteq> 0" using pow2_pos [of "ulp_exponent x"] by (simp, linarith)
  then have "round_pos x - x = (?q - x / ?p) * ?p"
    by (simp add: round_pos_def Let_def algebra_simps)
  then have "\<bar>round_pos x - x\<bar> = \<bar>?q - x / ?p\<bar> * ?p"
    by (simp only: abs_mult abs_of_pos [OF p(1)])
  also have "\<dots> \<le> 1 / 2 * ?p"
    by (intro mult_right_mono round_half_even_error less_imp_le p(1))
  finally show ?thesis by simp
qed

lemma bits_bounds: "0 < n \<Longrightarrow> 1 \<le> bits n \<and> 2 ^ nat (bits n - 1) \<le> n \<and> n < 2 ^ nat (bits n)"
proof (induction n rule: bits.induct)
  case (1 n)
  show ?case
  proof (cases "n = 1")
    case True
    then show ?thesis by (simp add: bits.simps)
  next
    case False
    with 1 have IH: "1 \<le> bits (n div 2)" "2 ^ nat (bits (n div 2) - 1) \<le> n div 2" "n div 2 < 2 ^ nat (bits (n div 2))"
      by auto
    have b: "bits n = 1 + bits (n div 2)" using 1 by (simp add: bits.simps [of n])
    obtain k where k: "nat (bits (n div 2)) = Suc k" "nat (bits (n div 2) - 1) = k"
      using IH(1) by (metis One_nat_def Suc_nat_eq_nat_zadd1 add.commute diff_ge_0_iff_ge diff_add_cancel)
    have "nat (bits n) = Suc (Suc k)" "nat (bits n - 1) = Suc k" using b k IH(1) by auto
    moreover have "2 * 2 ^ k \<le> n" "n < 4 * 2 ^ k" using IH k by auto
    ultimately show ?thesis by simp
  qed
qed

lemma pow2_powi: "pow2 e = 2 powi e"
  by (simp add: pow2_def power_int_def field_simps)

lemma pow2_log2_floor: "0 < x \<Longrightarrow> pow2 (log2_floor x) \<le> x"
proof -
  assume x: "0 < x"
  obtain a b where q: "quotient_of x = (a, b)" by fastforce
  then have ab: "x = of_int a / of_int b" "0 < b" using quotient_of_div quotient_of_denom_pos by auto
  with x have a: "0 < a" by (simp add: zero_less_divide_iff)
  let ?e = "bits a - bits b"
  have A: "2 powi (bits a - 1) \<le> (of_int a :: rat)"
  proof -
    have "(of_int (2 ^ nat (bits a - 1)) :: rat) \<le> of_int a" using bits_bounds [OF a] by (simp only: of_int_le_iff)
    then show ?thesis using bits_bounds [OF a] by (simp add: power_int_def)
  qed
  have B: "(of_int b :: rat) < 2 powi (bits b)"
  proof -
    have "(of_int b :: rat) < of_int (2 ^ nat (bits b))" using bits_bounds [OF ab(2)] by (simp only: of_int_less_iff)
    then show ?thesis using bits_bounds [OF ab(2)] by (simp add: power_int_def)
  qed
  have "pow2 (?e - 1) = 2 powi (bits a - 1) / 2 powi (bits b)"
    unfolding pow2_powi by (simp add: power_int_diff)
  also have "\<dots> \<le> of_int a / of_int b"
    using A B ab(2) a by (intro frac_le) auto
  finally have "pow2 (?e - 1) \<le> x" using ab by simp
  then show ?thesis by (simp add: log2_floor_def q Let_def)
qed

text \<open>For a value of at least \<open>2 ^ (-1000)\<close> the relative error is at most \<open>2 ^ (-53)\<close>.\<close>

lemma round_pos_relative:
  assumes "pow2 (- 1000) \<le> x"
  shows "round_pos x \<le> x * (1 + 1 / 2 ^ 53)"
proof -
  have x: "0 < x" using assms pow2_pos [of "- 1000"] by linarith
  have "pow2 (ulp_exponent x) \<le> x / 2 ^ 52"
  proof (cases "log2_floor x - 52 \<le> - 1074")
    case True
    then have "ulp_exponent x = - 1074" by (simp add: ulp_exponent_def)
    moreover have "pow2 (- 1074) \<le> pow2 (- 1000) / 2 ^ 52" by (simp add: pow2_def)
    moreover have "pow2 (- 1000) / 2 ^ 52 \<le> x / 2 ^ 52" using assms by (simp add: divide_right_mono)
    ultimately show ?thesis by simp
  next
    case False
    then have "ulp_exponent x = log2_floor x - 52" by (simp add: ulp_exponent_def)
    then have "pow2 (ulp_exponent x) = pow2 (log2_floor x) / 2 ^ 52"
      by (simp add: pow2_powi power_int_diff power_int_numeral)
    with pow2_log2_floor [OF x] show ?thesis by (simp add: divide_right_mono)
  qed
  then have "pow2 (ulp_exponent x) / 2 \<le> x / 2 ^ 52 / 2" by (simp add: divide_right_mono)
  with round_pos_error [of x] have "round_pos x \<le> x + x / 2 ^ 52 / 2" unfolding abs_le_iff by linarith
  then show ?thesis by (simp add: algebra_simps)
qed

text \<open>
  A finite value that passes the comparison with \<open>float64(m) / 1000\<close> exceeds the exact quotient by
  at most a factor of \<open>1 + 2 ^ (-53)\<close>.
\<close>

lemma float_le_thousandths:
  assumes "0 < m" "m \<le> 10000" "float_le (Fin q) (float_div (Fin (of_int m)) (Fin 1000))"
  shows "q \<le> of_int m / 1000 * (1 + 1 / 2 ^ 53)"
proof -
  let ?x = "of_int m / 1000 :: rat"
  have x: "1 / 1000 \<le> ?x" "?x \<le> 10" using assms(1,2) by (simp_all add: divide_right_mono)
  have "pow2 (- 1000) \<le> (1 / 1000 :: rat)" by (simp add: pow2_def)
  with x(1) have r: "round_pos ?x \<le> ?x * (1 + 1 / 2 ^ 53)" by (intro round_pos_relative) linarith
  also have "\<dots> \<le> 10 * (1 + 1 / 2 ^ 53)" using x(2) by (intro mult_right_mono) auto
  also have "(10 * (1 + 1 / 2 ^ 53) :: rat) < pow2 1024" by (simp add: pow2_def)
  finally have "round_pos ?x < pow2 1024" .
  with x have "float_div (Fin (of_int m)) (Fin 1000) = Fin (round_pos ?x)"
    using assms(1) by (simp add: float_div_def round64_def Let_def)
  with assms(3) r show ?thesis by simp
qed

end
