(* ===== verification/RunpodTypes.thy ===== *)
theory RunpodTypes
  imports GoJson GoFloat
begin

text \<open>
  \<open>internal/client/runpod/types.go\<close>: the wire types of the RunPod REST API, what the client sends
  (encoded to JSON values with Go's \<open>omitempty\<close>) and what it receives (decoded with the presence of
  every security-relevant field retained). A zero struct is the value a decode starts from.
\<close>

section \<open>Nullable values\<close>

record nullable_string =
  ns_Present :: bool
  ns_Null :: bool
  ns_Value :: string

record nullable_decimal =
  nd_Present :: bool
  nd_Null :: bool
  nd_Value :: float64

definition StringValue :: "string \<Rightarrow> nullable_string" where
  "StringValue value = \<lparr>ns_Present = True, ns_Null = False, ns_Value = value\<rparr>"

definition NullString :: nullable_string where
  "NullString = \<lparr>ns_Present = True, ns_Null = True, ns_Value = []\<rparr>"

definition DecimalValue :: "float64 \<Rightarrow> nullable_decimal" where
  "DecimalValue value = \<lparr>nd_Present = True, nd_Null = False, nd_Value = value\<rparr>"

definition zero_nullable_string :: nullable_string where
  "zero_nullable_string = \<lparr>ns_Present = False, ns_Null = False, ns_Value = []\<rparr>"

definition zero_nullable_decimal :: nullable_decimal where
  "zero_nullable_decimal = \<lparr>nd_Present = False, nd_Null = False, nd_Value = Fin 0\<rparr>"

definition NullableString_UnmarshalJSON :: "nullable_string decoder" where
  "NullableString_UnmarshalJSON v s =
     (case v of
        JNull \<Rightarrow> Inr (s\<lparr>ns_Present := True, ns_Null := True, ns_Value := []\<rparr>)
      | JStr value \<Rightarrow> Inr (s\<lparr>ns_Present := True, ns_Null := False, ns_Value := value\<rparr>)
      | _ \<Rightarrow> Inl (Err ''expected a string or null''))"

text \<open>The text of a JSON value that is not a string is the literal itself.\<close>

definition NullableDecimal_UnmarshalJSON :: "nullable_decimal decoder" where
  "NullableDecimal_UnmarshalJSON v d =
     (if v = JNull then Inr (d\<lparr>nd_Present := True, nd_Null := True, nd_Value := Fin 0\<rparr>)
      else let valueText = (case v of JStr encoded \<Rightarrow> encoded | _ \<Rightarrow> json_text v)
           in case ParseFloat valueText of
                None \<Rightarrow> Inl (Err ''expected a finite decimal string, number, or null'')
              | Some value \<Rightarrow>
                  if IsNaN value \<or> IsInf value then Inl (Err ''expected a finite decimal string, number, or null'')
                  else Inr (d\<lparr>nd_Present := True, nd_Null := False, nd_Value := value\<rparr>))"

section \<open>Template\<close>

record template_input =
  ti_Name :: string
  ti_Category :: string
  ti_ImageName :: string
  ti_IsPublic :: bool
  ti_IsServerless :: bool
  ti_ContainerDiskInGB :: int32
  ti_DockerEntrypoint :: "string slice"
  ti_DockerStartCmd :: "string slice"
  ti_Ports :: "string slice"
  ti_Readme :: string
  ti_VolumeInGB :: int32
  ti_VolumeMountPath :: string
  ti_Env :: go_strmap
  ti_ContainerRegistryAuthID :: string

record template_update_input =
  tu_Name :: string
  tu_ImageName :: string
  tu_IsPublic :: bool
  tu_ContainerDiskInGB :: int32
  tu_DockerEntrypoint :: "string slice"
  tu_DockerStartCmd :: "string slice"
  tu_Ports :: "string slice"
  tu_Readme :: string
  tu_VolumeInGB :: int32
  tu_VolumeMountPath :: string
  tu_Env :: go_strmap
  tu_ContainerRegistryAuthID :: string

record rp_template =
  rt_ID :: string
  rt_Name :: string
  rt_Category :: string
  rt_ImageName :: string
  rt_IsPublic :: "bool ptr"
  rt_IsRunpod :: "bool ptr"
  rt_IsServerless :: "bool ptr"
  rt_ContainerDiskInGB :: "int32 ptr"
  rt_DockerEntrypoint :: "string slice"
  rt_DockerStartCmd :: "string slice"
  rt_Ports :: "string slice"
  rt_Readme :: nullable_string
  rt_VolumeInGB :: "int32 ptr"
  rt_VolumeMountPath :: nullable_string
  rt_Env :: go_strmap
  rt_ContainerRegistryAuthID :: nullable_string

definition zero_template :: rp_template where
  "zero_template = \<lparr>rt_ID = [], rt_Name = [], rt_Category = [], rt_ImageName = [], rt_IsPublic = None,
     rt_IsRunpod = None, rt_IsServerless = None, rt_ContainerDiskInGB = None, rt_DockerEntrypoint = None,
     rt_DockerStartCmd = None, rt_Ports = None, rt_Readme = zero_nullable_string, rt_VolumeInGB = None,
     rt_VolumeMountPath = zero_nullable_string, rt_Env = None, rt_ContainerRegistryAuthID = zero_nullable_string\<rparr>"

abbreviation dec_strings :: "string slice decoder" where
  "dec_strings \<equiv> dec_slice [] dec_string"

definition template_fields :: "(string \<times> rp_template decoder) list" where
  "template_fields =
    [(''ID'', with_field dec_string rt_ID rt_ID_update),
     (''NAME'', with_field dec_string rt_Name rt_Name_update),
     (''CATEGORY'', with_field dec_string rt_Category rt_Category_update),
     (''IMAGENAME'', with_field dec_string rt_ImageName rt_ImageName_update),
     (''ISPUBLIC'', with_field (dec_ptr False dec_bool) rt_IsPublic rt_IsPublic_update),
     (''ISRUNPOD'', with_field (dec_ptr False dec_bool) rt_IsRunpod rt_IsRunpod_update),
     (''ISSERVERLESS'', with_field (dec_ptr False dec_bool) rt_IsServerless rt_IsServerless_update),
     (''CONTAINERDISKINGB'', with_field (dec_ptr 0 dec_int32) rt_ContainerDiskInGB rt_ContainerDiskInGB_update),
     (''DOCKERENTRYPOINT'', with_field dec_strings rt_DockerEntrypoint rt_DockerEntrypoint_update),
     (''DOCKERSTARTCMD'', with_field dec_strings rt_DockerStartCmd rt_DockerStartCmd_update),
     (''PORTS'', with_field dec_strings rt_Ports rt_Ports_update),
     (''README'', with_field NullableString_UnmarshalJSON rt_Readme rt_Readme_update),
     (''VOLUMEINGB'', with_field (dec_ptr 0 dec_int32) rt_VolumeInGB rt_VolumeInGB_update),
     (''VOLUMEMOUNTPATH'', with_field NullableString_UnmarshalJSON rt_VolumeMountPath rt_VolumeMountPath_update),
     (''ENV'', with_field dec_strmap rt_Env rt_Env_update),
     (''CONTAINERREGISTRYAUTHID'', with_field NullableString_UnmarshalJSON rt_ContainerRegistryAuthID rt_ContainerRegistryAuthID_update)]"

definition decode_template :: "rp_template decoder" where
  "decode_template = decode_struct template_fields"

section \<open>Workers\<close>

record worker_machine =
  wm_GPUTypeID :: "string ptr"
  wm_DataCenterID :: "string ptr"
  wm_SecureCloud :: "bool ptr"
  wm_CostPerHr :: nullable_decimal
  wm_CurrentPricePerGPU :: nullable_decimal

record worker_gpu =
  wg_Count :: "int32 ptr"

record endpoint_worker =
  ew_ID :: nullable_string
  ew_EndpointID :: nullable_string
  ew_TemplateID :: nullable_string
  ew_AdjustedCostPerHr :: nullable_decimal
  ew_CostPerHr :: nullable_decimal
  ew_DesiredStatus :: nullable_string
  ew_Interruptible :: "bool ptr"
  ew_PublicIP :: nullable_string
  ew_PortMappings :: "json option"
  ew_SavingsPlans :: "json option"
  ew_SLSVersion :: "int32 ptr"
  ew_Image :: nullable_string
  ew_ContainerDiskInGB :: "int32 ptr"
  ew_ContainerRegistryAuthID :: nullable_string
  ew_DockerEntrypoint :: "string slice"
  ew_DockerStartCmd :: "string slice"
  ew_Ports :: "string slice"
  ew_Env :: go_strmap
  ew_VolumeInGB :: "int32 ptr"
  ew_VolumeMountPath :: nullable_string
  ew_VolumeEncrypted :: "bool ptr"
  ew_NetworkVolume :: "json option"
  ew_GPU :: "worker_gpu ptr"
  ew_Machine :: "worker_machine ptr"
  ew_Locked :: "bool ptr"

definition zero_machine :: worker_machine where
  "zero_machine = \<lparr>wm_GPUTypeID = None, wm_DataCenterID = None, wm_SecureCloud = None,
     wm_CostPerHr = zero_nullable_decimal, wm_CurrentPricePerGPU = zero_nullable_decimal\<rparr>"

definition zero_worker :: endpoint_worker where
  "zero_worker = \<lparr>ew_ID = zero_nullable_string, ew_EndpointID = zero_nullable_string, ew_TemplateID = zero_nullable_string,
     ew_AdjustedCostPerHr = zero_nullable_decimal, ew_CostPerHr = zero_nullable_decimal, ew_DesiredStatus = zero_nullable_string,
     ew_Interruptible = None, ew_PublicIP = zero_nullable_string, ew_PortMappings = None, ew_SavingsPlans = None,
     ew_SLSVersion = None, ew_Image = zero_nullable_string, ew_ContainerDiskInGB = None,
     ew_ContainerRegistryAuthID = zero_nullable_string, ew_DockerEntrypoint = None, ew_DockerStartCmd = None,
     ew_Ports = None, ew_Env = None, ew_VolumeInGB = None, ew_VolumeMountPath = zero_nullable_string,
     ew_VolumeEncrypted = None, ew_NetworkVolume = None, ew_GPU = None, ew_Machine = None, ew_Locked = None\<rparr>"

definition machine_fields :: "(string \<times> worker_machine decoder) list" where
  "machine_fields =
    [(''GPUTYPEID'', with_field (dec_ptr [] dec_string) wm_GPUTypeID wm_GPUTypeID_update),
     (''DATACENTERID'', with_field (dec_ptr [] dec_string) wm_DataCenterID wm_DataCenterID_update),
     (''SECURECLOUD'', with_field (dec_ptr False dec_bool) wm_SecureCloud wm_SecureCloud_update),
     (''COSTPERHR'', with_field NullableDecimal_UnmarshalJSON wm_CostPerHr wm_CostPerHr_update),
     (''CURRENTPRICEPERGPU'', with_field NullableDecimal_UnmarshalJSON wm_CurrentPricePerGPU wm_CurrentPricePerGPU_update)]"

definition gpu_fields :: "(string \<times> worker_gpu decoder) list" where
  "gpu_fields = [(''COUNT'', with_field (dec_ptr 0 dec_int32) wg_Count wg_Count_update)]"

definition worker_fields :: "(string \<times> endpoint_worker decoder) list" where
  "worker_fields =
    [(''ID'', with_field NullableString_UnmarshalJSON ew_ID ew_ID_update),
     (''ENDPOINTID'', with_field NullableString_UnmarshalJSON ew_EndpointID ew_EndpointID_update),
     (''TEMPLATEID'', with_field NullableString_UnmarshalJSON ew_TemplateID ew_TemplateID_update),
     (''ADJUSTEDCOSTPERHR'', with_field NullableDecimal_UnmarshalJSON ew_AdjustedCostPerHr ew_AdjustedCostPerHr_update),
     (''COSTPERHR'', with_field NullableDecimal_UnmarshalJSON ew_CostPerHr ew_CostPerHr_update),
     (''DESIREDSTATUS'', with_field NullableString_UnmarshalJSON ew_DesiredStatus ew_DesiredStatus_update),
     (''INTERRUPTIBLE'', with_field (dec_ptr False dec_bool) ew_Interruptible ew_Interruptible_update),
     (''PUBLICIP'', with_field NullableString_UnmarshalJSON ew_PublicIP ew_PublicIP_update),
     (''PORTMAPPINGS'', with_field dec_raw ew_PortMappings ew_PortMappings_update),
     (''SAVINGSPLANS'', with_field dec_raw ew_SavingsPlans ew_SavingsPlans_update),
     (''SLSVERSION'', with_field (dec_ptr 0 dec_int32) ew_SLSVersion ew_SLSVersion_update),
     (''IMAGE'', with_field NullableString_UnmarshalJSON ew_Image ew_Image_update),
     (''CONTAINERDISKINGB'', with_field (dec_ptr 0 dec_int32) ew_ContainerDiskInGB ew_ContainerDiskInGB_update),
     (''CONTAINERREGISTRYAUTHID'', with_field NullableString_UnmarshalJSON ew_ContainerRegistryAuthID ew_ContainerRegistryAuthID_update),
     (''DOCKERENTRYPOINT'', with_field dec_strings ew_DockerEntrypoint ew_DockerEntrypoint_update),
     (''DOCKERSTARTCMD'', with_field dec_strings ew_DockerStartCmd ew_DockerStartCmd_update),
     (''PORTS'', with_field dec_strings ew_Ports ew_Ports_update),
     (''ENV'', with_field dec_strmap ew_Env ew_Env_update),
     (''VOLUMEINGB'', with_field (dec_ptr 0 dec_int32) ew_VolumeInGB ew_VolumeInGB_update),
     (''VOLUMEMOUNTPATH'', with_field NullableString_UnmarshalJSON ew_VolumeMountPath ew_VolumeMountPath_update),
     (''VOLUMEENCRYPTED'', with_field (dec_ptr False dec_bool) ew_VolumeEncrypted ew_VolumeEncrypted_update),
     (''NETWORKVOLUME'', with_field dec_raw ew_NetworkVolume ew_NetworkVolume_update),
     (''GPU'', with_field (dec_ptr \<lparr>wg_Count = None\<rparr> (decode_struct gpu_fields)) ew_GPU ew_GPU_update),
     (''MACHINE'', with_field (dec_ptr zero_machine (decode_struct machine_fields)) ew_Machine ew_Machine_update),
     (''LOCKED'', with_field (dec_ptr False dec_bool) ew_Locked ew_Locked_update)]"

definition decode_worker :: "endpoint_worker decoder" where
  "decode_worker = decode_struct worker_fields"

section \<open>Endpoint\<close>

record endpoint_input =
  ei_Name :: string
  ei_TemplateID :: string
  ei_ComputeType :: string
  ei_GPUCount :: int32
  ei_GPUTypeIDs :: "string slice"
  ei_AllowedCUDAVersions :: "string slice"
  ei_DataCenterIDs :: "string slice"
  ei_WorkersMin :: int32
  ei_WorkersMax :: int32
  ei_IdleTimeout :: int32
  ei_ScalerType :: string
  ei_ScalerValue :: int32
  ei_ExecutionTimeoutMS :: int32
  ei_FlashBoot :: bool
  ei_NetworkVolumeID :: string
  ei_NetworkVolumeIDs :: "string slice"
  ei_MinCUDAVersion :: string

record endpoint_update_input =
  eu_Name :: string
  eu_TemplateID :: string
  eu_GPUCount :: int32
  eu_GPUTypeIDs :: "string slice"
  eu_AllowedCUDAVersions :: "string slice"
  eu_DataCenterIDs :: "string slice"
  eu_WorkersMin :: int32
  eu_WorkersMax :: int32
  eu_IdleTimeout :: int32
  eu_ScalerType :: string
  eu_ScalerValue :: int32
  eu_ExecutionTimeoutMS :: int32
  eu_FlashBoot :: bool
  eu_NetworkVolumeID :: string
  eu_NetworkVolumeIDs :: "string slice"
  eu_MinCUDAVersion :: string

record rp_endpoint =
  re_ID :: string
  re_Name :: string
  re_TemplateID :: string
  re_ComputeType :: string
  re_GPUCount :: int32
  re_GPUTypeIDs :: "string slice"
  re_AllowedCUDAVersions :: "string slice"
  re_DataCenterIDs :: "string slice"
  re_WorkersMin :: "int32 ptr"
  re_WorkersMax :: "int32 ptr"
  re_IdleTimeout :: int32
  re_ScalerType :: string
  re_ScalerValue :: int32
  re_ExecutionTimeoutMS :: int32
  re_FlashBoot :: "bool ptr"
  re_NetworkVolumeID :: nullable_string
  re_NetworkVolumeIDs :: "string slice"
  re_MinCUDAVersion :: nullable_string
  re_Env :: go_strmap
  re_InstanceIDs :: "string slice"
  re_Version :: "int32 ptr"
  re_Workers :: "endpoint_worker slice"
  re_Template :: "rp_template ptr"

definition zero_endpoint :: rp_endpoint where
  "zero_endpoint = \<lparr>re_ID = [], re_Name = [], re_TemplateID = [], re_ComputeType = [], re_GPUCount = 0,
     re_GPUTypeIDs = None, re_AllowedCUDAVersions = None, re_DataCenterIDs = None, re_WorkersMin = None,
     re_WorkersMax = None, re_IdleTimeout = 0, re_ScalerType = [], re_ScalerValue = 0, re_ExecutionTimeoutMS = 0,
     re_FlashBoot = None, re_NetworkVolumeID = zero_nullable_string, re_NetworkVolumeIDs = None,
     re_MinCUDAVersion = zero_nullable_string, re_Env = None, re_InstanceIDs = None, re_Version = None,
     re_Workers = None, re_Template = None\<rparr>"

definition endpoint_fields :: "(string \<times> rp_endpoint decoder) list" where
  "endpoint_fields =
    [(''ID'', with_field dec_string re_ID re_ID_update),
     (''NAME'', with_field dec_string re_Name re_Name_update),
     (''TEMPLATEID'', with_field dec_string re_TemplateID re_TemplateID_update),
     (''COMPUTETYPE'', with_field dec_string re_ComputeType re_ComputeType_update),
     (''GPUCOUNT'', with_field dec_int32 re_GPUCount re_GPUCount_update),
     (''GPUTYPEIDS'', with_field dec_strings re_GPUTypeIDs re_GPUTypeIDs_update),
     (''ALLOWEDCUDAVERSIONS'', with_field dec_strings re_AllowedCUDAVersions re_AllowedCUDAVersions_update),
     (''DATACENTERIDS'', with_field dec_strings re_DataCenterIDs re_DataCenterIDs_update),
     (''WORKERSMIN'', with_field (dec_ptr 0 dec_int32) re_WorkersMin re_WorkersMin_update),
     (''WORKERSMAX'', with_field (dec_ptr 0 dec_int32) re_WorkersMax re_WorkersMax_update),
     (''IDLETIMEOUT'', with_field dec_int32 re_IdleTimeout re_IdleTimeout_update),
     (''SCALERTYPE'', with_field dec_string re_ScalerType re_ScalerType_update),
     (''SCALERVALUE'', with_field dec_int32 re_ScalerValue re_ScalerValue_update),
     (''EXECUTIONTIMEOUTMS'', with_field dec_int32 re_ExecutionTimeoutMS re_ExecutionTimeoutMS_update),
     (''FLASHBOOT'', with_field (dec_ptr False dec_bool) re_FlashBoot re_FlashBoot_update),
     (''NETWORKVOLUMEID'', with_field NullableString_UnmarshalJSON re_NetworkVolumeID re_NetworkVolumeID_update),
     (''NETWORKVOLUMEIDS'', with_field dec_strings re_NetworkVolumeIDs re_NetworkVolumeIDs_update),
     (''MINCUDAVERSION'', with_field NullableString_UnmarshalJSON re_MinCUDAVersion re_MinCUDAVersion_update),
     (''ENV'', with_field dec_strmap re_Env re_Env_update),
     (''INSTANCEIDS'', with_field dec_strings re_InstanceIDs re_InstanceIDs_update),
     (''VERSION'', with_field (dec_ptr 0 dec_int32) re_Version re_Version_update),
     (''WORKERS'', with_field (dec_slice zero_worker decode_worker) re_Workers re_Workers_update),
     (''TEMPLATE'', with_field (dec_ptr zero_template decode_template) re_Template re_Template_update)]"

text \<open>
  \<open>decodeDataCenterIDs\<close>: an array of strings or one comma-separated string. \<open>None\<close> as the raw
  message is an absent member.
\<close>

definition dataCenterIDs_shape_error :: error where
  "dataCenterIDs_shape_error = Err ''dataCenterIds must be a string array or comma-separated string''"

fun trim_identifiers :: "string list \<Rightarrow> string list result" where
  "trim_identifiers [] = Inr []"
| "trim_identifiers (s # ss) =
     (let t = TrimSpace s
      in if t = [] \<or> ContainsAny t [CHR 0x0D, CHR 0x0A, CHR 0x09, CHR '','']
         then Inl (Err ''dataCenterIds contains an empty or malformed identifier'')
         else (case trim_identifiers ss of Inl e \<Rightarrow> Inl e | Inr ts \<Rightarrow> Inr (t # ts)))"

definition decodeDataCenterIDs :: "json option \<Rightarrow> string slice result" where
  "decodeDataCenterIDs raw =
     (case raw of
        None \<Rightarrow> Inr None
      | Some JNull \<Rightarrow> Inr None
      | Some (JArr vs) \<Rightarrow>
          (case decode_elems [] dec_string [] vs of
             Inl _ \<Rightarrow> Inl dataCenterIDs_shape_error
           | Inr values \<Rightarrow> map_sum id Some (trim_identifiers values))
      | Some (JStr value) \<Rightarrow>
          if TrimSpace value = [] then Inr None
          else map_sum id Some (trim_identifiers (Split value (CHR '','')))
      | Some _ \<Rightarrow> Inl dataCenterIDs_shape_error)"

text \<open>
  \<open>(*Endpoint).UnmarshalJSON\<close>: the members as a map (the last of equal keys wins) without
  dataCenterIds, printed again in key order and decoded as the plain struct, whose dataCenterIds
  field is then replaced. A value that is not an object and not null is an error; null is the
  empty map.
\<close>

fun last_members :: "(string \<times> json) list \<Rightarrow> (string \<times> json) list" where
  "last_members [] = []"
| "last_members ((k, v) # kvs) = (if k \<in> fst ` set kvs then last_members kvs else (k, v) # last_members kvs)"

definition Endpoint_UnmarshalJSON :: "rp_endpoint decoder" where
  "Endpoint_UnmarshalJSON data e =
     (case (case data of JObj kvs \<Rightarrow> Some kvs | JNull \<Rightarrow> Some [] | _ \<Rightarrow> None) of
        None \<Rightarrow> Inl type_error
      | Some kvs \<Rightarrow>
          let fields = sort_key fst (last_members kvs);
              rawDataCenterIDs = map_of fields ''dataCenterIds'';
              rest = filter (\<lambda>(k, _). k \<noteq> ''dataCenterIds'') fields
          in (case decode_members endpoint_fields rest zero_endpoint of
                Inl err \<Rightarrow> Inl err
              | Inr decoded \<Rightarrow>
                  (case decodeDataCenterIDs rawDataCenterIDs of
                     Inl err \<Rightarrow> Inl err
                   | Inr ids \<Rightarrow> Inr (decoded\<lparr>re_DataCenterIDs := ids\<rparr>))))"

section \<open>Encoding the inputs\<close>

definition enc_int32 :: "int32 \<Rightarrow> json" where
  "enc_int32 n = JNum (show_int (sint n))"

definition enc_strings :: "string slice \<Rightarrow> json" where
  "enc_strings s = (case s of None \<Rightarrow> JNull | Some xs \<Rightarrow> JArr (map JStr xs))"

definition enc_strmap :: "go_strmap \<Rightarrow> json" where
  "enc_strmap m = (case m of None \<Rightarrow> JNull | Some kvs \<Rightarrow> JObj (sort_key fst (map (\<lambda>(k, v). (k, JStr v)) kvs)))"

text \<open>A member with \<open>omitempty\<close>.\<close>

definition omitempty :: "bool \<Rightarrow> string \<Rightarrow> json \<Rightarrow> (string \<times> json) list" where
  "omitempty isEmpty k v = (if isEmpty then [] else [(k, v)])"

definition encode_template_input :: "template_input \<Rightarrow> json" where
  "encode_template_input i = JObj
    ([(''name'', JStr (ti_Name i)), (''category'', JStr (ti_Category i)), (''imageName'', JStr (ti_ImageName i)),
      (''isPublic'', JBool (ti_IsPublic i))] @
     omitempty (\<not> ti_IsServerless i) ''isServerless'' (JBool (ti_IsServerless i)) @
     [(''containerDiskInGb'', enc_int32 (ti_ContainerDiskInGB i)), (''dockerEntrypoint'', enc_strings (ti_DockerEntrypoint i)),
      (''dockerStartCmd'', enc_strings (ti_DockerStartCmd i)), (''ports'', enc_strings (ti_Ports i)),
      (''readme'', JStr (ti_Readme i)), (''volumeInGb'', enc_int32 (ti_VolumeInGB i)),
      (''volumeMountPath'', JStr (ti_VolumeMountPath i)), (''env'', enc_strmap (ti_Env i)),
      (''containerRegistryAuthId'', JStr (ti_ContainerRegistryAuthID i))])"

definition encode_template_update_input :: "template_update_input \<Rightarrow> json" where
  "encode_template_update_input i = JObj
     [(''name'', JStr (tu_Name i)), (''imageName'', JStr (tu_ImageName i)), (''isPublic'', JBool (tu_IsPublic i)),
      (''containerDiskInGb'', enc_int32 (tu_ContainerDiskInGB i)), (''dockerEntrypoint'', enc_strings (tu_DockerEntrypoint i)),
      (''dockerStartCmd'', enc_strings (tu_DockerStartCmd i)), (''ports'', enc_strings (tu_Ports i)),
      (''readme'', JStr (tu_Readme i)), (''volumeInGb'', enc_int32 (tu_VolumeInGB i)),
      (''volumeMountPath'', JStr (tu_VolumeMountPath i)), (''env'', enc_strmap (tu_Env i)),
      (''containerRegistryAuthId'', JStr (tu_ContainerRegistryAuthID i))]"

definition encode_endpoint_input :: "endpoint_input \<Rightarrow> json" where
  "encode_endpoint_input i = JObj
    (omitempty (ei_Name i = []) ''name'' (JStr (ei_Name i)) @
     [(''templateId'', JStr (ei_TemplateID i)), (''computeType'', JStr (ei_ComputeType i)),
      (''gpuCount'', enc_int32 (ei_GPUCount i)), (''gpuTypeIds'', enc_strings (ei_GPUTypeIDs i))] @
     omitempty (elems (ei_AllowedCUDAVersions i) = []) ''allowedCudaVersions'' (enc_strings (ei_AllowedCUDAVersions i)) @
     [(''dataCenterIds'', enc_strings (ei_DataCenterIDs i)), (''workersMin'', enc_int32 (ei_WorkersMin i)),
      (''workersMax'', enc_int32 (ei_WorkersMax i)), (''idleTimeout'', enc_int32 (ei_IdleTimeout i)),
      (''scalerType'', JStr (ei_ScalerType i)), (''scalerValue'', enc_int32 (ei_ScalerValue i)),
      (''executionTimeoutMs'', enc_int32 (ei_ExecutionTimeoutMS i)), (''flashboot'', JBool (ei_FlashBoot i))] @
     omitempty (ei_NetworkVolumeID i = []) ''networkVolumeId'' (JStr (ei_NetworkVolumeID i)) @
     omitempty (elems (ei_NetworkVolumeIDs i) = []) ''networkVolumeIds'' (enc_strings (ei_NetworkVolumeIDs i)) @
     omitempty (ei_MinCUDAVersion i = []) ''minCudaVersion'' (JStr (ei_MinCUDAVersion i)))"

definition encode_endpoint_update_input :: "endpoint_update_input \<Rightarrow> json" where
  "encode_endpoint_update_input i = JObj
    (omitempty (eu_Name i = []) ''name'' (JStr (eu_Name i)) @
     [(''templateId'', JStr (eu_TemplateID i)),
      (''gpuCount'', enc_int32 (eu_GPUCount i)), (''gpuTypeIds'', enc_strings (eu_GPUTypeIDs i))] @
     omitempty (elems (eu_AllowedCUDAVersions i) = []) ''allowedCudaVersions'' (enc_strings (eu_AllowedCUDAVersions i)) @
     [(''dataCenterIds'', enc_strings (eu_DataCenterIDs i)), (''workersMin'', enc_int32 (eu_WorkersMin i)),
      (''workersMax'', enc_int32 (eu_WorkersMax i)), (''idleTimeout'', enc_int32 (eu_IdleTimeout i)),
      (''scalerType'', JStr (eu_ScalerType i)), (''scalerValue'', enc_int32 (eu_ScalerValue i)),
      (''executionTimeoutMs'', enc_int32 (eu_ExecutionTimeoutMS i)), (''flashboot'', JBool (eu_FlashBoot i))] @
     omitempty (eu_NetworkVolumeID i = []) ''networkVolumeId'' (JStr (eu_NetworkVolumeID i)) @
     omitempty (elems (eu_NetworkVolumeIDs i) = []) ''networkVolumeIds'' (enc_strings (eu_NetworkVolumeIDs i)) @
     omitempty (eu_MinCUDAVersion i = []) ''minCudaVersion'' (JStr (eu_MinCUDAVersion i)))"

section \<open>Properties of the decoders\<close>

definition plain_identifier :: "string \<Rightarrow> bool" where
  "plain_identifier t \<longleftrightarrow> t \<noteq> [] \<and> set t \<inter> {CHR 0x0D, CHR 0x0A, CHR 0x09, CHR '',''} = {}"

lemma plain_identifier_guard:
  "(t = [] \<or> ContainsAny t [CHR 0x0D, CHR 0x0A, CHR 0x09, CHR '','']) \<longleftrightarrow> \<not> plain_identifier t"
  by (auto simp: plain_identifier_def ContainsAny_def list_ex_iff)

lemma trim_identifiers_wf: "trim_identifiers ss = Inr ts \<Longrightarrow> list_all plain_identifier ts"
proof (induction ss arbitrary: ts)
  case (Cons s ss)
  then have "plain_identifier (TrimSpace s)"
    by (simp add: Let_def plain_identifier_guard split: if_splits)
  with Cons show ?case
    by (auto simp: Let_def plain_identifier_guard split: sum.splits)
qed simp

lemma map_sum_Inr: "map_sum f g x = Inr y \<longleftrightarrow> (\<exists>z. x = Inr z \<and> y = g z)"
  by (cases x) auto

text \<open>
  Every data center identifier that the decoder hands to the controller is non-empty and free
  of commas and line or tab characters, whichever of the two wire encodings it came in; an absent,
  null or blank value is the nil slice.
\<close>

theorem decodeDataCenterIDs_wf:
  assumes "decodeDataCenterIDs raw = Inr ids"
  shows "list_all plain_identifier (elems ids)"
  using assms trim_identifiers_wf
  by (fastforce simp: decodeDataCenterIDs_def map_sum_Inr split: option.splits json.splits sum.splits if_splits)

lemma set_last_members: "fst ` set (last_members kvs) \<subseteq> fst ` set kvs"
  by (induction kvs rule: last_members.induct) auto

lemma Endpoint_UnmarshalJSON_frame:
  assumes frame: "list_all (\<lambda>(n, dec). n = N \<or> preserves get dec) endpoint_fields"
    and ids: "\<And>r x. get (r\<lparr>re_DataCenterIDs := x\<rparr>) = get r"
    and dec: "Endpoint_UnmarshalJSON (JObj kvs) e = Inr ep"
    and omitted: "N \<notin> foldName ` fst ` set kvs"
  shows "get ep = get zero_endpoint"
proof -
  let ?rest = "filter (\<lambda>(k, _). k \<noteq> ''dataCenterIds'') (sort_key fst (last_members kvs))"
  from dec obtain d x where d: "decode_members endpoint_fields ?rest zero_endpoint = Inr d" "ep = d\<lparr>re_DataCenterIDs := x\<rparr>"
    by (auto simp: Endpoint_UnmarshalJSON_def Let_def split: sum.splits)
  have "fst ` set ?rest \<subseteq> fst ` set kvs"
    using set_last_members [of kvs] by auto
  with omitted have "N \<notin> foldName ` fst ` set ?rest" by (meson image_mono in_mono)
  from decode_members_frame [OF frame d(1) this] d(2) ids show ?thesis by simp
qed

text \<open>
  The decoder never invents evidence. When no member of the response object names a field (up
  to the case folding of Go's decoder), the pointer, slice, map or nullable value of that field is
  the absent one, which the controllers' proofs refuse.
\<close>

theorem Endpoint_UnmarshalJSON_omitted:
  assumes "Endpoint_UnmarshalJSON (JObj kvs) e = Inr ep"
  shows "(''VERSION'' \<notin> foldName ` fst ` set kvs \<longrightarrow> re_Version ep = None)
    \<and> (''WORKERSMIN'' \<notin> foldName ` fst ` set kvs \<longrightarrow> re_WorkersMin ep = None)
    \<and> (''WORKERSMAX'' \<notin> foldName ` fst ` set kvs \<longrightarrow> re_WorkersMax ep = None)
    \<and> (''WORKERS'' \<notin> foldName ` fst ` set kvs \<longrightarrow> re_Workers ep = None)
    \<and> (''TEMPLATE'' \<notin> foldName ` fst ` set kvs \<longrightarrow> re_Template ep = None)
    \<and> (''ENV'' \<notin> foldName ` fst ` set kvs \<longrightarrow> re_Env ep = None)
    \<and> (''NETWORKVOLUMEID'' \<notin> foldName ` fst ` set kvs \<longrightarrow> \<not> ns_Present (re_NetworkVolumeID ep))
    \<and> (''NETWORKVOLUMEIDS'' \<notin> foldName ` fst ` set kvs \<longrightarrow> re_NetworkVolumeIDs ep = None)
    \<and> (''MINCUDAVERSION'' \<notin> foldName ` fst ` set kvs \<longrightarrow> \<not> ns_Present (re_MinCUDAVersion ep))
    \<and> (''ALLOWEDCUDAVERSIONS'' \<notin> foldName ` fst ` set kvs \<longrightarrow> re_AllowedCUDAVersions ep = None)"
proof (intro conjI impI)
  note frame = Endpoint_UnmarshalJSON_frame [OF _ _ assms]
  note tbl = endpoint_fields_def zero_endpoint_def zero_nullable_string_def
  show "re_Version ep = None" if "''VERSION'' \<notin> foldName ` fst ` set kvs"
    using frame [where get = re_Version, OF _ _ that] by (simp add: tbl preserves_with_field)
  show "re_WorkersMin ep = None" if "''WORKERSMIN'' \<notin> foldName ` fst ` set kvs"
    using frame [where get = re_WorkersMin, OF _ _ that] by (simp add: tbl preserves_with_field)
  show "re_WorkersMax ep = None" if "''WORKERSMAX'' \<notin> foldName ` fst ` set kvs"
    using frame [where get = re_WorkersMax, OF _ _ that] by (simp add: tbl preserves_with_field)
  show "re_Workers ep = None" if "''WORKERS'' \<notin> foldName ` fst ` set kvs"
    using frame [where get = re_Workers, OF _ _ that] by (simp add: tbl preserves_with_field)
  show "re_Template ep = None" if "''TEMPLATE'' \<notin> foldName ` fst ` set kvs"
    using frame [where get = re_Template, OF _ _ that] by (simp add: tbl preserves_with_field)
  show "re_Env ep = None" if "''ENV'' \<notin> foldName ` fst ` set kvs"
    using frame [where get = re_Env, OF _ _ that] by (simp add: tbl preserves_with_field)
  show "\<not> ns_Present (re_NetworkVolumeID ep)" if "''NETWORKVOLUMEID'' \<notin> foldName ` fst ` set kvs"
    using frame [where get = re_NetworkVolumeID, OF _ _ that] by (simp add: tbl preserves_with_field)
  show "re_NetworkVolumeIDs ep = None" if "''NETWORKVOLUMEIDS'' \<notin> foldName ` fst ` set kvs"
    using frame [where get = re_NetworkVolumeIDs, OF _ _ that] by (simp add: tbl preserves_with_field)
  show "\<not> ns_Present (re_MinCUDAVersion ep)" if "''MINCUDAVERSION'' \<notin> foldName ` fst ` set kvs"
    using frame [where get = re_MinCUDAVersion, OF _ _ that] by (simp add: tbl preserves_with_field)
  show "re_AllowedCUDAVersions ep = None" if "''ALLOWEDCUDAVERSIONS'' \<notin> foldName ` fst ` set kvs"
    using frame [where get = re_AllowedCUDAVersions, OF _ _ that] by (simp add: tbl preserves_with_field)
qed

theorem Endpoint_UnmarshalJSON_omitted_witness:
  "(\<exists>ep. Endpoint_UnmarshalJSON (JObj [(''id'', JStr ''ep1''), (''WorkersMin'', JNum ''1'')]) zero_endpoint = Inr ep
     \<and> re_ID ep = ''ep1'' \<and> re_WorkersMin ep = Some 1 \<and> re_Version ep = None \<and> re_Workers ep = None)"
proof -
  let ?kvs = "[(''id'', JStr ''ep1''), (''WorkersMin'', JNum ''1'')]"
  obtain ep where ep: "Endpoint_UnmarshalJSON (JObj ?kvs) zero_endpoint = Inr ep"
    "ep = zero_endpoint\<lparr>re_ID := ''ep1'', re_WorkersMin := Some 1\<rparr>"
    by (rule that [of "zero_endpoint\<lparr>re_ID := ''ep1'', re_WorkersMin := Some 1\<rparr>"]) (code_simp, rule refl)
  have "''VERSION'' \<notin> foldName ` fst ` set ?kvs" "''WORKERS'' \<notin> foldName ` fst ` set ?kvs"
    by code_simp+
  with Endpoint_UnmarshalJSON_omitted [OF ep(1)] ep show ?thesis
    by (intro exI [of _ ep]) simp
qed

end
