(* ===== verification/Identifier.thy ===== *)
theory Identifier
  imports GoStrings GoErrors
begin

text \<open>
  \<open>internal/identifier/runpod.go\<close>: the identifier boundary shared by the management client, the
  inference client, the controllers and the router. An error is returned as a pointer: \<open>None\<close> is
  nil.
\<close>

definition maxRunPodIDBytes :: nat where
  "maxRunPodIDBytes = 191"

text \<open>The regular expression \<open>^[A-Za-z0-9_-]+$\<close>.\<close>

definition runPodID :: "string \<Rightarrow> bool" where
  "runPodID s \<longleftrightarrow> s \<noteq> [] \<and> list_all id_char s"

definition ValidateRunPodID :: "string \<Rightarrow> error ptr" where
  "ValidateRunPodID value =
     (if length value = 0 \<or> length value > maxRunPodIDBytes \<or> \<not> runPodID value
      then Some (Err ''RunPod resource ID is empty or malformed'') else None)"

text \<open>The identifiers the boundary accepts, as one predicate the component proofs use.\<close>

definition valid_id :: "string \<Rightarrow> bool" where
  "valid_id s \<longleftrightarrow> s \<noteq> [] \<and> length s \<le> 191 \<and> list_all id_char s"

lemma ValidateRunPodID_None [simp]: "ValidateRunPodID s = None \<longleftrightarrow> valid_id s"
  by (auto simp: ValidateRunPodID_def valid_id_def runPodID_def maxRunPodIDBytes_def)

lemma ValidateRunPodID_Some [simp]:
  "ValidateRunPodID s = Some e \<longleftrightarrow> \<not> valid_id s \<and> e = Err ''RunPod resource ID is empty or malformed''"
  by (auto simp: ValidateRunPodID_def valid_id_def runPodID_def maxRunPodIDBytes_def)

lemma ValidateRunPodID_valid [simp]: "valid_id s \<Longrightarrow> ValidateRunPodID s = None"
  by simp

lemma ValidateRunPodID_invalid [simp]:
  "\<not> valid_id s \<Longrightarrow> ValidateRunPodID s = Some (Err ''RunPod resource ID is empty or malformed'')"
  by simp

lemma not_valid_id_Nil [simp]: "\<not> valid_id []"
  by (simp add: valid_id_def)

lemma valid_id_path_plain: "valid_id s \<Longrightarrow> list_all path_plain s"
  by (auto simp: valid_id_def list_all_iff intro: id_char_path_plain)

lemma valid_id_PathEscape: "valid_id s \<Longrightarrow> PathEscape s = s"
  by (intro PathEscape_plain valid_id_path_plain)

text \<open>
  The identifier boundary accepts exactly the byte strings of length 1 to 191 over
  \<open>[A-Za-z0-9_-]\<close>, and an accepted identifier is a path segment that \<open>url.PathEscape\<close> leaves as it
  is and that holds no slash, dot, percent sign, question mark or hash: it cannot alter the URL
  it is put in.
\<close>

theorem ValidateRunPodID_boundary:
  "(ValidateRunPodID value = None) =
     (1 \<le> length value \<and> length value \<le> 191 \<and> list_all (\<lambda>c. is_alnum c \<or> c = CHR ''_'' \<or> c = CHR ''-'') value)
   \<and> (ValidateRunPodID value = None \<longrightarrow>
      PathEscape value = value \<and> set value \<inter> set ''/.%?#'' = {})"
proof -
  have "valid_id value \<Longrightarrow> set value \<inter> set ''/.%?#'' = {}"
    by (fastforce simp: valid_id_def list_all_iff id_char_def is_alnum_def is_digit_def is_upper_def
        is_lower_def)
  then show ?thesis
    by (auto simp: valid_id_PathEscape)
       (auto simp: valid_id_def id_char_def [abs_def] Suc_le_eq)
qed

theorem ValidateRunPodID_boundary_witness:
  "ValidateRunPodID ''ep-abc_123'' = None \<and> PathEscape ''ep-abc_123'' = ''ep-abc_123''
   \<and> ValidateRunPodID ''../templates'' \<noteq> None"
proof -
  have "ValidateRunPodID ''ep-abc_123'' = None"
    by (simp add: valid_id_def id_char_def is_alnum_def is_digit_def is_upper_def is_lower_def)
  then show ?thesis
    using ValidateRunPodID_boundary [of "''ep-abc_123''"]
    by (simp add: valid_id_def id_char_def is_alnum_def is_digit_def is_upper_def is_lower_def)
qed

end
