(* ===== verification/GoTime.thy ===== *)
theory GoTime
  imports Prelude
begin

text \<open>
  The part of Go's package \<open>time\<close> the source uses. An instant (\<open>time.Time\<close>, \<open>metav1.Time\<close>) is
  its distance in nanoseconds from the zero time (January 1, year 1 UTC), so that \<open>IsZero\<close> is
  equality with 0; a \<open>time.Duration\<close> is a signed 64-bit count of nanoseconds whose arithmetic
  wraps. \<open>Sub\<close> saturates at the bounds of that range, as the package documents.
\<close>

type_synonym gotime = int
type_synonym duration = int64

definition IsZero :: "gotime \<Rightarrow> bool" where
  "IsZero t \<longleftrightarrow> t = 0"

text \<open>\<open>IsZero\<close> on a \<open>*metav1.Time\<close> is true for the nil pointer too.\<close>

definition ptrIsZero :: "gotime ptr \<Rightarrow> bool" where
  "ptrIsZero p \<longleftrightarrow> (case p of None \<Rightarrow> True | Some t \<Rightarrow> IsZero t)"

definition Before :: "gotime \<Rightarrow> gotime \<Rightarrow> bool" where
  "Before t u \<longleftrightarrow> t < u"

definition After :: "gotime \<Rightarrow> gotime \<Rightarrow> bool" where
  "After t u \<longleftrightarrow> u < t"

definition AddDuration :: "gotime \<Rightarrow> duration \<Rightarrow> gotime" where
  "AddDuration t d = t + sint d"

definition SubTime :: "gotime \<Rightarrow> gotime \<Rightarrow> duration" where
  "SubTime t u = word_of_int (max (- (2 ^ 63)) (min (2 ^ 63 - 1) (t - u)))"

definition Second :: duration where
  "Second = 1000000000"

definition Millisecond :: duration where
  "Millisecond = 1000000"

definition Minute :: duration where
  "Minute = 60 * Second"

definition Hour :: duration where
  "Hour = 60 * Minute"

text \<open>\<open>time.Duration(n) * time.Second\<close> for an \<open>int32\<close> field \<open>n\<close>.\<close>

definition secondsDuration :: "int32 \<Rightarrow> duration" where
  "secondsDuration n = scast n * Second"

text \<open>\<open>minDuration\<close>-style comparisons of durations are signed.\<close>

definition dur_less :: "duration \<Rightarrow> duration \<Rightarrow> bool" where
  "dur_less a b \<longleftrightarrow> sint a < sint b"

definition dur_le :: "duration \<Rightarrow> duration \<Rightarrow> bool" where
  "dur_le a b \<longleftrightarrow> sint a \<le> sint b"

lemmas time_defs = IsZero_def Before_def After_def AddDuration_def dur_less_def dur_le_def

lemma sint_duration_constants [simp]:
  "sint Second = 1000000000" "sint Millisecond = 1000000"
  "sint Minute = 60000000000" "sint Hour = 3600000000000"
  by (simp_all add: Second_def Millisecond_def Minute_def Hour_def)

lemma ptrIsZero_simps [simp]: "ptrIsZero None" "ptrIsZero (Some t) \<longleftrightarrow> IsZero t"
  by (simp_all add: ptrIsZero_def)

text \<open>The seconds of an \<open>int32\<close> field always fit: the product does not wrap.\<close>

lemma sint_secondsDuration [simp]: "sint (secondsDuration n) = sint n * 1000000000"
  using sint_int32_scale [of 1000000000 n] by (simp add: secondsDuration_def Second_def)

lemma sint_SubTime:
  "sint (SubTime t u) = max (- (2 ^ 63)) (min (2 ^ 63 - 1) (t - u))"
  unfolding SubTime_def by (rule sint_word_of_int_64) auto

lemma SubTime_le_iff:
  fixes d :: duration
  assumes "sint d < 2 ^ 63 - 1"
  shows "sint (SubTime t u) \<le> sint d \<longleftrightarrow> t - u \<le> sint d"
  using assms sint_ge [of d] by (auto simp: sint_SubTime)

lemma le_SubTime_iff:
  fixes d :: duration
  assumes "- (2 ^ 63) < sint d"
  shows "sint d \<le> sint (SubTime t u) \<longleftrightarrow> sint d \<le> t - u"
  using assms sint_lt [of d] by (auto simp: sint_SubTime)

lemma SubTime_pos_iff: "0 < sint (SubTime t u) \<longleftrightarrow> u < t"
  by (auto simp: sint_SubTime)

end
