(* ===== verification/ApiTypes.thy ===== *)
theory ApiTypes
  imports GoTime GoErrors
begin

text \<open>
  The Kubernetes API types of the repository: \<open>apis/serverless/v1alpha1\<close> (Template and Endpoint),
  \<open>apis/verification/v1alpha1\<close> (EndpointCheck) and \<open>apis/v1alpha1\<close> (ProviderConfig). The fields
  that Go inherits from \<open>metav1.ObjectMeta\<close> and from Crossplane's managed resource types are the
  records \<open>objmeta\<close> and \<open>managed\<close>, restricted to what the source reads or writes. A
  \<open>metav1.Time\<close> is an instant; annotation maps are plain maps, because the source never tells a nil
  map from an empty one except to allocate it before a write.
\<close>

section \<open>Object metadata and conditions\<close>

record objmeta =
  om_Namespace :: string
  om_Name :: string
  om_UID :: string
  om_ResourceVersion :: string
  om_Generation :: int64
  om_CreationTimestamp :: gotime
  om_DeletionTimestamp :: "gotime ptr"
  om_Annotations :: strmap
  om_Finalizers :: "string list"

text \<open>
  The condition values the source builds with the constructors of Crossplane's core API, under
  the names of those constructors, and the condition types and statuses it reads back.
\<close>

datatype condition =
    Available
  | Creating
  | Deleting
  | Unavailable string
  | ReconcileSuccess
  | ReconcileError error

datatype condition_type = TypeReady | TypeSynced

datatype condition_status = ConditionTrue | ConditionFalse | ConditionUnknown

record reference =
  ref_Name :: string

record provider_config_reference =
  pcr_Kind :: string
  pcr_Name :: string

text \<open>What a Template and an Endpoint share as Crossplane managed resources.\<close>

record managed =
  mg_Meta :: objmeta
  mg_ProviderConfigReference :: "provider_config_reference ptr"
  mg_Conditions :: "condition list"
  mg_ObservedGeneration :: int64

section \<open>Template\<close>

record template_parameters =
  tp_MaxLifetimeSeconds :: int32
  tp_Name :: string
  tp_ImageName :: string
  tp_ContainerDiskInGB :: "int32 ptr"
  tp_DockerEntrypoint :: "string slice"
  tp_DockerStartCmd :: "string slice"
  tp_Ports :: "string slice"
  tp_VolumeInGB :: int32

record template_observation =
  to_ID :: string
  to_Name :: string
  to_ImageName :: string
  to_IsServerless :: bool
  to_LastObservedAt :: gotime

record template_cr = managed +
  tc_ForProvider :: template_parameters
  tc_AtProvider :: template_observation

section \<open>Endpoint\<close>

record endpoint_parameters =
  ep_MaxLifetimeSeconds :: int32
  ep_DeleteReferencedTemplateOnExpiry :: "bool ptr"
  ep_Name :: string
  ep_TemplateIDRef :: "reference ptr"
  ep_GPUTypeIDs :: "string slice"
  ep_AllowedCUDAVersions :: "string slice"
  ep_DataCenterIDs :: "string slice"
  ep_WorkersMin :: int32
  ep_WorkersMax :: int32
  ep_MaxWorkerCostMilliUSDPerHour :: int32
  ep_IdleTimeout :: int32
  ep_ScalerType :: string
  ep_ScalerValue :: int32
  ep_ExecutionTimeoutMS :: int32

record endpoint_observation =
  eo_ID :: string
  eo_TemplateID :: string
  eo_TemplateResourceUID :: string
  eo_TemplateResourceGeneration :: int64
  eo_TemplateImageDigest :: string
  eo_Version :: "int32 ptr"
  eo_FlashBootDisabled :: bool
  eo_FlashBootEvidenceVersion :: "int32 ptr"
  eo_FlashBootLastEnforcedAt :: gotime
  eo_WorkerSecurityValidated :: bool
  eo_WorkerSecurityProofVersion :: "int32 ptr"
  eo_WorkerSecurityObservedAt :: gotime
  eo_WorkersMin :: int32
  eo_WorkersMax :: int32
  eo_InferenceURL :: string
  eo_LastObservedAt :: gotime

record endpoint_cr = managed +
  ec_ForProvider :: endpoint_parameters
  ec_AtProvider :: endpoint_observation

definition FlashBootEvidenceMaxAge :: duration where
  "FlashBootEvidenceMaxAge = 5 * Minute"

definition FlashBootEvidenceCurrent :: "endpoint_observation \<Rightarrow> gotime \<Rightarrow> bool" where
  "FlashBootEvidenceCurrent ob now \<longleftrightarrow>
     (if \<not> eo_FlashBootDisabled ob \<or> eo_FlashBootEvidenceVersion ob = None \<or> eo_Version ob = None \<or>
         the (eo_FlashBootEvidenceVersion ob) \<noteq> the (eo_Version ob) \<or> IsZero (eo_FlashBootLastEnforcedAt ob)
      then False
      else let age = SubTime now (eo_FlashBootLastEnforcedAt ob)
           in dur_le (- 30 * Second) age \<and> dur_le age FlashBootEvidenceMaxAge)"

definition WorkerSecurityEvidenceCurrent :: "endpoint_observation \<Rightarrow> bool" where
  "WorkerSecurityEvidenceCurrent ob \<longleftrightarrow>
     eo_WorkerSecurityValidated ob \<and> eo_Version ob \<noteq> None \<and> eo_WorkerSecurityProofVersion ob \<noteq> None \<and>
     the (eo_Version ob) = the (eo_WorkerSecurityProofVersion ob) \<and> \<not> IsZero (eo_WorkerSecurityObservedAt ob)"

section \<open>EndpointCheck\<close>

record secret_key_selector =
  sks_Name :: string
  sks_Key :: string

record check_parameters =
  cp_MaxLifetimeSeconds :: int32
  cp_EndpointIDRef :: "reference ptr"
  cp_ExpectedModelID :: string
  cp_InferenceCredentialsSecretRef :: secret_key_selector
  cp_VerificationIntervalSeconds :: int32
  cp_TimeoutSeconds :: int32

record check_observation =
  co_EndpointID :: string
  co_EndpointResourceUID :: string
  co_EndpointResourceGeneration :: int64
  co_EndpointVersion :: "int32 ptr"
  co_TemplateResourceUID :: string
  co_TemplateResourceGeneration :: int64
  co_TemplateImageDigest :: string
  co_Healthy :: bool
  co_ModelVerified :: bool
  co_ToolCallVerified :: bool
  co_InferenceURL :: string
  co_CredentialsSecretResourceVersion :: string
  co_LastCheckedAt :: gotime
  co_LastVerificationAttemptAt :: gotime
  co_LastVerifiedAt :: gotime

record endpoint_check =
  ck_Meta :: objmeta
  ck_ForProvider :: check_parameters
  ck_Conditions :: "condition list"
  ck_ObservedGeneration :: int64
  ck_AtProvider :: check_observation

section \<open>ProviderConfig\<close>

record secret_ref =
  sr_Namespace :: string
  sr_Name :: string
  sr_Key :: string

record provider_credentials =
  pc_Source :: string
  pc_SecretRef :: "secret_ref ptr"

section \<open>Evidence predicates\<close>

lemma sint_evidence_constants [simp]:
  "sint FlashBootEvidenceMaxAge = 300000000000" "sint (- (30 * Second)) = - 30000000000"
  by (simp_all add: FlashBootEvidenceMaxAge_def Minute_def Second_def)

text \<open>
  FlashBoot evidence is current exactly when a successful write of flashboot=false is recorded
  for the rollout version now observed and the record is between 30 seconds in the future and five
  minutes old, both bounds included. The saturating subtraction of Go never changes the answer.
\<close>

theorem FlashBootEvidenceCurrent_iff:
  "FlashBootEvidenceCurrent ob now \<longleftrightarrow>
     eo_FlashBootDisabled ob \<and> (\<exists>v. eo_FlashBootEvidenceVersion ob = Some v \<and> eo_Version ob = Some v)
     \<and> eo_FlashBootLastEnforcedAt ob \<noteq> 0
     \<and> now - 300 * 10 ^ 9 \<le> eo_FlashBootLastEnforcedAt ob
     \<and> eo_FlashBootLastEnforcedAt ob \<le> now + 30 * 10 ^ 9"
proof -
  have a: "dur_le (SubTime now t) FlashBootEvidenceMaxAge \<longleftrightarrow> now - t \<le> 300000000000" for t
    using SubTime_le_iff [of FlashBootEvidenceMaxAge now t] by (simp add: dur_le_def)
  have b: "dur_le (- 30 * Second) (SubTime now t) \<longleftrightarrow> - 30000000000 \<le> now - t" for t
    using le_SubTime_iff [of "- 30 * Second" now t] by (simp add: dur_le_def)
  show ?thesis
    unfolding FlashBootEvidenceCurrent_def Let_def a b IsZero_def by auto
qed

end
