(* ===== verification/Credentials.thy ===== *)
theory Credentials
  imports GoTime GoErrors
begin

text \<open>
  \<open>internal/credentials/purpose.go\<close>: the boundary between management and inference credentials,
  and the part of the Kubernetes \<open>Secret\<close> that the source reads. A nil label or data map reads
  like an empty one, so both are plain maps.
\<close>

record secret =
  sec_ResourceVersion :: string
  sec_Labels :: strmap
  sec_Data :: strmap

definition PurposeLabel :: string where
  "PurposeLabel = ''runpod.crossplane.io/credential-purpose''"

definition PurposeManagement :: string where
  "PurposeManagement = ''management''"

definition PurposeInference :: string where
  "PurposeInference = ''inference''"

definition RequirePurpose :: "secret ptr \<Rightarrow> string \<Rightarrow> error ptr" where
  "RequirePurpose s expected =
     (case s of
        None \<Rightarrow> Some (Err (''Secret must have label \"'' @ PurposeLabel @ ''\"=\"'' @ expected @ ''\"''))
      | Some sec \<Rightarrow>
          if map_get (sec_Labels sec) PurposeLabel \<noteq> expected
          then Some (Err (''Secret must have label \"'' @ PurposeLabel @ ''\"=\"'' @ expected @ ''\"''))
          else None)"

lemma RequirePurpose_None [simp]:
  "RequirePurpose s expected = None \<longleftrightarrow>
     (\<exists>sec. s = Some sec \<and> map_get (sec_Labels sec) PurposeLabel = expected)"
  by (auto simp: RequirePurpose_def split: option.splits)

text \<open>
  The two credential purposes are disjoint. A Secret that one process accepts is refused by
  the other, a nil Secret and a Secret without the label are refused by both.
\<close>

theorem RequirePurpose_disjoint:
  "\<not> (RequirePurpose s PurposeManagement = None \<and> RequirePurpose s PurposeInference = None)
   \<and> RequirePurpose None p \<noteq> None
   \<and> (sec_Labels sec PurposeLabel = None \<longrightarrow>
        RequirePurpose (Some sec) PurposeManagement \<noteq> None \<and> RequirePurpose (Some sec) PurposeInference \<noteq> None)"
  by (auto simp: PurposeManagement_def PurposeInference_def map_get_def)

theorem RequirePurpose_disjoint_witness:
  "RequirePurpose (Some \<lparr>sec_ResourceVersion = ''7'', sec_Labels = [PurposeLabel \<mapsto> ''management''], sec_Data = Map.empty\<rparr>)
     PurposeManagement = None
   \<and> RequirePurpose (Some \<lparr>sec_ResourceVersion = ''7'', sec_Labels = Map.empty, sec_Data = Map.empty\<rparr>) PurposeManagement \<noteq> None"
  using RequirePurpose_disjoint
    [of None "[]" "\<lparr>sec_ResourceVersion = ''7'', sec_Labels = Map.empty, sec_Data = Map.empty\<rparr>"]
  by (simp add: PurposeManagement_def)

end
