(* ===== verification/World.thy ===== *)
theory World
  imports ApiTypes GoStrings Credentials
begin

text \<open>
  The environment of the controllers, and the trace of what they do to it. What is not code of
  the repository is a parameter: the HTTP peer, the Kubernetes API server, the clock and the
  timer answer through the record \<open>env\<close>, each answer an arbitrary function of the whole trace so
  far, so a theorem that quantifies over \<open>env\<close> holds against every behaviour of these peers. The
  pure helpers of Crossplane's runtime are the record \<open>xp\<close>; what the proofs use of their documented
  behaviour is the predicate \<open>xp_laws\<close>.
\<close>

section \<open>HTTP\<close>

record http_request =
  rq_Method :: string
  rq_URL :: string
  rq_Header :: "(string \<times> string) list"
  rq_Body :: string

text \<open>
  A response: its status, its headers by canonical name, the bytes of the body that the peer
  delivers, and the error (if any) that ends the body or its close.
\<close>

record http_response =
  rs_StatusCode :: int
  rs_Header :: strmap
  rs_Body :: string
  rs_ReadErr :: "string option"
  rs_CloseErr :: "string option"

datatype http_result = DoErr string | Resp http_response

text \<open>\<open>io.ReadAll(io.LimitReader(body, n))\<close>: an error after the limit is never seen.\<close>

definition ReadAll_limited :: "int \<Rightarrow> http_response \<Rightarrow> string \<times> string option" where
  "ReadAll_limited n r =
     (if n \<le> int (length (rs_Body r)) then (take (nat n) (rs_Body r), None) else (rs_Body r, rs_ReadErr r))"

text \<open>\<open>http.Header.Get\<close> looks the canonical form of the name up.\<close>

fun canonical_key :: "bool \<Rightarrow> string \<Rightarrow> string" where
  "canonical_key upper [] = []"
| "canonical_key upper (c # cs) =
     (if upper then (if is_lower c then char_of (of_char c - 32 :: nat) else c)
      else (if is_upper c then char_of (of_char c + 32 :: nat) else c)) # canonical_key (c = CHR ''-'') cs"

definition Header_Get :: "strmap \<Rightarrow> string \<Rightarrow> string" where
  "Header_Get h key = map_get h (canonical_key True key)"

definition MethodGet :: string where "MethodGet = ''GET''"

definition MethodPost :: string where "MethodPost = ''POST''"

definition MethodPatch :: string where "MethodPatch = ''PATCH''"

definition MethodDelete :: string where "MethodDelete = ''DELETE''"

lemmas http_methods = MethodGet_def MethodPost_def MethodPatch_def MethodDelete_def

section \<open>Traces\<close>

datatype kube_kind = KTemplate | KEndpoint | KEndpointCheck | KSecret | KProviderConfig | KClusterProviderConfig | KProviderConfigUsage

text \<open>
  The last event is the model-router's own: \<open>replace\<close> has returned, and the route it leaves active is
  that of the named EndpointCheck, or there is none.
\<close>

datatype event =
    EvHTTP http_request
  | EvSleep duration
  | EvClock
  | EvTrack
  | EvGet kube_kind string string
  | EvList kube_kind string
  | EvUpdateTemplate template_cr
  | EvUpdateEndpoint endpoint_cr
  | EvUpdateCheck endpoint_check
  | EvStatusUpdateCheck endpoint_check
  | EvPatchEndpoint endpoint_cr endpoint_cr
  | EvDelete kube_kind string string
  | EvRoute "string option"

type_synonym trace = "event list"

text \<open>An error of the Kubernetes client: whether it is a not-found error, and its text.\<close>

type_synonym kube_error = "bool \<times> string"

definition kube_err :: "kube_error \<Rightarrow> error" where
  "kube_err e = KubeErr (fst e) (snd e)"

record env =
  env_NewRequest :: "string \<Rightarrow> string \<Rightarrow> string option"
  env_Do :: "trace \<Rightarrow> http_request \<Rightarrow> http_result"
  env_Sleep :: "trace \<Rightarrow> duration \<Rightarrow> string option"
  env_Now :: "trace \<Rightarrow> gotime"
  env_Track :: "trace \<Rightarrow> string option"
  env_GetTemplate :: "trace \<Rightarrow> string \<Rightarrow> string \<Rightarrow> kube_error + template_cr"
  env_GetEndpoint :: "trace \<Rightarrow> string \<Rightarrow> string \<Rightarrow> kube_error + endpoint_cr"
  env_GetCheck :: "trace \<Rightarrow> string \<Rightarrow> string \<Rightarrow> kube_error + endpoint_check"
  env_GetSecret :: "trace \<Rightarrow> string \<Rightarrow> string \<Rightarrow> kube_error + secret"
  env_GetProviderConfig :: "trace \<Rightarrow> string \<Rightarrow> string \<Rightarrow> kube_error + provider_credentials"
  env_GetClusterProviderConfig :: "trace \<Rightarrow> string \<Rightarrow> kube_error + provider_credentials"
  env_ListEndpoints :: "trace \<Rightarrow> string \<Rightarrow> kube_error + endpoint_cr list"
  env_ListChecks :: "trace \<Rightarrow> string \<Rightarrow> kube_error + endpoint_check list"
  env_Write :: "trace \<Rightarrow> event \<Rightarrow> kube_error option"

text \<open>
  Each call appends its event to the trace. The answers of the environment are functions of the
  trace before the call.
\<close>

definition time_Now :: "env \<Rightarrow> trace \<Rightarrow> gotime \<times> trace" where
  "time_Now E h = (env_Now E h, h @ [EvClock])"

definition get_Template :: "env \<Rightarrow> string \<Rightarrow> string \<Rightarrow> trace \<Rightarrow> template_cr result \<times> trace" where
  "get_Template E ns n h = (map_sum kube_err id (env_GetTemplate E h ns n), h @ [EvGet KTemplate ns n])"

definition get_Endpoint :: "env \<Rightarrow> string \<Rightarrow> string \<Rightarrow> trace \<Rightarrow> endpoint_cr result \<times> trace" where
  "get_Endpoint E ns n h = (map_sum kube_err id (env_GetEndpoint E h ns n), h @ [EvGet KEndpoint ns n])"

definition get_EndpointCheck :: "env \<Rightarrow> string \<Rightarrow> string \<Rightarrow> trace \<Rightarrow> endpoint_check result \<times> trace" where
  "get_EndpointCheck E ns n h = (map_sum kube_err id (env_GetCheck E h ns n), h @ [EvGet KEndpointCheck ns n])"

definition get_Secret :: "env \<Rightarrow> string \<Rightarrow> string \<Rightarrow> trace \<Rightarrow> secret result \<times> trace" where
  "get_Secret E ns n h = (map_sum kube_err id (env_GetSecret E h ns n), h @ [EvGet KSecret ns n])"

definition list_Endpoints :: "env \<Rightarrow> string \<Rightarrow> trace \<Rightarrow> endpoint_cr list result \<times> trace" where
  "list_Endpoints E ns h = (map_sum kube_err id (env_ListEndpoints E h ns), h @ [EvList KEndpoint ns])"

definition list_EndpointChecks :: "env \<Rightarrow> string \<Rightarrow> trace \<Rightarrow> endpoint_check list result \<times> trace" where
  "list_EndpointChecks E ns h = (map_sum kube_err id (env_ListChecks E h ns), h @ [EvList KEndpointCheck ns])"

definition kube_Write :: "env \<Rightarrow> event \<Rightarrow> trace \<Rightarrow> error ptr \<times> trace" where
  "kube_Write E ev h = (map_option kube_err (env_Write E h ev), h @ [ev])"

lemmas world_defs = time_Now_def get_Template_def get_Endpoint_def get_EndpointCheck_def get_Secret_def
  list_Endpoints_def list_EndpointChecks_def kube_Write_def

text \<open>The HTTP requests of a trace that can change the external state, in order, and its POSTs.\<close>

fun mutation_of :: "event \<Rightarrow> http_request option" where
  "mutation_of (EvHTTP r) = (if rq_Method r = MethodGet then None else Some r)"
| "mutation_of _ = None"

definition mutations :: "trace \<Rightarrow> http_request list" where
  "mutations h = List.map_filter mutation_of h"

definition mutation_methods :: "trace \<Rightarrow> string list" where
  "mutation_methods h = map rq_Method (mutations h)"

text \<open>Every HTTP request of a trace, and the events that are none of the Kubernetes API's.\<close>

fun http_of :: "event \<Rightarrow> http_request option" where
  "http_of (EvHTTP r) = Some r"
| "http_of _ = None"

definition http_requests :: "trace \<Rightarrow> http_request list" where
  "http_requests h = List.map_filter http_of h"

fun client_event :: "event \<Rightarrow> bool" where
  "client_event (EvHTTP _) = True"
| "client_event (EvSleep _) = True"
| "client_event _ = False"

lemma mutations_simps [simp]:
  "mutations [] = []"
  "mutations (h @ h') = mutations h @ mutations h'"
  "mutations (e # h) = (case mutation_of e of None \<Rightarrow> mutations h | Some r \<Rightarrow> r # mutations h)"
  by (simp_all add: mutations_def List.map_filter_def split: option.splits)

lemma mutation_methods_simps [simp]:
  "mutation_methods [] = []"
  "mutation_methods (h @ h') = mutation_methods h @ mutation_methods h'"
  "mutation_methods (e # h) = (case mutation_of e of None \<Rightarrow> mutation_methods h | Some r \<Rightarrow> rq_Method r # mutation_methods h)"
  by (simp_all add: mutation_methods_def split: option.splits)

lemma mutations_snoc:
  "mutations (h @ [e]) = mutations h @ (case mutation_of e of None \<Rightarrow> [] | Some r \<Rightarrow> [r])"
  by (simp split: option.splits)

lemma http_requests_simps [simp]:
  "http_requests [] = []"
  "http_requests (h @ h') = http_requests h @ http_requests h'"
  "http_requests (e # h) = (case http_of e of None \<Rightarrow> http_requests h | Some r \<Rightarrow> r # http_requests h)"
  by (simp_all add: http_requests_def List.map_filter_def split: option.splits)

lemma mutations_http_requests: "mutations h = filter (\<lambda>r. rq_Method r \<noteq> MethodGet) (http_requests h)"
proof (induction h)
  case (Cons e h)
  then show ?case by (cases e) auto
qed simp

text \<open>
  What a call to an HTTP client leaves behind: it extends the trace by its own events only, and
  its mutating requests are the ones listed.
\<close>

definition emits :: "trace \<Rightarrow> trace \<Rightarrow> http_request list \<Rightarrow> bool" where
  "emits h h' rs \<longleftrightarrow> (\<exists>t. h' = h @ t \<and> list_all client_event t \<and> mutations t = rs)"

lemma emits_refl [simp, intro]: "emits h h []"
  by (simp add: emits_def)

lemma emits_trans: "emits h h1 rs \<Longrightarrow> emits h1 h2 rs' \<Longrightarrow> emits h h2 (rs @ rs')"
  unfolding emits_def by (metis append_assoc list_all_append mutations_simps(2))

lemma emits_silent_trans: "emits h h1 [] \<Longrightarrow> emits h1 h2 rs \<Longrightarrow> emits h h2 rs"
  using emits_trans by fastforce

lemma emits_mutations: "emits h h' rs \<Longrightarrow> mutations h' = mutations h @ rs"
  by (auto simp: emits_def)

lemma emits_mutation_methods: "emits h h' rs \<Longrightarrow> mutation_methods h' = mutation_methods h @ map rq_Method rs"
  by (simp add: mutation_methods_def emits_mutations)

text \<open>The creating requests of a trace.\<close>

definition posts :: "trace \<Rightarrow> http_request list" where
  "posts h = filter (\<lambda>r. rq_Method r = MethodPost) (mutations h)"

lemma posts_append [simp]: "posts (h @ h') = posts h @ posts h'"
  by (simp add: posts_def)

lemma emits_posts: "emits h h' rs \<Longrightarrow> posts h' = posts h @ filter (\<lambda>r. rq_Method r = MethodPost) rs"
  by (simp add: posts_def emits_mutations)

section \<open>Crossplane runtime helpers\<close>

record xp =
  xp_GetExternalName :: "strmap \<Rightarrow> string"
  xp_SetExternalName :: "string \<Rightarrow> strmap \<Rightarrow> strmap"
  xp_ExternalCreateIncomplete :: "strmap \<Rightarrow> bool"
  xp_SetExternalCreateSucceeded :: "gotime \<Rightarrow> strmap \<Rightarrow> strmap"
  xp_SetConditions :: "condition list \<Rightarrow> condition list \<Rightarrow> condition list"
  xp_GetCondition :: "condition list \<Rightarrow> condition_type \<Rightarrow> condition_status"

definition externalNameKey :: string where
  "externalNameKey = ''crossplane.io/external-name''"

definition externalCreateSucceededKey :: string where
  "externalCreateSucceededKey = ''crossplane.io/external-create-succeeded''"

text \<open>
  What the package \<open>meta\<close> documents and the source relies on: \<open>SetExternalName\<close> and
  \<open>SetExternalCreateSucceeded\<close> write their own annotation only, and the external name read back
  is the one set; after a succeeded creation the object has no incomplete creation.
\<close>

definition xp_laws :: "xp \<Rightarrow> bool" where
  "xp_laws x \<longleftrightarrow>
     (\<forall>m. xp_GetExternalName x m = map_get m externalNameKey)
   \<and> (\<forall>n m. xp_SetExternalName x n m = m(externalNameKey \<mapsto> n))
   \<and> (\<forall>t m k. k \<noteq> externalCreateSucceededKey \<longrightarrow> xp_SetExternalCreateSucceeded x t m k = m k)"

lemma xp_lawsD:
  assumes "xp_laws x"
  shows "xp_GetExternalName x m = map_get m externalNameKey"
    and "xp_SetExternalName x n m = m(externalNameKey \<mapsto> n)"
    and "k \<noteq> externalCreateSucceededKey \<Longrightarrow> xp_SetExternalCreateSucceeded x t m k = m k"
  using assms by (simp_all add: xp_laws_def)

lemma xp_SetExternalCreateSucceeded_get:
  "xp_laws x \<Longrightarrow> k \<noteq> externalCreateSucceededKey \<Longrightarrow> map_get (xp_SetExternalCreateSucceeded x t m) k = map_get m k"
  by (simp add: map_get_def xp_lawsD(3))

text \<open>A plain implementation of the helpers, at which the hypotheses above hold.\<close>

fun cond_type :: "condition \<Rightarrow> condition_type" where
  "cond_type ReconcileSuccess = TypeSynced"
| "cond_type (ReconcileError _) = TypeSynced"
| "cond_type _ = TypeReady"

fun cond_status :: "condition \<Rightarrow> condition_status" where
  "cond_status Available = ConditionTrue"
| "cond_status ReconcileSuccess = ConditionTrue"
| "cond_status _ = ConditionFalse"

definition xp_plain :: xp where
  "xp_plain = \<lparr>xp_GetExternalName = (\<lambda>m. map_get m externalNameKey),
     xp_SetExternalName = (\<lambda>n m. m(externalNameKey \<mapsto> n)),
     xp_ExternalCreateIncomplete = (\<lambda>m. map_get m ''crossplane.io/external-create-pending'' \<noteq> [] \<and> m externalCreateSucceededKey = None),
     xp_SetExternalCreateSucceeded = (\<lambda>t m. m(externalCreateSucceededKey \<mapsto> ''t'')),
     xp_SetConditions = (\<lambda>cs old. filter (\<lambda>c. \<not> (\<exists>d \<in> set cs. cond_type d = cond_type c)) old @ cs),
     xp_GetCondition = (\<lambda>cs t. case find (\<lambda>c. cond_type c = t) cs of None \<Rightarrow> ConditionUnknown | Some c \<Rightarrow> cond_status c)\<rparr>"

lemma xp_laws_plain: "xp_laws xp_plain"
  by (auto simp: xp_laws_def xp_plain_def)

section \<open>A scripted environment\<close>

text \<open>
  An environment whose HTTP peer and clock are given and whose Kubernetes API knows no objects and
  accepts every write; the concrete inputs of the witnesses extend it.
\<close>

definition scripted_env :: "(http_request \<Rightarrow> http_result) \<Rightarrow> gotime \<Rightarrow> env" where
  "scripted_env peer now =
     \<lparr>env_NewRequest = (\<lambda>_ _. None), env_Do = (\<lambda>_ r. peer r), env_Sleep = (\<lambda>_ _. None), env_Now = (\<lambda>_. now),
      env_Track = (\<lambda>_. None),
      env_GetTemplate = (\<lambda>_ _ _. Inl (True, ''not found'')), env_GetEndpoint = (\<lambda>_ _ _. Inl (True, ''not found'')),
      env_GetCheck = (\<lambda>_ _ _. Inl (True, ''not found'')), env_GetSecret = (\<lambda>_ _ _. Inl (True, ''not found'')),
      env_GetProviderConfig = (\<lambda>_ _ _. Inl (True, ''not found'')), env_GetClusterProviderConfig = (\<lambda>_ _. Inl (True, ''not found'')),
      env_ListEndpoints = (\<lambda>_ _. Inr []), env_ListChecks = (\<lambda>_ _. Inr []), env_Write = (\<lambda>_ _. None)\<rparr>"

definition plain_response :: "int \<Rightarrow> string \<Rightarrow> http_result" where
  "plain_response status body =
     Resp \<lparr>rs_StatusCode = status, rs_Header = Map.empty, rs_Body = body, rs_ReadErr = None, rs_CloseErr = None\<rparr>"

text \<open>A peer that answers 200 with the body of a table and 404 otherwise; a tilde stands for a quote.\<close>

definition unquoted :: "string \<Rightarrow> string" where
  "unquoted s = map (\<lambda>ch. if ch = CHR ''~'' then CHR 0x22 else ch) s"

definition table_env :: "((string \<times> string) \<times> string) list \<Rightarrow> gotime \<Rightarrow> env" where
  "table_env tbl now = scripted_env
     (\<lambda>r. case map_of tbl (rq_Method r, rq_URL r) of None \<Rightarrow> plain_response 404 [] | Some body \<Rightarrow> plain_response 200 (unquoted body)) now"

end
