(* ===== verification/RunpodClient.thy ===== *)
theory RunpodClient
  imports RunpodTypes Identifier World
begin

text \<open>
  \<open>internal/client/runpod/client.go\<close>: the client of the RunPod REST API. \<open>doJSON\<close> is the one
  place that talks to the network; its retry loop is a recursion on the attempts that are left.
  Every operation takes the environment and the trace so far and returns its result with the
  trace it leaves. A pointer result that the source returns with a nil error is the address of a
  local variable, hence never nil, and is modelled by the value itself.
\<close>

section \<open>The client\<close>

record client =
  cl_baseURL :: string
  cl_apiKey :: string

definition DefaultBaseURL :: string where
  "DefaultBaseURL = ''https://rest.runpod.io/v1''"

definition maxBodyBytes :: int where
  "maxBodyBytes = 2 ^ 20"

definition maxAttempts :: nat where
  "maxAttempts = 4"

text \<open>The options are functions on the client, applied in order; the first error wins.\<close>

fun apply_options :: "('c \<Rightarrow> 'c result) list \<Rightarrow> 'c \<Rightarrow> 'c result" where
  "apply_options [] c = Inr c"
| "apply_options (opt # opts) c = (case opt c of Inl e \<Rightarrow> Inl e | Inr c' \<Rightarrow> apply_options opts c')"

definition New :: "string \<Rightarrow> (client \<Rightarrow> client result) list \<Rightarrow> client result" where
  "New rawKey opts =
     (let key = rawKey
      in if key = [] \<or> key \<noteq> TrimSpace key \<or> length key > 4096 \<or> ContainsAny key [CHR 0x0D, CHR 0x0A]
         then Inl (Err ''RunPod API key is empty or malformed'')
         else apply_options opts \<lparr>cl_baseURL = DefaultBaseURL, cl_apiKey = key\<rparr>)"

section \<open>Helpers of the request loop\<close>

definition TrimRight :: "string \<Rightarrow> char \<Rightarrow> string" where
  "TrimRight s c = rev (dropWhile (\<lambda>d. d = c) (rev s))"

definition postAmbiguous :: "string \<Rightarrow> error \<Rightarrow> error" where
  "postAmbiguous httpMethod err =
     (if httpMethod = MethodPost then wrap_sentinel ErrCreateAmbiguous err else err)"

definition retryable :: "int \<Rightarrow> bool" where
  "retryable status \<longleftrightarrow> status = 429 \<or> status \<ge> 500"

definition backoff :: "nat \<Rightarrow> string \<Rightarrow> duration" where
  "backoff attempt retryAfter =
     (let fallback = push_bit attempt 1 * 100 * Millisecond
      in case Atoi retryAfter of
           Some seconds \<Rightarrow>
             if seconds > 0
             then (let d = word_of_int seconds * Second
                   in if dur_less (10 * Second) d then 10 * Second else d)
             else fallback
         | None \<Rightarrow> fallback)"

text \<open>The regular expression \<open>^[A-Za-z0-9][A-Za-z0-9._:-]{0,127}$\<close>.\<close>

definition safeRequestID :: "string \<Rightarrow> bool" where
  "safeRequestID s \<longleftrightarrow>
     (case s of [] \<Rightarrow> False
      | c # cs \<Rightarrow> is_alnum c \<and> length cs \<le> 127 \<and> list_all (\<lambda>d. name_char d \<or> d = CHR '':'') cs)"

fun first_safe :: "strmap \<Rightarrow> string list \<Rightarrow> string" where
  "first_safe h [] = []"
| "first_safe h (key # keys) = (let v = Header_Get h key in if safeRequestID v then v else first_safe h keys)"

definition requestID :: "strmap \<Rightarrow> string" where
  "requestID h = first_safe h [''X-Request-Id'', ''X-Request-ID'', ''Request-Id'']"

section \<open>The request loop\<close>

text \<open>
  What one attempt decides: the call is over with a result, or it sleeps and tries again.
\<close>

datatype 'r outcome = Done "'r result" | Retry duration

definition request :: "client \<Rightarrow> string \<Rightarrow> string \<Rightarrow> json option \<Rightarrow> http_request" where
  "request c httpMethod path input =
     \<lparr>rq_Method = httpMethod, rq_URL = TrimRight (cl_baseURL c) (CHR ''/'') @ path,
      rq_Header = [(''Authorization'', ''Bearer '' @ cl_apiKey c), (''Accept'', ''application/json''),
                   (''User-Agent'', ''provider-runpod/clean-room'')] @
                  (if input = None then [] else [(''Content-Type'', ''application/json'')]),
      rq_Body = (case input of None \<Rightarrow> [] | Some v \<Rightarrow> json_text v)\<rparr>"

definition handle_doErr :: "string \<Rightarrow> nat \<Rightarrow> string \<Rightarrow> 'r outcome" where
  "handle_doErr httpMethod attempt doErr =
     (if httpMethod = MethodPost then Done (Inl (wrap_sentinel ErrCreateAmbiguous (TransportErr doErr)))
      else if httpMethod \<noteq> MethodGet \<or> attempt = maxAttempts - 1
      then Done (Inl (wrap_text ''call RunPod API'' (TransportErr doErr)))
      else Retry (backoff attempt []))"

definition handle_body :: "string \<Rightarrow> nat \<Rightarrow> 'r decoder option \<Rightarrow> 'r \<Rightarrow> http_response \<Rightarrow> string \<Rightarrow> 'r outcome" where
  "handle_body httpMethod attempt dec out resp body =
     (let status = rs_StatusCode resp; apiErr = APIError status (requestID (rs_Header resp))
      in if status = 404 then Done (Inl ErrNotFound)
         else if retryable status \<and> attempt < maxAttempts - 1 then
           (if httpMethod = MethodPost
            then Done (Inl (Wrapf (error_text ErrCreateAmbiguous @ '': '' @ error_text apiErr) [ErrCreateAmbiguous, apiErr]))
            else if httpMethod \<noteq> MethodGet then Done (Inl apiErr)
            else Retry (backoff attempt (Header_Get (rs_Header resp) ''Retry-After'')))
         else if status < 200 \<or> status \<ge> 300 then Done (Inl apiErr)
         else (case dec of
                 None \<Rightarrow> Done (Inr out)
               | Some decode \<Rightarrow>
                   if TrimSpace body = [] then Done (Inr out)
                   else (case json_parse body of
                           None \<Rightarrow> Done (Inl (postAmbiguous httpMethod (wrap_text ''decode RunPod response'' (Err ''invalid JSON''))))
                         | Some v \<Rightarrow>
                             (case decode v out of
                                Inl err \<Rightarrow> Done (Inl (postAmbiguous httpMethod (wrap_text ''decode RunPod response'' err)))
                              | Inr decoded \<Rightarrow> Done (Inr decoded)))))"

definition handle_response :: "string \<Rightarrow> nat \<Rightarrow> 'r decoder option \<Rightarrow> 'r \<Rightarrow> http_response \<Rightarrow> 'r outcome" where
  "handle_response httpMethod attempt dec out resp =
     (case ReadAll_limited (maxBodyBytes + 1) resp of
        (_, Some readErr) \<Rightarrow> Done (Inl (postAmbiguous httpMethod (wrap_text ''read RunPod response'' (TransportErr readErr))))
      | (body, None) \<Rightarrow>
          (case rs_CloseErr resp of
             Some closeErr \<Rightarrow> Done (Inl (postAmbiguous httpMethod (wrap_text ''close RunPod response'' (TransportErr closeErr))))
           | None \<Rightarrow>
               if int (length body) > maxBodyBytes
               then Done (Inl (postAmbiguous httpMethod (Err ''RunPod response exceeded 1 MiB limit'')))
               else handle_body httpMethod attempt dec out resp body))"

text \<open>
  The loop. \<open>left\<close> counts the attempts that remain, so the attempt's number is
  \<open>maxAttempts - left\<close>. Marshalling cannot fail for the struct types the client sends, so the
  payload is given as its JSON value.
\<close>

fun doJSON_loop :: "env \<Rightarrow> client \<Rightarrow> string \<Rightarrow> string \<Rightarrow> json option \<Rightarrow> 'r decoder option \<Rightarrow> 'r \<Rightarrow> nat \<Rightarrow> trace \<Rightarrow> 'r result \<times> trace" where
  "doJSON_loop E c httpMethod path input dec out 0 h = (Inl (Err ''RunPod retry budget exhausted''), h)"
| "doJSON_loop E c httpMethod path input dec out (Suc left) h =
     (let attempt = maxAttempts - Suc left; req = request c httpMethod path input
      in case env_NewRequest E httpMethod (rq_URL req) of
           Some reqErr \<Rightarrow> (Inl (wrap_text ''create RunPod request'' (TransportErr reqErr)), h)
         | None \<Rightarrow>
             (let h1 = h @ [EvHTTP req];
                  outcome = (case env_Do E h req of
                               DoErr doErr \<Rightarrow> handle_doErr httpMethod attempt doErr
                             | Resp resp \<Rightarrow> handle_response httpMethod attempt dec out resp)
              in case outcome of
                   Done r \<Rightarrow> (r, h1)
                 | Retry d \<Rightarrow>
                     (case env_Sleep E h1 d of
                        Some err \<Rightarrow> (Inl (TransportErr err), h1 @ [EvSleep d])
                      | None \<Rightarrow> doJSON_loop E c httpMethod path input dec out left (h1 @ [EvSleep d]))))"

definition doJSON :: "env \<Rightarrow> client \<Rightarrow> string \<Rightarrow> string \<Rightarrow> json option \<Rightarrow> 'r decoder option \<Rightarrow> 'r \<Rightarrow> trace \<Rightarrow> 'r result \<times> trace" where
  "doJSON E c httpMethod path input dec out h = doJSON_loop E c httpMethod path input dec out maxAttempts h"

text \<open>A call without an output: only its error matters.\<close>

definition doJSON_err :: "env \<Rightarrow> client \<Rightarrow> string \<Rightarrow> string \<Rightarrow> json option \<Rightarrow> trace \<Rightarrow> error ptr \<times> trace" where
  "doJSON_err E c httpMethod path input h =
     (case doJSON E c httpMethod path input None () h of
        (Inl err, h') \<Rightarrow> (Some err, h')
      | (Inr _, h') \<Rightarrow> (None, h'))"

section \<open>Validation and normalisation\<close>

definition safeID :: "string \<Rightarrow> string result" where
  "safeID rid = (case ValidateRunPodID rid of Some err \<Rightarrow> Inl err | None \<Rightarrow> Inr (PathEscape rid))"

definition validateTemplateResponse :: "rp_template \<Rightarrow> error ptr" where
  "validateTemplateResponse template = ValidateRunPodID (rt_ID template)"

definition validateEndpointResponse :: "rp_endpoint \<Rightarrow> error ptr" where
  "validateEndpointResponse endpoint =
     (case ValidateRunPodID (re_ID endpoint) of
        Some err \<Rightarrow> Some err
      | None \<Rightarrow>
          (case ValidateRunPodID (re_TemplateID endpoint) of
             Some _ \<Rightarrow> Some (Err ''RunPod Endpoint response omitted or returned an invalid templateId'')
           | None \<Rightarrow> None))"

definition worker_identity_bad :: "rp_endpoint \<Rightarrow> endpoint_worker \<Rightarrow> bool" where
  "worker_identity_bad endpoint worker \<longleftrightarrow>
     \<not> ns_Present (ew_ID worker) \<or> ns_Null (ew_ID worker) \<or> ValidateRunPodID (ns_Value (ew_ID worker)) \<noteq> None \<or>
     \<not> ns_Present (ew_EndpointID worker) \<or>
     (\<not> ns_Null (ew_EndpointID worker) \<and> ns_Value (ew_EndpointID worker) \<noteq> re_ID endpoint) \<or>
     \<not> ns_Present (ew_TemplateID worker) \<or>
     (\<not> ns_Null (ew_TemplateID worker) \<and> ns_Value (ew_TemplateID worker) \<noteq> re_TemplateID endpoint) \<or>
     ew_SLSVersion worker = None"

fun validate_workers :: "rp_endpoint \<Rightarrow> endpoint_worker list \<Rightarrow> error ptr" where
  "validate_workers endpoint [] = None"
| "validate_workers endpoint (worker # workers) =
     (if worker_identity_bad endpoint worker
      then Some (Err ''RunPod Endpoint worker response omitted or returned an invalid identity binding'')
      else validate_workers endpoint workers)"

definition validateEndpointObservation :: "rp_endpoint \<Rightarrow> error ptr" where
  "validateEndpointObservation endpoint =
     (case validateEndpointResponse endpoint of
        Some err \<Rightarrow> Some err
      | None \<Rightarrow>
          if re_WorkersMin endpoint = None \<or> re_WorkersMax endpoint = None \<or> re_Version endpoint = None
          then Some (Err ''RunPod Endpoint response omitted workersMin, workersMax, or version'')
          else (case re_Workers endpoint of
             None \<Rightarrow> Some (Err ''RunPod Endpoint response omitted workers after includeWorkers=true'')
           | Some workers \<Rightarrow>
               (case re_Template endpoint of
                  None \<Rightarrow> Some (Err ''RunPod Endpoint response omitted or mismatched the bound Template after includeTemplate=true'')
                | Some template \<Rightarrow>
                    if rt_ID template \<noteq> re_TemplateID endpoint
                    then Some (Err ''RunPod Endpoint response omitted or mismatched the bound Template after includeTemplate=true'')
                    else (case validateTemplateResponse template of
                            Some _ \<Rightarrow> Some (Err ''RunPod Endpoint response returned an invalid bound Template ID'')
                          | None \<Rightarrow> validate_workers endpoint workers))))"

definition normalizeTemplateInput :: "template_input \<Rightarrow> template_input" where
  "normalizeTemplateInput i0 =
     (let i1 = (if ti_Category i0 = [] then i0\<lparr>ti_Category := ''NVIDIA''\<rparr> else i0);
          i2 = (if ti_ContainerDiskInGB i1 = 0 then i1\<lparr>ti_ContainerDiskInGB := 50\<rparr> else i1);
          i3 = (if ti_DockerEntrypoint i2 = None then i2\<lparr>ti_DockerEntrypoint := Some []\<rparr> else i2);
          i4 = (if ti_DockerStartCmd i3 = None then i3\<lparr>ti_DockerStartCmd := Some []\<rparr> else i3)
      in if ti_Env i4 = None then i4\<lparr>ti_Env := Some []\<rparr> else i4)"

definition templateUpdateInput :: "template_input \<Rightarrow> template_update_input" where
  "templateUpdateInput i0 =
     (let i = normalizeTemplateInput i0
      in \<lparr>tu_Name = ti_Name i, tu_ImageName = ti_ImageName i, tu_IsPublic = ti_IsPublic i,
          tu_ContainerDiskInGB = ti_ContainerDiskInGB i, tu_DockerEntrypoint = ti_DockerEntrypoint i,
          tu_DockerStartCmd = ti_DockerStartCmd i, tu_Ports = ti_Ports i, tu_Readme = ti_Readme i,
          tu_VolumeInGB = ti_VolumeInGB i, tu_VolumeMountPath = ti_VolumeMountPath i,
          tu_Env = ti_Env i, tu_ContainerRegistryAuthID = ti_ContainerRegistryAuthID i\<rparr>)"

definition normalizeEndpointInput :: "endpoint_input \<Rightarrow> endpoint_input" where
  "normalizeEndpointInput i0 =
     (let i1 = (if ei_AllowedCUDAVersions i0 = None then i0\<lparr>ei_AllowedCUDAVersions := Some []\<rparr> else i0)
      in if ei_NetworkVolumeIDs i1 = None then i1\<lparr>ei_NetworkVolumeIDs := Some []\<rparr> else i1)"

definition endpointUpdateInput :: "endpoint_input \<Rightarrow> endpoint_update_input" where
  "endpointUpdateInput i0 =
     (let i = normalizeEndpointInput i0
      in \<lparr>eu_Name = ei_Name i, eu_TemplateID = ei_TemplateID i, eu_GPUCount = ei_GPUCount i,
          eu_GPUTypeIDs = ei_GPUTypeIDs i, eu_AllowedCUDAVersions = ei_AllowedCUDAVersions i,
          eu_DataCenterIDs = ei_DataCenterIDs i, eu_WorkersMin = ei_WorkersMin i, eu_WorkersMax = ei_WorkersMax i,
          eu_IdleTimeout = ei_IdleTimeout i, eu_ScalerType = ei_ScalerType i, eu_ScalerValue = ei_ScalerValue i,
          eu_ExecutionTimeoutMS = ei_ExecutionTimeoutMS i, eu_FlashBoot = ei_FlashBoot i,
          eu_NetworkVolumeID = ei_NetworkVolumeID i, eu_NetworkVolumeIDs = ei_NetworkVolumeIDs i,
          eu_MinCUDAVersion = ei_MinCUDAVersion i\<rparr>)"

section \<open>Template operations\<close>

fun find_unique :: "('a \<Rightarrow> string) \<Rightarrow> string \<Rightarrow> 'a list \<Rightarrow> 'a ptr \<Rightarrow> 'a result" where
  "find_unique name_of name [] found = (case found of None \<Rightarrow> Inl ErrNotFound | Some x \<Rightarrow> Inr x)"
| "find_unique name_of name (x # xs) found =
     (if name_of x \<noteq> name then find_unique name_of name xs found
      else if found \<noteq> None then Inl ErrAmbiguous
      else find_unique name_of name xs (Some x))"

fun validate_all :: "('a \<Rightarrow> error ptr) \<Rightarrow> 'a list \<Rightarrow> error ptr" where
  "validate_all validate [] = None"
| "validate_all validate (x # xs) = (case validate x of Some err \<Rightarrow> Some err | None \<Rightarrow> validate_all validate xs)"

definition GetTemplate :: "env \<Rightarrow> client \<Rightarrow> string \<Rightarrow> trace \<Rightarrow> rp_template result \<times> trace" where
  "GetTemplate E c rid h =
     (case safeID rid of
        Inl err \<Rightarrow> (Inl err, h)
      | Inr escaped \<Rightarrow>
          (case doJSON E c MethodGet (''/templates/'' @ escaped @ ''?includeEndpointBoundTemplates=true'') None
                  (Some decode_template) zero_template h of
             (Inl err, h') \<Rightarrow> (Inl err, h')
           | (Inr out, h') \<Rightarrow>
               if validateTemplateResponse out \<noteq> None \<or> rt_ID out \<noteq> rid
               then (Inl (Err ''RunPod Template response has an invalid resource ID''), h')
               else (Inr out, h')))"

definition ListTemplates :: "env \<Rightarrow> client \<Rightarrow> trace \<Rightarrow> rp_template list result \<times> trace" where
  "ListTemplates E c h =
     (case doJSON E c MethodGet ''/templates?includeEndpointBoundTemplates=true'' None
             (Some (dec_slice zero_template decode_template)) None h of
        (Inl err, h') \<Rightarrow> (Inl err, h')
      | (Inr out, h') \<Rightarrow>
          (case validate_all validateTemplateResponse (elems out) of
             Some err \<Rightarrow> (Inl err, h')
           | None \<Rightarrow> (Inr (elems out), h')))"

definition FindTemplateByName :: "env \<Rightarrow> client \<Rightarrow> string \<Rightarrow> trace \<Rightarrow> rp_template result \<times> trace" where
  "FindTemplateByName E c name h =
     (case ListTemplates E c h of
        (Inl err, h') \<Rightarrow> (Inl err, h')
      | (Inr all, h') \<Rightarrow> (find_unique rt_Name name all None, h'))"

definition CreateTemplate :: "env \<Rightarrow> client \<Rightarrow> template_input \<Rightarrow> trace \<Rightarrow> rp_template result \<times> trace" where
  "CreateTemplate E c i0 h =
     (let i = normalizeTemplateInput i0
      in case doJSON E c MethodPost ''/templates'' (Some (encode_template_input i)) (Some decode_template) zero_template h of
           (Inl err, h') \<Rightarrow> (Inl err, h')
         | (Inr out, h') \<Rightarrow>
             if rt_ID out = [] then (Inl ErrCreateAmbiguous, h')
             else if validateTemplateResponse out \<noteq> None \<or> rt_Name out \<noteq> ti_Name i
             then (Inl (wrap_sentinel ErrCreateAmbiguous (Err ''RunPod Template success response has an invalid resource ID'')), h')
             else (Inr out, h'))"

definition UpdateTemplate :: "env \<Rightarrow> client \<Rightarrow> string \<Rightarrow> template_input \<Rightarrow> trace \<Rightarrow> rp_template result \<times> trace" where
  "UpdateTemplate E c rid i0 h =
     (case safeID rid of
        Inl err \<Rightarrow> (Inl err, h)
      | Inr escaped \<Rightarrow>
          (let i = normalizeTemplateInput (i0\<lparr>ti_IsServerless := False\<rparr>); update = templateUpdateInput i
           in case doJSON E c MethodPatch (''/templates/'' @ escaped) (Some (encode_template_update_input update))
                     (Some decode_template) zero_template h of
                (Inl err, h') \<Rightarrow> (Inl err, h')
              | (Inr out, h') \<Rightarrow>
                  if rt_ID out = [] then GetTemplate E c rid h'
                  else if validateTemplateResponse out \<noteq> None \<or> rt_ID out \<noteq> rid \<or> rt_Name out \<noteq> ti_Name i
                  then (Inl (Err ''RunPod Template update response has an invalid resource ID''), h')
                  else (Inr out, h')))"

definition DeleteTemplate :: "env \<Rightarrow> client \<Rightarrow> string \<Rightarrow> trace \<Rightarrow> error ptr \<times> trace" where
  "DeleteTemplate E c rid h =
     (case safeID rid of
        Inl err \<Rightarrow> (Some err, h)
      | Inr escaped \<Rightarrow> doJSON_err E c MethodDelete (''/templates/'' @ escaped) None h)"

section \<open>Endpoint operations\<close>

definition GetEndpoint :: "env \<Rightarrow> client \<Rightarrow> string \<Rightarrow> trace \<Rightarrow> rp_endpoint result \<times> trace" where
  "GetEndpoint E c rid h =
     (case safeID rid of
        Inl err \<Rightarrow> (Inl err, h)
      | Inr escaped \<Rightarrow>
          (case doJSON E c MethodGet (''/endpoints/'' @ escaped @ ''?includeTemplate=true&includeWorkers=true'') None
                  (Some Endpoint_UnmarshalJSON) zero_endpoint h of
             (Inl err, h') \<Rightarrow> (Inl err, h')
           | (Inr out, h') \<Rightarrow>
               if validateEndpointObservation out \<noteq> None \<or> re_ID out \<noteq> rid
               then (Inl (Err ''RunPod Endpoint response has an invalid resource ID''), h')
               else (Inr out, h')))"

definition ListEndpoints :: "env \<Rightarrow> client \<Rightarrow> trace \<Rightarrow> rp_endpoint list result \<times> trace" where
  "ListEndpoints E c h =
     (case doJSON E c MethodGet ''/endpoints?includeTemplate=true&includeWorkers=true'' None
             (Some (dec_slice zero_endpoint Endpoint_UnmarshalJSON)) None h of
        (Inl err, h') \<Rightarrow> (Inl err, h')
      | (Inr out, h') \<Rightarrow>
          (case validate_all validateEndpointObservation (elems out) of
             Some err \<Rightarrow> (Inl err, h')
           | None \<Rightarrow> (Inr (elems out), h')))"

definition FindEndpointByName :: "env \<Rightarrow> client \<Rightarrow> string \<Rightarrow> trace \<Rightarrow> rp_endpoint result \<times> trace" where
  "FindEndpointByName E c name h =
     (case ListEndpoints E c h of
        (Inl err, h') \<Rightarrow> (Inl err, h')
      | (Inr all, h') \<Rightarrow> (find_unique re_Name name all None, h'))"

definition CreateEndpoint :: "env \<Rightarrow> client \<Rightarrow> endpoint_input \<Rightarrow> trace \<Rightarrow> rp_endpoint result \<times> trace" where
  "CreateEndpoint E c i0 h =
     (case ValidateRunPodID (ei_TemplateID i0) of
        Some err \<Rightarrow> (Inl err, h)
      | None \<Rightarrow>
          (let i = normalizeEndpointInput i0
           in case doJSON E c MethodPost ''/endpoints'' (Some (encode_endpoint_input i)) (Some Endpoint_UnmarshalJSON) zero_endpoint h of
                (Inl err, h') \<Rightarrow> (Inl err, h')
              | (Inr out, h') \<Rightarrow>
                  if re_ID out = [] then (Inl ErrCreateAmbiguous, h')
                  else if validateEndpointObservation out \<noteq> None \<or> re_Name out \<noteq> ei_Name i \<or> re_TemplateID out \<noteq> ei_TemplateID i
                  then (Inl (wrap_sentinel ErrCreateAmbiguous (Err ''RunPod Endpoint success response has an invalid resource ID'')), h')
                  else (Inr out, h')))"

definition UpdateEndpoint :: "env \<Rightarrow> client \<Rightarrow> string \<Rightarrow> endpoint_input \<Rightarrow> trace \<Rightarrow> rp_endpoint result \<times> trace" where
  "UpdateEndpoint E c rid i0 h =
     (case safeID rid of
        Inl err \<Rightarrow> (Inl err, h)
      | Inr escaped \<Rightarrow>
          (case ValidateRunPodID (ei_TemplateID i0) of
             Some err \<Rightarrow> (Inl err, h)
           | None \<Rightarrow>
               (let i = normalizeEndpointInput i0; update = endpointUpdateInput i
                in case doJSON E c MethodPatch (''/endpoints/'' @ escaped) (Some (encode_endpoint_update_input update))
                          (Some Endpoint_UnmarshalJSON) zero_endpoint h of
                     (Inl err, h') \<Rightarrow> (Inl err, h')
                   | (Inr out, h') \<Rightarrow>
                       if re_ID out = [] \<or> re_TemplateID out = [] \<or> re_WorkersMin out = None \<or> re_WorkersMax out = None \<or>
                          re_Version out = None \<or> re_Workers out = None \<or> re_Template out = None
                       then GetEndpoint E c rid h'
                       else if validateEndpointObservation out \<noteq> None \<or> re_ID out \<noteq> rid \<or> re_Name out \<noteq> ei_Name i \<or>
                               re_TemplateID out \<noteq> ei_TemplateID i
                       then (Inl (Err ''RunPod Endpoint update response has an invalid resource ID''), h')
                       else (Inr out, h'))))"

definition zero_workers :: json where
  "zero_workers = JObj [(''workersMin'', enc_int32 0), (''workersMax'', enc_int32 0)]"

definition DeleteEndpoint :: "env \<Rightarrow> client \<Rightarrow> string \<Rightarrow> trace \<Rightarrow> error ptr \<times> trace" where
  "DeleteEndpoint E c rid h =
     (case safeID rid of
        Inl err \<Rightarrow> (Some err, h)
      | Inr escaped \<Rightarrow>
          (case doJSON_err E c MethodPatch (''/endpoints/'' @ escaped) (Some zero_workers) h of
             (Some err, h') \<Rightarrow>
               if \<not> errors_Is err ErrNotFound then (Some err, h')
               else doJSON_err E c MethodDelete (''/endpoints/'' @ escaped) None h'
           | (None, h') \<Rightarrow> doJSON_err E c MethodDelete (''/endpoints/'' @ escaped) None h'))"

section \<open>What the loop does on the wire\<close>

lemma handle_doErr_Retry: "handle_doErr m a s = Retry d \<Longrightarrow> m = MethodGet \<and> a \<noteq> maxAttempts - 1"
  by (auto simp: handle_doErr_def split: if_splits)

lemma handle_body_Retry: "handle_body m a dec out resp body = Retry d \<Longrightarrow> m = MethodGet \<and> retryable (rs_StatusCode resp)"
  by (auto simp: handle_body_def Let_def split: if_splits option.splits sum.splits)

lemma handle_response_Retry: "handle_response m a dec out resp = Retry d \<Longrightarrow> m = MethodGet \<and> retryable (rs_StatusCode resp)"
  by (auto simp: handle_response_def split: prod.splits option.splits if_splits dest: handle_body_Retry)

text \<open>A success is a complete response of status 2xx and at most 1 MiB that decodes.\<close>

definition accepted :: "'r decoder option \<Rightarrow> 'r \<Rightarrow> http_response \<Rightarrow> 'r \<Rightarrow> bool" where
  "accepted dec out resp v \<longleftrightarrow>
     200 \<le> rs_StatusCode resp \<and> rs_StatusCode resp < 300 \<and> int (length (rs_Body resp)) \<le> maxBodyBytes
     \<and> rs_ReadErr resp = None \<and> rs_CloseErr resp = None
     \<and> (case dec of None \<Rightarrow> v = out
        | Some decode \<Rightarrow>
            if TrimSpace (rs_Body resp) = [] then v = out
            else (\<exists>j. json_parse (rs_Body resp) = Some j \<and> decode j out = Inr v))"

lemma maxBodyBytes_nonneg [simp]: "0 \<le> maxBodyBytes"
  by (simp add: maxBodyBytes_def)

lemma ReadAll_limited_complete:
  "ReadAll_limited (n + 1) resp = (body, None) \<Longrightarrow> \<not> n < int (length body) \<Longrightarrow> 0 \<le> n \<Longrightarrow>
     body = rs_Body resp \<and> rs_ReadErr resp = None"
  by (auto simp: ReadAll_limited_def split: if_splits)

lemma handle_body_Inr:
  assumes "handle_body m a dec out resp body = Done (Inr v)"
  shows "200 \<le> rs_StatusCode resp \<and> rs_StatusCode resp < 300 \<and>
    (case dec of None \<Rightarrow> v = out
     | Some decode \<Rightarrow> if TrimSpace body = [] then v = out else (\<exists>j. json_parse body = Some j \<and> decode j out = Inr v))"
  using assms by (auto simp: handle_body_def Let_def split: if_splits option.splits sum.splits)

lemma handle_response_Inr: "handle_response m a dec out resp = Done (Inr v) \<Longrightarrow> accepted dec out resp v"
  unfolding handle_response_def accepted_def
  by (auto split: prod.splits option.splits if_splits dest!: handle_body_Inr dest: ReadAll_limited_complete
      simp: maxBodyBytes_nonneg)

text \<open>
  A definitive answer: the peer answered in full with a status that says that nothing was created.
\<close>

definition refused_status :: "int \<Rightarrow> bool" where
  "refused_status status \<longleftrightarrow> \<not> retryable status \<and> \<not> (200 \<le> status \<and> status < 300)"

definition definitive :: "http_result \<Rightarrow> bool" where
  "definitive res \<longleftrightarrow>
     (\<exists>resp. res = Resp resp \<and> rs_ReadErr resp = None \<and> rs_CloseErr resp = None \<and> int (length (rs_Body resp)) \<le> maxBodyBytes
        \<and> refused_status (rs_StatusCode resp))"

lemma handle_body_post_Inl:
  "handle_body MethodPost 0 dec out resp body = Done (Inl e) \<Longrightarrow> \<not> errors_Is e ErrCreateAmbiguous \<Longrightarrow> refused_status (rs_StatusCode resp)"
  by (auto simp: handle_body_def Let_def refused_status_def postAmbiguous_def retryable_def maxAttempts_def
      split: if_splits option.splits sum.splits)

lemma handle_response_post_Inl:
  assumes "handle_response MethodPost 0 dec out resp = Done (Inl e)" "\<not> errors_Is e ErrCreateAmbiguous"
  shows "definitive (Resp resp)"
proof -
  from assms obtain body where "ReadAll_limited (maxBodyBytes + 1) resp = (body, None)" "rs_CloseErr resp = None"
    "\<not> maxBodyBytes < int (length body)" "handle_body MethodPost 0 dec out resp body = Done (Inl e)"
    by (auto simp: handle_response_def postAmbiguous_def split: prod.splits option.splits if_splits)
  with ReadAll_limited_complete [of maxBodyBytes resp body] handle_body_post_Inl assms(2) show ?thesis
    by (auto simp: definitive_def)
qed

lemma doJSON_loop_trace:
  assumes "doJSON_loop E c m p i dec out n h = (r, h')"
  shows "\<exists>t k. h' = h @ t \<and> list_all client_event t \<and> http_requests t = replicate k (request c m p i) \<and> k \<le> n
    \<and> (m \<noteq> MethodGet \<longrightarrow> k \<le> 1)"
  using assms
proof (induction n arbitrary: h)
  case (Suc n)
  let ?req = "request c m p i" and ?out = "case env_Do E h (request c m p i) of
    DoErr s \<Rightarrow> handle_doErr m (maxAttempts - Suc n) s | Resp s \<Rightarrow> handle_response m (maxAttempts - Suc n) dec out s"
  show ?case
  proof (cases "env_NewRequest E m (rq_URL ?req)")
    case (Some e)
    with Suc.prems have "h' = h" by (simp add: Let_def)
    then show ?thesis by (intro exI [of _ "[]"] exI [of _ 0]) simp
  next
    case None
    show ?thesis
    proof (cases ?out)
      case (Done r')
      with None Suc.prems have "h' = h @ [EvHTTP ?req]" by (simp add: Let_def)
      then show ?thesis by (intro exI [of _ "[EvHTTP ?req]"] exI [of _ 1]) simp
    next
      case (Retry d)
      then have get: "m = MethodGet"
        by (auto dest: handle_doErr_Retry handle_response_Retry split: http_result.splits)
      let ?h1 = "h @ [EvHTTP ?req, EvSleep d]"
      show ?thesis
      proof (cases "env_Sleep E (h @ [EvHTTP ?req]) d")
        case (Some e)
        with None Retry Suc.prems have "h' = ?h1" by (simp add: Let_def)
        then show ?thesis by (intro exI [of _ "[EvHTTP ?req, EvSleep d]"] exI [of _ 1]) simp
      next
        case None2: None
        with None Retry Suc.prems have "doJSON_loop E c m p i dec out n ?h1 = (r, h')" by (simp add: Let_def)
        from Suc.IH [OF this] obtain t k where "h' = ?h1 @ t" "list_all client_event t"
          "http_requests t = replicate k ?req" "k \<le> n" by blast
        then show ?thesis using get
          by (intro exI [of _ "[EvHTTP ?req, EvSleep d] @ t"] exI [of _ "Suc k"]) simp
      qed
    qed
  qed
qed simp

lemma doJSON_loop_success:
  assumes "doJSON_loop E c m p i dec out n h = (Inr v, h')"
  shows "\<exists>h1 resp. h' = h1 @ [EvHTTP (request c m p i)] \<and> env_Do E h1 (request c m p i) = Resp resp \<and> accepted dec out resp v"
  using assms
proof (induction n arbitrary: h)
  case (Suc n)
  then show ?case
    by (fastforce simp: Let_def handle_doErr_def dest: handle_response_Inr
        split: option.splits outcome.splits http_result.splits if_splits)
qed simp

lemmas doJSON_success = doJSON_loop_success [of _ _ _ _ _ _ _ maxAttempts, folded doJSON_def]

text \<open>A method other than GET is one attempt: it is refused before it is sent, or sent once.\<close>

lemma doJSON_nonGET:
  assumes "m \<noteq> MethodGet" "doJSON E c m p i dec out h = (r, h')"
  obtains (unsent) e where "r = Inl (wrap_text ''create RunPod request'' (TransportErr e))" "h' = h"
      "env_NewRequest E m (rq_URL (request c m p i)) = Some e"
  | (sent) "h' = h @ [EvHTTP (request c m p i)]"
      "(case env_Do E h (request c m p i) of DoErr s \<Rightarrow> handle_doErr m 0 s | Resp s \<Rightarrow> handle_response m 0 dec out s) = Done r"
proof (cases "env_NewRequest E m (rq_URL (request c m p i))")
  case (Some e)
  with assms have "r = Inl (wrap_text ''create RunPod request'' (TransportErr e))" "h' = h"
    by (simp_all add: doJSON_def maxAttempts_def numeral_eq_Suc Let_def)
  then show thesis using Some by (rule unsent)
next
  case None
  let ?out = "case env_Do E h (request c m p i) of DoErr s \<Rightarrow> handle_doErr m 0 s | Resp s \<Rightarrow> handle_response m 0 dec out s"
  have "\<exists>r'. ?out = Done r'"
    using assms(1) by (cases ?out) (auto dest: handle_doErr_Retry handle_response_Retry split: http_result.splits)
  then obtain r' where r': "?out = Done r'" ..
  with None assms(2) have "r = r'" "h' = h @ [EvHTTP (request c m p i)]"
    by (simp_all add: doJSON_def maxAttempts_def numeral_eq_Suc Let_def)
  with r' show thesis by (intro sent) simp_all
qed

lemma request_simps [simp]:
  "rq_Method (request c m p i) = m"
  "rq_URL (request c m p i) = TrimRight (cl_baseURL c) (CHR ''/'') @ p"
  "rq_Body (request c m p i) = (case i of None \<Rightarrow> [] | Some v \<Rightarrow> json_text v)"
  by (simp_all add: request_def)

lemma doJSON_get_emits:
  assumes "doJSON E c MethodGet p i dec out h = (r, h')"
  shows "emits h h' []"
proof -
  from doJSON_loop_trace [OF assms [unfolded doJSON_def]] obtain t k where
    "h' = h @ t" "list_all client_event t" "http_requests t = replicate k (request c MethodGet p i)" by blast
  then show ?thesis
    by (auto simp: emits_def mutations_http_requests)
qed

lemma doJSON_nonGET_emits:
  assumes "m \<noteq> MethodGet" "doJSON E c m p i dec out h = (r, h')"
  shows "emits h h' [] \<and> (\<exists>e. r = Inl (wrap_text ''create RunPod request'' (TransportErr e))) \<or> emits h h' [request c m p i]"
  using assms(1) by (cases rule: doJSON_nonGET [OF assms]) (auto simp: emits_def)

lemma doJSON_nonGET_Inr_emits:
  "m \<noteq> MethodGet \<Longrightarrow> doJSON E c m p i dec out h = (Inr v, h') \<Longrightarrow> emits h h' [request c m p i]"
  by (drule (1) doJSON_nonGET_emits) auto

lemma doJSON_post_trace:
  assumes "doJSON E c MethodPost p i dec out h = (r, h')"
  shows "h' = h \<and> (\<exists>e. r = Inl e \<and> \<not> errors_Is e ErrCreateAmbiguous) \<or>
    h' = h @ [EvHTTP (request c MethodPost p i)] \<and>
      (\<forall>e. r = Inl e \<and> \<not> errors_Is e ErrCreateAmbiguous \<longrightarrow> definitive (env_Do E h (request c MethodPost p i)))"
proof -
  have "MethodPost \<noteq> MethodGet" by (simp add: http_methods)
  from this assms show ?thesis
  proof (cases rule: doJSON_nonGET)
    case sent
    then show ?thesis
      by (auto simp: handle_doErr_def dest: handle_response_post_Inl split: http_result.splits)
  qed (auto simp: errors_Is_wrap_text)
qed

section \<open>Validation lemmas\<close>

lemma safeID_eq: "safeID rid = Inr e \<longleftrightarrow> valid_id rid \<and> e = rid"
  by (auto simp: safeID_def valid_id_PathEscape split: option.splits)

lemma safeID_valid [simp]: "valid_id rid \<Longrightarrow> safeID rid = Inr rid"
  by (simp add: safeID_eq)

lemma safeID_Inl: "safeID rid = Inl e \<Longrightarrow> \<not> valid_id rid"
  by (auto simp: safeID_def split: option.splits)

lemma validateTemplateResponse_None [simp]: "validateTemplateResponse t = None \<longleftrightarrow> valid_id (rt_ID t)"
  by (simp add: validateTemplateResponse_def)

lemma validateTemplateResponse_ex [simp]: "(\<exists>e. validateTemplateResponse t = Some e) \<longleftrightarrow> \<not> valid_id (rt_ID t)"
  by (simp add: validateTemplateResponse_def)

text \<open>The identity a worker must carry.\<close>

definition worker_bound :: "string \<Rightarrow> string \<Rightarrow> endpoint_worker \<Rightarrow> bool" where
  "worker_bound eid tid w \<longleftrightarrow>
     ns_Present (ew_ID w) \<and> \<not> ns_Null (ew_ID w) \<and> valid_id (ns_Value (ew_ID w))
     \<and> ns_Present (ew_EndpointID w) \<and> (ns_Null (ew_EndpointID w) \<or> ns_Value (ew_EndpointID w) = eid)
     \<and> ns_Present (ew_TemplateID w) \<and> (ns_Null (ew_TemplateID w) \<or> ns_Value (ew_TemplateID w) = tid)
     \<and> ew_SLSVersion w \<noteq> None"

lemma worker_identity_bad_iff: "worker_identity_bad ep w \<longleftrightarrow> \<not> worker_bound (re_ID ep) (re_TemplateID ep) w"
  by (auto simp: worker_identity_bad_def worker_bound_def)

lemma validate_workers_None: "validate_workers ep ws = None \<longleftrightarrow> list_all (worker_bound (re_ID ep) (re_TemplateID ep)) ws"
  by (induction ws) (auto simp: worker_identity_bad_iff)

definition endpoint_wf :: "rp_endpoint \<Rightarrow> bool" where
  "endpoint_wf ep \<longleftrightarrow>
     valid_id (re_ID ep) \<and> valid_id (re_TemplateID ep)
     \<and> re_WorkersMin ep \<noteq> None \<and> re_WorkersMax ep \<noteq> None \<and> re_Version ep \<noteq> None
     \<and> (\<exists>t. re_Template ep = Some t \<and> rt_ID t = re_TemplateID ep)
     \<and> (\<exists>ws. re_Workers ep = Some ws \<and> list_all (worker_bound (re_ID ep) (re_TemplateID ep)) ws)"

lemma validateEndpointResponse_None:
  "validateEndpointResponse ep = None \<longleftrightarrow> valid_id (re_ID ep) \<and> valid_id (re_TemplateID ep)"
  by (auto simp: validateEndpointResponse_def split: option.splits)

lemma validateEndpointObservation_None [simp]: "validateEndpointObservation ep = None \<longleftrightarrow> endpoint_wf ep"
proof (cases "validateEndpointResponse ep")
  case None
  then have "valid_id (re_ID ep)" "valid_id (re_TemplateID ep)"
    by (simp_all add: validateEndpointResponse_None)
  with None show ?thesis
    by (auto simp: validateEndpointObservation_def endpoint_wf_def validate_workers_None split: option.splits)
next
  case (Some e)
  then have "\<not> (valid_id (re_ID ep) \<and> valid_id (re_TemplateID ep))"
    by (metis option.distinct(1) validateEndpointResponse_None)
  with Some show ?thesis by (auto simp: validateEndpointObservation_def endpoint_wf_def)
qed

lemma endpoint_wf_id: "endpoint_wf ep \<Longrightarrow> valid_id (re_ID ep)"
  by (simp add: endpoint_wf_def)

lemma validate_all_None: "validate_all v xs = None \<longleftrightarrow> list_all (\<lambda>x. v x = None) xs"
  by (induction xs) (auto split: option.splits)

lemma find_unique_spec:
  "find_unique name_of name xs found =
     (case (case found of None \<Rightarrow> [] | Some x \<Rightarrow> [x]) @ filter (\<lambda>x. name_of x = name) xs of
        [] \<Rightarrow> Inl ErrNotFound | [x] \<Rightarrow> Inr x | _ \<Rightarrow> Inl ErrAmbiguous)"
  by (induction name_of name xs found rule: find_unique.induct) (auto split: option.splits list.splits)

lemma find_unique_Inr: "find_unique name_of name xs None = Inr x \<longleftrightarrow> filter (\<lambda>x. name_of x = name) xs = [x]"
  by (auto simp: find_unique_spec split: list.splits)

lemma find_unique_not_ambiguous_create:
  "find_unique name_of name xs None = Inl e \<Longrightarrow> e = ErrNotFound \<or> e = ErrAmbiguous"
  by (auto simp: find_unique_spec split: list.splits)

lemma normalizeTemplateInput_Name [simp]: "ti_Name (normalizeTemplateInput i) = ti_Name i"
  by (simp add: normalizeTemplateInput_def Let_def)

lemma normalizeEndpointInput_simps [simp]:
  "ei_Name (normalizeEndpointInput i) = ei_Name i" "ei_TemplateID (normalizeEndpointInput i) = ei_TemplateID i"
  by (simp_all add: normalizeEndpointInput_def Let_def)

section \<open>Committed creations\<close>

text \<open>
  The POST requests of a trace that the peer did not definitively refuse: each of them may have
  created a chargeable resource.
\<close>

definition uncertain_post :: "env \<Rightarrow> trace \<Rightarrow> event \<Rightarrow> bool" where
  "uncertain_post E h e \<longleftrightarrow> (case http_of e of None \<Rightarrow> False | Some q \<Rightarrow> rq_Method q = MethodPost \<and> \<not> definitive (env_Do E h q))"

fun committed_from :: "env \<Rightarrow> trace \<Rightarrow> trace \<Rightarrow> nat" where
  "committed_from E h [] = 0"
| "committed_from E h (e # es) = (if uncertain_post E h e then 1 else 0) + committed_from E (h @ [e]) es"

definition committed :: "env \<Rightarrow> trace \<Rightarrow> nat" where
  "committed E h = committed_from E [] h"

lemma committed_from_append:
  "committed_from E h (t @ t') = committed_from E h t + committed_from E (h @ t) t'"
  by (induction t arbitrary: h) auto

lemma committed_append [simp]: "committed E (h @ t) = committed E h + committed_from E h t"
  by (simp add: committed_def committed_from_append)

lemma committed_snoc: "committed E (h @ [e]) = committed E h + (if uncertain_post E h e then 1 else 0)"
  by (simp add: committed_append)

lemma uncertain_post_other [simp]: "http_of e = None \<Longrightarrow> \<not> uncertain_post E h e"
  by (simp add: uncertain_post_def)

lemma committed_from_no_post: "posts t = [] \<Longrightarrow> committed_from E h t = 0"
proof (induction t arbitrary: h)
  case (Cons e t)
  then show ?case
    by (cases e) (auto simp: posts_def uncertain_post_def http_methods split: if_splits)
qed simp

lemma emits_no_post_committed:
  "emits h h' rs \<Longrightarrow> \<forall>q \<in> set rs. rq_Method q \<noteq> MethodPost \<Longrightarrow> committed E h' = committed E h"
  by (auto simp: emits_def committed_append filter_empty_conv posts_def intro!: committed_from_no_post)

section \<open>The interface of a resource\<close>

text \<open>
  What the controllers rely on, for Templates and Endpoints alike: the lookups change nothing; a
  creation sends at most one POST, and an error that is not \<open>ErrCreateAmbiguous\<close> means that nothing
  was sent or that the peer definitively refused; the mutating calls return only an object with a
  valid identity.
\<close>

locale resource_api =
  fixes get :: "env \<Rightarrow> client \<Rightarrow> string \<Rightarrow> trace \<Rightarrow> 'r result \<times> trace"
    and find_name :: "env \<Rightarrow> client \<Rightarrow> string \<Rightarrow> trace \<Rightarrow> 'r result \<times> trace"
    and create :: "env \<Rightarrow> client \<Rightarrow> 'i \<Rightarrow> trace \<Rightarrow> 'r result \<times> trace"
    and update :: "env \<Rightarrow> client \<Rightarrow> string \<Rightarrow> 'i \<Rightarrow> trace \<Rightarrow> 'r result \<times> trace"
    and del :: "env \<Rightarrow> client \<Rightarrow> string \<Rightarrow> trace \<Rightarrow> error ptr \<times> trace"
    and res_id :: "'r \<Rightarrow> string"
    and res_name :: "'r \<Rightarrow> string"
    and in_name :: "'i \<Rightarrow> string"
    and wf :: "'r \<Rightarrow> bool"
  assumes wf_id: "wf v \<Longrightarrow> valid_id (res_id v)"
    and get_emits: "get E c rid h = (r, h') \<Longrightarrow> emits h h' []"
    and get_ok: "get E c rid h = (Inr v, h') \<Longrightarrow> res_id v = rid \<and> wf v"
    and find_emits: "find_name E c n h = (r, h') \<Longrightarrow> emits h h' []"
    and find_ok: "find_name E c n h = (Inr v, h') \<Longrightarrow> res_name v = n \<and> wf v"
    and create_trace: "create E c i h = (r, h') \<Longrightarrow>
          h' = h \<and> (\<exists>e. r = Inl e \<and> \<not> errors_Is e ErrCreateAmbiguous) \<or>
          (\<exists>q. rq_Method q = MethodPost \<and> h' = h @ [EvHTTP q] \<and>
             (\<forall>e. r = Inl e \<and> \<not> errors_Is e ErrCreateAmbiguous \<longrightarrow> definitive (env_Do E h q)))"
    and create_ok: "create E c i h = (Inr v, h') \<Longrightarrow> res_name v = in_name i \<and> wf v"
    and update_emits: "update E c rid i h = (r, h') \<Longrightarrow>
          emits h h' [] \<and> (\<exists>e. r = Inl e) \<or> (\<exists>q. rq_Method q = MethodPatch \<and> emits h h' [q])"
    and update_ok: "update E c rid i h = (Inr v, h') \<Longrightarrow> res_id v = rid \<and> wf v"
    and del_emits: "del E c rid h = (err, h') \<Longrightarrow>
          (\<exists>rs. emits h h' rs \<and> rq_Method ` set rs \<subseteq> {MethodPatch, MethodDelete})"
    and del_ok: "del E c rid h = (None, h') \<Longrightarrow> (\<exists>rs q. emits h h' (rs @ [q]) \<and> rq_Method q = MethodDelete)"
begin

lemma get_mutations: "get E c rid h = (r, h') \<Longrightarrow> mutations h' = mutations h"
  by (drule get_emits, drule emits_mutations) simp

lemma find_mutations: "find_name E c n h = (r, h') \<Longrightarrow> mutations h' = mutations h"
  by (drule find_emits, drule emits_mutations) simp

lemma create_emits:
  "create E c i h = (r, h') \<Longrightarrow> emits h h' [] \<and> (\<exists>e. r = Inl e) \<or> (\<exists>q. rq_Method q = MethodPost \<and> emits h h' [q])"
  by (drule create_trace) (auto simp: emits_def http_methods)

lemma create_committed:
  assumes "create E c i h = (r, h')"
  shows "committed E h' \<le> Suc (committed E h)"
    and "r = Inl e \<Longrightarrow> \<not> errors_Is e ErrCreateAmbiguous \<Longrightarrow> committed E h' = committed E h"
  using create_trace [OF assms] by (auto simp: committed_snoc uncertain_post_def)

lemma get_committed: "get E c rid h = (r, h') \<Longrightarrow> committed E h' = committed E h"
  by (drule get_emits) (simp add: emits_no_post_committed)

lemma find_committed: "find_name E c n h = (r, h') \<Longrightarrow> committed E h' = committed E h"
  by (drule find_emits) (simp add: emits_no_post_committed)

lemma update_committed: "update E c rid i h = (r, h') \<Longrightarrow> committed E h' = committed E h"
  by (drule update_emits) (auto simp: emits_no_post_committed http_methods)

lemma del_committed: "del E c rid h = (r, h') \<Longrightarrow> committed E h' = committed E h"
  by (drule del_emits) (fastforce intro: emits_no_post_committed simp: http_methods)

lemma create_one_post: "create E c i h = (r, h') \<Longrightarrow> length (posts h') \<le> Suc (length (posts h))"
  by (drule create_emits) (auto dest!: emits_posts)

lemma create_ok_post: "create E c i h = (Inr v, h') \<Longrightarrow> length (posts h') = Suc (length (posts h))"
  by (drule create_emits) (auto dest!: emits_posts)

lemma update_no_post: "update E c rid i h = (r, h') \<Longrightarrow> posts h' = posts h"
  by (drule update_emits) (auto dest!: emits_posts simp: http_methods)

lemma del_no_post: "del E c rid h = (r, h') \<Longrightarrow> posts h' = posts h"
  by (drule del_emits) (fastforce dest!: emits_posts simp: http_methods filter_empty_conv)

lemma find_then_update_no_post:
  "find_name E c n h = (r1, h1) \<Longrightarrow> update E c rid i h1 = (r2, h2) \<Longrightarrow> posts h2 = posts h"
  by (metis find_mutations posts_def update_no_post)

lemma find_then_update_patches:
  assumes "find_name E c n h = (r1, h1)" "update E c rid i h1 = (r2, h2)"
  shows "mutation_methods h2 = mutation_methods h \<or> mutation_methods h2 = mutation_methods h @ [MethodPatch]"
  using find_emits [OF assms(1)] update_emits [OF assms(2)] by (auto dest!: emits_mutation_methods)

end

text \<open>The laws for Templates.\<close>

lemma GetTemplate_emits: "GetTemplate E c rid h = (r, h') \<Longrightarrow> emits h h' []"
  by (auto simp: GetTemplate_def split: sum.splits prod.splits if_splits dest: doJSON_get_emits)

lemma GetTemplate_ok: "GetTemplate E c rid h = (Inr v, h') \<Longrightarrow> rt_ID v = rid \<and> valid_id (rt_ID v)"
  by (auto simp: GetTemplate_def split: sum.splits prod.splits if_splits)

lemma FindTemplateByName_emits: "FindTemplateByName E c n h = (r, h') \<Longrightarrow> emits h h' []"
  by (auto simp: FindTemplateByName_def ListTemplates_def split: sum.splits prod.splits option.splits dest: doJSON_get_emits)

lemma ListTemplates_ok: "ListTemplates E c h = (Inr ts, h') \<Longrightarrow> list_all (\<lambda>t. valid_id (rt_ID t)) ts"
  by (auto simp: ListTemplates_def validate_all_None split: sum.splits prod.splits option.splits)

lemma FindTemplateByName_ok:
  assumes "FindTemplateByName E c n h = (Inr v, h')"
  shows "rt_Name v = n \<and> valid_id (rt_ID v)"
proof -
  from assms obtain ts where ts: "ListTemplates E c h = (Inr ts, h')" "find_unique rt_Name n ts None = Inr v"
    by (auto simp: FindTemplateByName_def split: sum.splits prod.splits)
  from ts(2) have "v \<in> set ts" "rt_Name v = n"
    unfolding find_unique_Inr by (auto dest: filter_eq_Cons_single)
  with ListTemplates_ok [OF ts(1)] show ?thesis by (simp add: list_all_iff)
qed

lemma methods_distinct [simp]:
  "MethodPost \<noteq> MethodGet" "MethodPatch \<noteq> MethodGet" "MethodDelete \<noteq> MethodGet"
  "MethodPost \<noteq> MethodPatch" "MethodPost \<noteq> MethodDelete" "MethodPatch \<noteq> MethodPost" "MethodDelete \<noteq> MethodPost"
  "MethodPatch \<noteq> MethodDelete" "MethodDelete \<noteq> MethodPatch"
  by (simp_all add: http_methods)

lemma CreateTemplate_trace:
  assumes "CreateTemplate E c i h = (r, h')"
  shows "h' = h \<and> (\<exists>e. r = Inl e \<and> \<not> errors_Is e ErrCreateAmbiguous) \<or>
    (\<exists>q. rq_Method q = MethodPost \<and> h' = h @ [EvHTTP q] \<and>
       (\<forall>e. r = Inl e \<and> \<not> errors_Is e ErrCreateAmbiguous \<longrightarrow> definitive (env_Do E h q)))"
proof -
  let ?i = "Some (encode_template_input (normalizeTemplateInput i))"
  obtain r0 h1 where d: "doJSON E c MethodPost ''/templates'' ?i (Some decode_template) zero_template h = (r0, h1)"
    by fastforce
  with assms have "h1 = h'" "\<And>e. r0 = Inl e \<Longrightarrow> r = Inl e"
    "\<And>v. r0 = Inr v \<Longrightarrow> r = Inr v \<or> (\<exists>e. r = Inl e \<and> errors_Is e ErrCreateAmbiguous)"
    by (auto simp: CreateTemplate_def Let_def split: sum.splits if_splits)
  with doJSON_post_trace [OF d] show ?thesis
    by (cases r0) (auto intro!: exI [of _ "request c MethodPost ''/templates'' ?i"])
qed

lemma CreateTemplate_ok: "CreateTemplate E c i h = (Inr v, h') \<Longrightarrow> rt_Name v = ti_Name i \<and> valid_id (rt_ID v)"
  by (auto simp: CreateTemplate_def Let_def split: prod.splits sum.splits if_splits)

text \<open>An update is one PATCH, and one more lookup when the answer lacks fields.\<close>

lemma patch_then_get_emits:
  assumes "doJSON E c MethodPatch p i dec out h = (Inr v, h1)" "emits h1 h' []"
  shows "\<exists>q. rq_Method q = MethodPatch \<and> emits h h' [q]"
  using emits_trans [OF doJSON_nonGET_Inr_emits [OF _ assms(1)] assms(2)]
  by (intro exI [of _ "request c MethodPatch p i"]) simp

lemma UpdateTemplate_emits:
  assumes "UpdateTemplate E c rid i h = (r, h')"
  shows "emits h h' [] \<and> (\<exists>e. r = Inl e) \<or> (\<exists>q. rq_Method q = MethodPatch \<and> emits h h' [q])"
proof (cases "valid_id rid")
  case False
  with assms show ?thesis by (auto simp: UpdateTemplate_def safeID_eq split: sum.splits)
next
  case True
  let ?i = "normalizeTemplateInput (i\<lparr>ti_IsServerless := False\<rparr>)"
  obtain r0 h1 where d: "doJSON E c MethodPatch (''/templates/'' @ rid)
      (Some (encode_template_update_input (templateUpdateInput ?i))) (Some decode_template) zero_template h = (r0, h1)"
    by fastforce
  show ?thesis
  proof (cases r0)
    case (Inl e)
    with d True assms have "r = Inl e" "h1 = h'" by (auto simp: UpdateTemplate_def Let_def)
    with doJSON_nonGET_emits [OF methods_distinct(2) d] show ?thesis by (auto intro: exI [of _ "request _ _ _ _"])
  next
    case (Inr v)
    with d True assms have "emits h1 h' []"
      by (auto simp: UpdateTemplate_def Let_def split: if_splits dest: GetTemplate_emits)
    with patch_then_get_emits [OF d [unfolded Inr]] show ?thesis by blast
  qed
qed

lemma UpdateTemplate_ok: "UpdateTemplate E c rid i h = (Inr v, h') \<Longrightarrow> rt_ID v = rid \<and> valid_id (rt_ID v)"
  by (auto simp: UpdateTemplate_def Let_def split: sum.splits prod.splits if_splits dest: GetTemplate_ok)

lemma doJSON_err_emits:
  assumes "doJSON_err E c m p i h = (err, h')" "m \<noteq> MethodGet"
  shows "emits h h' [] \<and> (\<exists>e. err = Some (wrap_text ''create RunPod request'' (TransportErr e))) \<or> emits h h' [request c m p i]"
proof -
  obtain r where "doJSON E c m p i None () h = (r, h')" "err = (case r of Inl e \<Rightarrow> Some e | Inr _ \<Rightarrow> None)"
    using assms(1) by (auto simp: doJSON_err_def split: prod.splits sum.splits)
  with doJSON_nonGET_emits [OF assms(2) this(1)] show ?thesis by auto
qed

lemma doJSON_err_None: "doJSON_err E c m p i h = (None, h') \<Longrightarrow> m \<noteq> MethodGet \<Longrightarrow> emits h h' [request c m p i]"
  by (drule (1) doJSON_err_emits) auto

lemma DeleteTemplate_emits:
  "DeleteTemplate E c rid h = (err, h') \<Longrightarrow> (\<exists>rs. emits h h' rs \<and> rq_Method ` set rs \<subseteq> {MethodPatch, MethodDelete})"
  by (auto simp: DeleteTemplate_def split: sum.splits dest!: doJSON_err_emits intro: exI [of _ "[request _ _ _ _]"] exI [of _ "[]"])

lemma DeleteTemplate_ok:
  "DeleteTemplate E c rid h = (None, h') \<Longrightarrow> (\<exists>rs q. emits h h' (rs @ [q]) \<and> rq_Method q = MethodDelete)"
  by (auto simp: DeleteTemplate_def split: sum.splits dest!: doJSON_err_None intro!: exI [of _ "[]"] exI [of _ "request _ _ _ _"])

interpretation templates: resource_api GetTemplate FindTemplateByName CreateTemplate UpdateTemplate DeleteTemplate
  rt_ID rt_Name ti_Name "\<lambda>t. valid_id (rt_ID t)"
  by unfold_locales
    (fact GetTemplate_emits GetTemplate_ok FindTemplateByName_emits FindTemplateByName_ok CreateTemplate_trace
      CreateTemplate_ok UpdateTemplate_emits UpdateTemplate_ok DeleteTemplate_emits DeleteTemplate_ok
     | assumption)+

text \<open>The laws for Endpoints.\<close>

lemma GetEndpoint_emits: "GetEndpoint E c rid h = (r, h') \<Longrightarrow> emits h h' []"
  by (auto simp: GetEndpoint_def split: sum.splits prod.splits if_splits dest: doJSON_get_emits)

lemma GetEndpoint_ok: "GetEndpoint E c rid h = (Inr v, h') \<Longrightarrow> re_ID v = rid \<and> endpoint_wf v"
  by (auto simp: GetEndpoint_def split: sum.splits prod.splits if_splits)

lemma FindEndpointByName_emits: "FindEndpointByName E c n h = (r, h') \<Longrightarrow> emits h h' []"
  by (auto simp: FindEndpointByName_def ListEndpoints_def split: sum.splits prod.splits option.splits dest: doJSON_get_emits)

lemma ListEndpoints_ok: "ListEndpoints E c h = (Inr es, h') \<Longrightarrow> list_all endpoint_wf es"
  by (auto simp: ListEndpoints_def validate_all_None split: sum.splits prod.splits option.splits)

lemma FindEndpointByName_ok:
  assumes "FindEndpointByName E c n h = (Inr v, h')"
  shows "re_Name v = n \<and> endpoint_wf v"
proof -
  from assms obtain es where es: "ListEndpoints E c h = (Inr es, h')" "find_unique re_Name n es None = Inr v"
    by (auto simp: FindEndpointByName_def split: sum.splits prod.splits)
  from es(2) have "v \<in> set es" "re_Name v = n"
    unfolding find_unique_Inr by (auto dest: filter_eq_Cons_single)
  with ListEndpoints_ok [OF es(1)] show ?thesis by (simp add: list_all_iff)
qed

lemma CreateEndpoint_trace:
  assumes "CreateEndpoint E c i h = (r, h')"
  shows "h' = h \<and> (\<exists>e. r = Inl e \<and> \<not> errors_Is e ErrCreateAmbiguous) \<or>
    (\<exists>q. rq_Method q = MethodPost \<and> h' = h @ [EvHTTP q] \<and>
       (\<forall>e. r = Inl e \<and> \<not> errors_Is e ErrCreateAmbiguous \<longrightarrow> definitive (env_Do E h q)))"
proof (cases "valid_id (ei_TemplateID i)")
  case False
  with assms show ?thesis by (auto simp: CreateEndpoint_def)
next
  case True
  let ?i = "Some (encode_endpoint_input (normalizeEndpointInput i))"
  obtain r0 h1 where d: "doJSON E c MethodPost ''/endpoints'' ?i (Some Endpoint_UnmarshalJSON) zero_endpoint h = (r0, h1)"
    by fastforce
  with True assms have "h1 = h'" "\<And>e. r0 = Inl e \<Longrightarrow> r = Inl e"
    "\<And>v. r0 = Inr v \<Longrightarrow> r = Inr v \<or> (\<exists>e. r = Inl e \<and> errors_Is e ErrCreateAmbiguous)"
    by (auto simp: CreateEndpoint_def Let_def split: sum.splits if_splits)
  with doJSON_post_trace [OF d] show ?thesis
    by (cases r0) (auto intro!: exI [of _ "request c MethodPost ''/endpoints'' ?i"])
qed

lemma CreateEndpoint_template_valid: "CreateEndpoint E c i h = (r, h') \<Longrightarrow> h' \<noteq> h \<Longrightarrow> valid_id (ei_TemplateID i)"
  by (auto simp: CreateEndpoint_def split: option.splits)

lemma CreateEndpoint_ok: "CreateEndpoint E c i h = (Inr v, h') \<Longrightarrow> re_Name v = ei_Name i \<and> endpoint_wf v"
  by (auto simp: CreateEndpoint_def Let_def split: prod.splits sum.splits if_splits option.splits)

lemma CreateEndpoint_template: "CreateEndpoint E c i h = (Inr v, h') \<Longrightarrow> re_TemplateID v = ei_TemplateID i"
  by (auto simp: CreateEndpoint_def Let_def split: prod.splits sum.splits if_splits option.splits)

lemma UpdateEndpoint_emits:
  assumes "UpdateEndpoint E c rid i h = (r, h')"
  shows "emits h h' [] \<and> (\<exists>e. r = Inl e) \<or> (\<exists>q. rq_Method q = MethodPatch \<and> emits h h' [q])"
proof (cases "valid_id rid \<and> valid_id (ei_TemplateID i)")
  case False
  with assms show ?thesis by (auto simp: UpdateEndpoint_def safeID_eq split: sum.splits option.splits)
next
  case True
  let ?u = "Some (encode_endpoint_update_input (endpointUpdateInput (normalizeEndpointInput i)))"
  obtain r0 h1 where d: "doJSON E c MethodPatch (''/endpoints/'' @ rid) ?u (Some Endpoint_UnmarshalJSON) zero_endpoint h = (r0, h1)"
    by fastforce
  show ?thesis
  proof (cases r0)
    case (Inl e)
    with d True assms have "r = Inl e" "h1 = h'" by (auto simp: UpdateEndpoint_def Let_def)
    with doJSON_nonGET_emits [OF methods_distinct(2) d] show ?thesis by (auto intro: exI [of _ "request _ _ _ _"])
  next
    case (Inr v)
    with d True assms have "emits h1 h' []"
      by (auto simp: UpdateEndpoint_def Let_def split: if_splits dest: GetEndpoint_emits)
    with patch_then_get_emits [OF d [unfolded Inr]] show ?thesis by blast
  qed
qed

lemma UpdateEndpoint_ok: "UpdateEndpoint E c rid i h = (Inr v, h') \<Longrightarrow> re_ID v = rid \<and> endpoint_wf v"
  by (auto simp: UpdateEndpoint_def Let_def split: sum.splits prod.splits if_splits option.splits dest: GetEndpoint_ok)

lemma handle_doErr_not_NotFound: "handle_doErr m a s = Done (Inl e) \<Longrightarrow> \<not> errors_Is e ErrNotFound"
  by (auto simp: handle_doErr_def errors_Is_wrap_text split: if_splits)

lemma handle_response_NotFound:
  assumes "handle_response MethodPatch a None () resp = Done (Inl e)" "errors_Is e ErrNotFound"
  shows "rs_StatusCode resp = 404"
  using assms
  by (auto simp: handle_response_def handle_body_def postAmbiguous_def Let_def errors_Is_wrap_text
      split: prod.splits option.splits if_splits)

lemma doJSON_err_go_on:
  assumes "doJSON_err E c MethodPatch p i h = (err, h')" "err = None \<or> (\<exists>e. err = Some e \<and> errors_Is e ErrNotFound)"
  shows "emits h h' [request c MethodPatch p i]
    \<and> (\<exists>resp. env_Do E h (request c MethodPatch p i) = Resp resp
         \<and> (rs_StatusCode resp = 404 \<or> 200 \<le> rs_StatusCode resp \<and> rs_StatusCode resp < 300))"
proof -
  obtain r where r: "doJSON E c MethodPatch p i None () h = (r, h')" "err = (case r of Inl e \<Rightarrow> Some e | Inr _ \<Rightarrow> None)"
    using assms(1) by (auto simp: doJSON_err_def split: prod.splits sum.splits)
  from methods_distinct(2) r(1) show ?thesis
  proof (cases rule: doJSON_nonGET)
    case (unsent e)
    with r assms(2) show ?thesis by (auto simp: errors_Is_wrap_text)
  next
    case sent
    have "emits h h' [request c MethodPatch p i]" using sent(1) by (simp add: emits_def)
    with sent(2) r(2) assms(2) show ?thesis
      by (cases r) (auto split: http_result.splits dest: handle_doErr_not_NotFound handle_response_NotFound
          dest!: handle_response_Inr simp: accepted_def, auto simp: handle_doErr_def split: if_splits)
  qed
qed

lemma DeleteEndpoint_trace:
  assumes "DeleteEndpoint E c rid h = (err, h')"
    and "patch = request c MethodPatch (''/endpoints/'' @ rid) (Some zero_workers)"
    and "delete = request c MethodDelete (''/endpoints/'' @ rid) None"
  shows "(emits h h' [] \<or> emits h h' [patch]) \<and> err \<noteq> None \<or>
     (emits h h' [patch] \<and> err \<noteq> None \<or> emits h h' [patch, delete])
       \<and> (\<exists>resp. env_Do E h patch = Resp resp \<and> (rs_StatusCode resp = 404 \<or> 200 \<le> rs_StatusCode resp \<and> rs_StatusCode resp < 300))"
proof (cases "valid_id rid")
  case False
  with assms show ?thesis by (auto simp: DeleteEndpoint_def safeID_eq split: sum.splits)
next
  case True
  obtain err1 h1 where p: "doJSON_err E c MethodPatch (''/endpoints/'' @ rid) (Some zero_workers) h = (err1, h1)" by fastforce
  show ?thesis
  proof (cases "err1 = None \<or> (\<exists>e. err1 = Some e \<and> errors_Is e ErrNotFound)")
    case go: True
    with True p assms(1) have d: "doJSON_err E c MethodDelete (''/endpoints/'' @ rid) None h1 = (err, h')"
      by (auto simp: DeleteEndpoint_def)
    from doJSON_err_go_on [OF p go] doJSON_err_emits [OF d] assms(2,3) show ?thesis
      using emits_trans [of h h1 "[patch]" h' "[]"] emits_trans [of h h1 "[patch]" h' "[delete]"] by auto
  next
    case False
    then obtain e where e: "err1 = Some e" "\<not> errors_Is e ErrNotFound" by auto
    with True p assms(1) have "err = Some e" "h' = h1" by (auto simp: DeleteEndpoint_def)
    with doJSON_err_emits [OF p] assms(2) show ?thesis by auto
  qed
qed

text \<open>When requests can be built, the PATCH is sent.\<close>

lemma doJSON_err_sends:
  assumes "doJSON_err E c m p i h = (err, h')" "m \<noteq> MethodGet" "\<And>m u. env_NewRequest E m u = None"
  shows "h' = h @ [EvHTTP (request c m p i)]"
proof -
  obtain r where "doJSON E c m p i None () h = (r, h')" using assms(1) by (auto simp: doJSON_err_def split: prod.splits sum.splits)
  with assms(2) show ?thesis by (cases rule: doJSON_nonGET) (use assms(3) in auto)
qed

lemma DeleteEndpoint_patches:
  assumes "DeleteEndpoint E c rid h = (err, h')" "valid_id rid" "\<And>m u. env_NewRequest E m u = None"
  obtains rest where "mutations h' = mutations h @ request c MethodPatch (''/endpoints/'' @ rid) (Some zero_workers) # rest"
proof -
  let ?p = "''/endpoints/'' @ rid" and ?w = "Some zero_workers"
  let ?h1 = "h @ [EvHTTP (request c MethodPatch ?p ?w)]"
  obtain err1 where "doJSON_err E c MethodPatch ?p ?w h = (err1, ?h1)"
    using doJSON_err_sends [OF _ methods_distinct(2) assms(3)] by (metis prod.collapse)
  then have "h' = ?h1 \<or> (\<exists>e. doJSON_err E c MethodDelete ?p None ?h1 = (e, h'))"
    using assms(1,2) by (auto simp: DeleteEndpoint_def safeID_eq split: option.splits if_splits)
  then have "\<exists>t. mutations h' = mutations ?h1 @ t"
    using emits_mutations doJSON_err_emits [of E c MethodDelete ?p None ?h1] methods_distinct by fastforce
  with that show thesis by (auto simp: methods_distinct)
qed

lemma DeleteEndpoint_emits:
  assumes "DeleteEndpoint E c rid h = (err, h')"
  shows "\<exists>rs. emits h h' rs \<and> rq_Method ` set rs \<subseteq> {MethodPatch, MethodDelete}"
proof -
  let ?p = "request c MethodPatch (''/endpoints/'' @ rid) (Some zero_workers)"
    and ?d = "request c MethodDelete (''/endpoints/'' @ rid) None"
  from DeleteEndpoint_trace [OF assms refl refl] obtain rs where "emits h h' rs" "rs \<in> {[], [?p], [?p, ?d]}"
    by blast
  then show ?thesis by (intro exI [of _ rs]) auto
qed

lemma DeleteEndpoint_ok:
  "DeleteEndpoint E c rid h = (None, h') \<Longrightarrow> (\<exists>rs q. emits h h' (rs @ [q]) \<and> rq_Method q = MethodDelete)"
  by (drule DeleteEndpoint_trace [OF _ refl refl])
     (auto intro!: exI [of _ "[request _ _ _ _]"] exI [of _ "request _ MethodDelete _ _"])

interpretation endpoints: resource_api GetEndpoint FindEndpointByName CreateEndpoint UpdateEndpoint DeleteEndpoint
  re_ID re_Name ei_Name endpoint_wf
  by unfold_locales
    (fact endpoint_wf_id GetEndpoint_emits GetEndpoint_ok FindEndpointByName_emits FindEndpointByName_ok CreateEndpoint_trace
      CreateEndpoint_ok UpdateEndpoint_emits UpdateEndpoint_ok DeleteEndpoint_emits DeleteEndpoint_ok)+

section \<open>Properties\<close>

lemma maxAttempts_Suc: "maxAttempts = Suc (Suc (Suc (Suc 0)))"
  by (simp add: maxAttempts_def)

lemma handle_response_complete:
  "int (length (rs_Body resp)) \<le> maxBodyBytes \<Longrightarrow> rs_ReadErr resp = None \<Longrightarrow> rs_CloseErr resp = None \<Longrightarrow>
     handle_response m a dec out resp = handle_body m a dec out resp (rs_Body resp)"
  by (simp add: handle_response_def ReadAll_limited_def)

text \<open>
  C32: one call never repeats a chargeable or lifecycle-changing request. Whatever the peer answers,
  a call sends the same request at most four times, and at most once unless it is a GET; the
  request goes to the client's base URL and carries its key.
\<close>

theorem doJSON_wire:
  assumes "doJSON E c httpMethod path input dec out h = (r, h')"
  shows "\<exists>t k. h' = h @ t \<and> http_requests t = replicate k (request c httpMethod path input)
    \<and> k \<le> 4 \<and> (httpMethod \<noteq> MethodGet \<longrightarrow> k \<le> 1)"
  using doJSON_loop_trace [OF assms [unfolded doJSON_def]] unfolding maxAttempts_def by blast

definition demo_client :: client where
  "demo_client = \<lparr>cl_baseURL = ''https://rest.runpod.io/v1'', cl_apiKey = ''key''\<rparr>"

definition down_env :: env where
  "down_env = scripted_env (\<lambda>_. DoErr ''connection reset'') 1"

theorem doJSON_wire_witness:
  "\<exists>r h' t k. doJSON down_env demo_client MethodGet ''/templates'' None None () [] = (r, h')
     \<and> h' = t \<and> http_requests t = replicate k (request demo_client MethodGet ''/templates'' None) \<and> k \<le> 4"
proof -
  obtain r h' where d: "doJSON down_env demo_client MethodGet ''/templates'' None None () [] = (r, h')" by fastforce
  from doJSON_wire [OF d] d show ?thesis by auto
qed

text \<open>
  C31: a failed creation is reported as unambiguous only when it is. If a POST fails with an error
  that does not wrap \<open>ErrCreateAmbiguous\<close>, then either no request left the process, or exactly one
  did and the peer answered it in full: the body, of at most 1 MiB, was read to its end and closed
  without an error, and the status is neither 2xx nor 429 nor 5xx.
\<close>

theorem doJSON_post_definite:
  assumes "doJSON E c MethodPost path input dec out h = (Inl err, h')"
    and "\<not> errors_Is err ErrCreateAmbiguous"
  shows "h' = h
    \<or> h' = h @ [EvHTTP (request c MethodPost path input)]
      \<and> (\<exists>resp. env_Do E h (request c MethodPost path input) = Resp resp
           \<and> rs_ReadErr resp = None \<and> rs_CloseErr resp = None \<and> length (rs_Body resp) \<le> 1048576
           \<and> rs_StatusCode resp \<noteq> 429 \<and> rs_StatusCode resp < 500
           \<and> \<not> (200 \<le> rs_StatusCode resp \<and> rs_StatusCode resp < 300))"
  using doJSON_post_trace [OF assms(1)] assms(2) by (auto simp: definitive_def refused_status_def retryable_def maxBodyBytes_def)

definition refusing_env :: env where
  "refusing_env = scripted_env (\<lambda>_. plain_response 400 ''bad'') 1"

theorem doJSON_post_definite_witness:
  "\<exists>err h'. doJSON refusing_env demo_client MethodPost ''/templates'' None None () [] = (Inl err, h')
     \<and> \<not> errors_Is err ErrCreateAmbiguous
     \<and> (h' = [] \<or> h' = [EvHTTP (request demo_client MethodPost ''/templates'' None)])"
proof -
  have d: "doJSON refusing_env demo_client MethodPost ''/templates'' None None () [] =
      (Inl (APIError 400 []), [EvHTTP (request demo_client MethodPost ''/templates'' None)])"
    by (simp add: doJSON_def maxAttempts_Suc Let_def refusing_env_def scripted_env_def plain_response_def
        handle_response_complete maxBodyBytes_def handle_body_def retryable_def requestID_def
        Header_Get_def safeRequestID_def map_get_def)
  from doJSON_post_definite [OF d] d show ?thesis by auto
qed

text \<open>
  C36: a creation that reports success created what was asked for. \<open>CreateEndpoint\<close> then sent exactly
  one POST, and the Endpoint it returns has a valid identifier, the requested name and template,
  both worker bounds and the rollout version, the bound template and workers that carry this
  Endpoint's identity.
\<close>

theorem CreateEndpoint_sound:
  assumes "CreateEndpoint E c input h = (Inr ep, h')"
  shows "length (posts h') = Suc (length (posts h)) \<and> mutation_methods h' = mutation_methods h @ [MethodPost]
    \<and> re_Name ep = ei_Name input \<and> re_TemplateID ep = ei_TemplateID input \<and> endpoint_wf ep"
proof -
  from endpoints.create_emits [OF assms] obtain q where "rq_Method q = MethodPost" "emits h h' [q]" by auto
  then have "mutation_methods h' = mutation_methods h @ [MethodPost]" by (simp add: emits_mutation_methods)
  with endpoints.create_ok_post [OF assms] endpoints.create_ok [OF assms] CreateEndpoint_template [OF assms]
  show ?thesis by simp
qed

text \<open>A peer that creates or returns one Endpoint.\<close>

definition demo_endpoint_text :: string where
  "demo_endpoint_text = map (\<lambda>ch. if ch = CHR ''~'' then CHR 0x22 else ch)
     ''{~id~:~ep1~,~name~:~demo~,~templateId~:~t1~,~workersMin~:1,~workersMax~:1,~version~:3,~workers~:[],~template~:{~id~:~t1~}}''"

definition demo_endpoint :: rp_endpoint where
  "demo_endpoint = zero_endpoint\<lparr>re_ID := ''ep1'', re_Name := ''demo'', re_TemplateID := ''t1'', re_WorkersMin := Some 1,
     re_WorkersMax := Some 1, re_Version := Some 3, re_Workers := Some [], re_Template := Some (zero_template\<lparr>rt_ID := ''t1''\<rparr>)\<rparr>"

definition serving_env :: env where
  "serving_env = scripted_env (\<lambda>_. plain_response 200 demo_endpoint_text) 1"

definition demo_endpoint_input :: endpoint_input where
  "demo_endpoint_input = \<lparr>ei_Name = ''demo'', ei_TemplateID = ''t1'', ei_ComputeType = ''GPU'', ei_GPUCount = 1,
     ei_GPUTypeIDs = Some [''NVIDIA L4''], ei_AllowedCUDAVersions = None, ei_DataCenterIDs = Some [''EU-RO-1''], ei_WorkersMin = 1,
     ei_WorkersMax = 1, ei_IdleTimeout = 5, ei_ScalerType = ''QUEUE_DELAY'', ei_ScalerValue = 4, ei_ExecutionTimeoutMS = 1000,
     ei_FlashBoot = False, ei_NetworkVolumeID = [], ei_NetworkVolumeIDs = None, ei_MinCUDAVersion = []\<rparr>"

lemma serving_decode:
  "json_parse demo_endpoint_text \<noteq> None \<and> Endpoint_UnmarshalJSON (the (json_parse demo_endpoint_text)) zero_endpoint = Inr demo_endpoint
   \<and> int (length demo_endpoint_text) \<le> maxBodyBytes \<and> TrimSpace demo_endpoint_text \<noteq> [] \<and> endpoint_wf demo_endpoint"
proof (intro conjI)
  show "int (length demo_endpoint_text) \<le> maxBodyBytes" by (simp add: demo_endpoint_text_def maxBodyBytes_def)
  show "endpoint_wf demo_endpoint" unfolding validateEndpointObservation_None [symmetric] by code_simp
qed (code_simp)+

lemma CreateEndpoint_serving:
  "\<exists>h'. CreateEndpoint serving_env demo_client demo_endpoint_input [] = (Inr demo_endpoint, h')"
proof -
  have v: "valid_id (ei_TemplateID demo_endpoint_input)"
    unfolding ValidateRunPodID_None [symmetric] by code_simp
  show ?thesis
    using serving_decode
    by (auto simp: v CreateEndpoint_def Let_def doJSON_def maxAttempts_Suc serving_env_def scripted_env_def plain_response_def
        handle_response_complete handle_body_def retryable_def) (simp_all add: demo_endpoint_def demo_endpoint_input_def)
qed

theorem CreateEndpoint_sound_witness:
  "\<exists>h'. CreateEndpoint serving_env demo_client demo_endpoint_input [] = (Inr demo_endpoint, h')
     \<and> mutation_methods h' = [MethodPost] \<and> re_Name demo_endpoint = ''demo''"
proof -
  obtain h' where "CreateEndpoint serving_env demo_client demo_endpoint_input [] = (Inr demo_endpoint, h')"
    using CreateEndpoint_serving by blast
  with CreateEndpoint_sound [OF this] show ?thesis by (auto simp: demo_endpoint_input_def)
qed

text \<open>
  C37: deletion scales down first. \<open>DeleteEndpoint\<close> sends nothing, or a PATCH that sets both worker
  bounds to zero, or that PATCH and then the DELETE; the DELETE is sent only after the peer
  answered the PATCH with 404 or a 2xx status, and success means that both were sent.
\<close>

theorem DeleteEndpoint_scales_down:
  assumes "DeleteEndpoint E c rid h = (err, h')"
  defines "patch \<equiv> request c MethodPatch (''/endpoints/'' @ rid) (Some zero_workers)"
    and "delete \<equiv> request c MethodDelete (''/endpoints/'' @ rid) None"
  shows "(\<exists>rs. emits h h' rs \<and> rs \<in> {[], [patch], [patch, delete]} \<and> (err = None \<longrightarrow> rs = [patch, delete])
      \<and> (delete \<in> set rs \<longrightarrow>
           (\<exists>resp. env_Do E h patch = Resp resp \<and> (rs_StatusCode resp = 404 \<or> 200 \<le> rs_StatusCode resp \<and> rs_StatusCode resp < 300))))
    \<and> rq_Body patch = [CHR ''{'', CHR 0x22] @ ''workersMin'' @ [CHR 0x22, CHR '':'', CHR ''0'', CHR '','', CHR 0x22] @ ''workersMax'' @ [CHR 0x22, CHR '':'', CHR ''0'', CHR ''}'']"
proof -
  have body: "rq_Body patch = [CHR ''{'', CHR 0x22] @ ''workersMin'' @ [CHR 0x22, CHR '':'', CHR ''0'', CHR '','', CHR 0x22] @ ''workersMax'' @ [CHR 0x22, CHR '':'', CHR ''0'', CHR ''}'']"
    unfolding patch_def request_simps zero_workers_def by code_simp
  have "delete \<noteq> patch"
    unfolding patch_def delete_def by (metis methods_distinct(9) request_simps(1))
  with body DeleteEndpoint_trace [OF assms(1), folded patch_def delete_def, OF refl refl] show ?thesis
    by (intro conjI) (auto 4 3 intro: exI [of _ "[]"] exI [of _ "[patch]"] exI [of _ "[patch, delete]"])
qed

theorem DeleteEndpoint_scales_down_witness:
  "\<exists>err h' rs. DeleteEndpoint serving_env demo_client ''ep1'' [] = (err, h') \<and> emits [] h' rs
     \<and> rs \<in> {[], [request demo_client MethodPatch ''/endpoints/ep1'' (Some zero_workers)],
              [request demo_client MethodPatch ''/endpoints/ep1'' (Some zero_workers), request demo_client MethodDelete ''/endpoints/ep1'' None]}"
proof -
  obtain err h' where d: "DeleteEndpoint serving_env demo_client ''ep1'' [] = (err, h')" by fastforce
  from DeleteEndpoint_scales_down [OF d] d show ?thesis by auto
qed

text \<open>
  The lookup by name is exact and unique: it returns the Endpoint of that name when the list
  has exactly one, \<open>ErrNotFound\<close> when it has none and \<open>ErrAmbiguous\<close> when it has several.
\<close>

theorem FindEndpointByName_spec:
  "FindEndpointByName E c name h =
     (case ListEndpoints E c h of
        (Inl err, h') \<Rightarrow> (Inl err, h')
      | (Inr eps, h') \<Rightarrow>
          (case filter (\<lambda>e. re_Name e = name) eps of
             [] \<Rightarrow> (Inl ErrNotFound, h') | [e] \<Rightarrow> (Inr e, h') | _ \<Rightarrow> (Inl ErrAmbiguous, h')))"
  by (auto simp: FindEndpointByName_def find_unique_spec split: prod.splits sum.splits list.splits)

lemma sint_seconds_product:
  "0 < n \<Longrightarrow> n \<le> 9223372036 \<Longrightarrow> sint (word_of_int n * Second) = n * 1000000000"
  unfolding Second_def
  using sint_word_of_int_64 [of "n * 1000000000"] by (simp add: wi_hom_mult [symmetric])

text \<open>
  The pause before a retry is between 100 milliseconds and ten seconds whenever the peer's
  Retry-After header is not a number of seconds beyond the range of a duration.
\<close>

theorem backoff_bounds:
  assumes "attempt < 4" "\<forall>n. Atoi retryAfter = Some n \<longrightarrow> n \<le> 9223372036"
  shows "10 ^ 8 \<le> sint (backoff attempt retryAfter) \<and> sint (backoff attempt retryAfter) \<le> 10 ^ 10"
proof -
  have ten: "sint (10 * Second) = 10 ^ 10" by (simp add: Second_def)
  have "attempt \<in> {0, 1, 2, 3}" using assms(1) by auto
  then have fb: "sint (push_bit attempt 1 * 100 * Millisecond) \<in> {10 ^ 8, 2 * 10 ^ 8, 4 * 10 ^ 8, 8 * 10 ^ 8}"
    by (auto simp: Millisecond_def)
  show ?thesis
  proof (cases "\<exists>n. Atoi retryAfter = Some n \<and> 0 < n")
    case True
    then obtain n where n: "Atoi retryAfter = Some n" "0 < n" "n \<le> 9223372036" using assms(2) by auto
    then show ?thesis by (simp add: backoff_def Let_def dur_less_def sint_seconds_product ten)
  next
    case False
    then have "backoff attempt retryAfter = push_bit attempt 1 * 100 * Millisecond"
      by (auto simp: backoff_def Let_def split: option.splits)
    with fb show ?thesis by auto
  qed
qed

text \<open>
  Beyond that range the multiplication by \<open>time.Second\<close> wraps: a Retry-After of 9223372037
  seconds, about 292 years, becomes a negative pause, which is no pause at all, although the code
  caps the pause at ten seconds.
\<close>

theorem backoff_wraps: "sint (backoff attempt ''9223372037'') = - 9223372036709551616"
proof -
  have a: "Atoi ''9223372037'' = Some 9223372037" by code_simp
  have "sint (word_of_int 9223372037 * Second) = - 9223372036709551616"
    by (simp add: Second_def)
  then show ?thesis by (simp add: backoff_def a Let_def dur_less_def Second_def)
qed

end
