(* ===== verification/Management.thy ===== *)
theory Management
  imports RunpodClient Credentials
begin

text \<open>
  \<open>internal/controller/management/connect.go\<close>, the credential boundary of the declarative
  controllers, and what the Template and the Endpoint controller share in shape: the result types
  of Crossplane's external client, the UID-scoped external name, the annotations that bind an
  external identifier, and the lifetime check. The two controllers have their own copies of these
  functions; their theories instantiate the definitions below.
\<close>

section \<open>Connecting\<close>

definition usage_Track :: "env \<Rightarrow> trace \<Rightarrow> error ptr \<times> trace" where
  "usage_Track E h = (map_option TransportErr (env_Track E h), h @ [EvTrack])"

definition get_ProviderConfig :: "env \<Rightarrow> string \<Rightarrow> string \<Rightarrow> trace \<Rightarrow> provider_credentials result \<times> trace" where
  "get_ProviderConfig E ns n h = (map_sum kube_err id (env_GetProviderConfig E h ns n), h @ [EvGet KProviderConfig ns n])"

definition get_ClusterProviderConfig :: "env \<Rightarrow> string \<Rightarrow> trace \<Rightarrow> provider_credentials result \<times> trace" where
  "get_ClusterProviderConfig E n h =
     (map_sum kube_err id (env_GetClusterProviderConfig E h n), h @ [EvGet KClusterProviderConfig [] n])"

definition loadCredential :: "env \<Rightarrow> provider_credentials \<Rightarrow> trace \<Rightarrow> string result \<times> trace" where
  "loadCredential E cd h =
     (case pc_SecretRef cd of
        None \<Rightarrow> (Inl (Err ''ProviderConfig credentials must use a Secret''), h)
      | Some ref \<Rightarrow>
          if pc_Source cd \<noteq> ''Secret'' then (Inl (Err ''ProviderConfig credentials must use a Secret''), h)
          else (case get_Secret E (sr_Namespace ref) (sr_Name ref) h of
             (Inl _, h') \<Rightarrow> (Inl (Err ''cannot read management credential Secret''), h')
           | (Inr secret, h') \<Rightarrow>
               (case RequirePurpose (Some secret) PurposeManagement of
                  Some err \<Rightarrow> (Inl err, h')
                | None \<Rightarrow>
                    (case sec_Data secret (sr_Key ref) of
                       None \<Rightarrow> (Inl (Err ''management credential Secret key is absent''), h')
                     | Some data \<Rightarrow> (Inr data, h')))))"

definition providerCredentials :: "env \<Rightarrow> 'a managed_scheme \<Rightarrow> provider_config_reference \<Rightarrow> trace \<Rightarrow> provider_credentials result \<times> trace" where
  "providerCredentials E cr ref h =
     (if pcr_Kind ref = ''ProviderConfig'' then
        (case get_ProviderConfig E (om_Namespace (mg_Meta cr)) (pcr_Name ref) h of
           (Inl err, h') \<Rightarrow> (Inl err, h')
         | (Inr cd, h') \<Rightarrow>
             (case pc_SecretRef cd of
                None \<Rightarrow> (Inl (Err ''namespaced ProviderConfig secret must be in the managed resource namespace''), h')
              | Some sref \<Rightarrow>
                  if sr_Namespace sref \<noteq> om_Namespace (mg_Meta cr)
                  then (Inl (Err ''namespaced ProviderConfig secret must be in the managed resource namespace''), h')
                  else (Inr cd, h')))
      else if pcr_Kind ref = ''ClusterProviderConfig'' then get_ClusterProviderConfig E (pcr_Name ref) h
      else (Inl (Err ''unsupported providerConfigRef kind''), h))"

definition Connect :: "env \<Rightarrow> 'a managed_scheme \<Rightarrow> trace \<Rightarrow> client result \<times> trace" where
  "Connect E cr h =
     (case usage_Track E h of
        (Some err, h1) \<Rightarrow> (Inl err, h1)
      | (None, h1) \<Rightarrow>
          (case mg_ProviderConfigReference cr of
             None \<Rightarrow> (Inl (Err ''providerConfigRef is required''), h1)
           | Some ref \<Rightarrow>
               (case providerCredentials E cr ref h1 of
                  (Inl err, h2) \<Rightarrow> (Inl err, h2)
                | (Inr cd, h2) \<Rightarrow>
                    (case loadCredential E cd h2 of
                       (Inl err, h3) \<Rightarrow> (Inl err, h3)
                     | (Inr data, h3) \<Rightarrow> (New data [], h3)))))"

section \<open>The shape of a managed resource controller\<close>

record external_observation =
  xo_ResourceExists :: bool
  xo_ResourceUpToDate :: bool
  xo_ResourceLateInitialized :: bool

definition observation :: "bool \<Rightarrow> bool \<Rightarrow> bool \<Rightarrow> external_observation" where
  "observation ex upToDate lateInit =
     \<lparr>xo_ResourceExists = ex, xo_ResourceUpToDate = upToDate, xo_ResourceLateInitialized = lateInit\<rparr>"

lemma observation_simps [simp]:
  "xo_ResourceExists (observation a b c) = a" "xo_ResourceUpToDate (observation a b c) = b"
  "xo_ResourceLateInitialized (observation a b c) = c"
  by (simp_all add: observation_def)

definition annotations :: "'a managed_scheme \<Rightarrow> strmap" where
  "annotations cr = om_Annotations (mg_Meta cr)"

definition update_annotations :: "(strmap \<Rightarrow> strmap) \<Rightarrow> 'a managed_scheme \<Rightarrow> 'a managed_scheme" where
  "update_annotations f cr = cr\<lparr>mg_Meta := (mg_Meta cr)\<lparr>om_Annotations := f (om_Annotations (mg_Meta cr))\<rparr>\<rparr>"

definition SetConditions :: "xp \<Rightarrow> condition list \<Rightarrow> 'a managed_scheme \<Rightarrow> 'a managed_scheme" where
  "SetConditions x cs cr = cr\<lparr>mg_Conditions := xp_SetConditions x cs (mg_Conditions cr)\<rparr>"

definition GetExternalName :: "xp \<Rightarrow> 'a managed_scheme \<Rightarrow> string" where
  "GetExternalName x cr = xp_GetExternalName x (annotations cr)"

definition deleting :: "'a managed_scheme \<Rightarrow> bool" where
  "deleting cr \<longleftrightarrow> \<not> ptrIsZero (om_DeletionTimestamp (mg_Meta cr))"

definition ambiguousAbsenceConfirmedAnnotation :: string where
  "ambiguousAbsenceConfirmedAnnotation = ''runpod.crossplane.io/ambiguous-create-absence-confirmed''"

definition externalCreatePendingAnnotation :: string where
  "externalCreatePendingAnnotation = ''crossplane.io/external-create-pending''"

text \<open>
  \<open>ambiguousAbsenceAcknowledged\<close>: the acknowledgement of the operator names the exact token of the
  pending creation.
\<close>

definition ambiguousAbsenceAcknowledged :: "'a managed_scheme \<Rightarrow> bool" where
  "ambiguousAbsenceAcknowledged cr \<longleftrightarrow>
     (let pending = map_get (annotations cr) externalCreatePendingAnnotation
      in pending \<noteq> [] \<and> map_get (annotations cr) ambiguousAbsenceConfirmedAnnotation = pending)"

text \<open>
  \<open>effectiveName\<close>: the name of the specification, cut so that the suffix with the object's UID
  fits into 191 bytes. A suffix longer than that makes the slice bound negative, which panics.
\<close>

definition uid_suffix :: "string \<Rightarrow> string" where
  "uid_suffix uid = ''-xp-'' @ ToLower uid"

definition uid_scoped_name :: "string \<Rightarrow> string \<Rightarrow> string result" where
  "uid_scoped_name name uid =
     (let suffix = uid_suffix uid; maxPrefix = 191 - int (length suffix)
      in if int (length name) > maxPrefix
         then (if maxPrefix < 0 then Inl (GoPanic ''slice bounds out of range'')
               else Inr (take (nat maxPrefix) name @ suffix))
         else Inr (name @ suffix))"

text \<open>\<open>ensureLifetimeActive\<close>: nil when the deadline is in the future or the object has no birth.\<close>

definition lifetime_active :: "gotime \<Rightarrow> int32 \<Rightarrow> gotime \<Rightarrow> bool" where
  "lifetime_active created maxLifetimeSeconds now \<longleftrightarrow>
     IsZero created \<or> Before now (AddDuration created (secondsDuration maxLifetimeSeconds))"

text \<open>\<open>bindExternalID\<close> on the annotations.\<close>

definition bind_annotations :: "xp \<Rightarrow> string \<Rightarrow> string \<Rightarrow> string \<Rightarrow> gotime \<Rightarrow> strmap \<Rightarrow> strmap" where
  "bind_annotations x ambKey boundKey rid now m =
     xp_SetExternalCreateSucceeded x now (((xp_SetExternalName x rid m)(boundKey \<mapsto> ''true''))(ambKey := None))"

lemma annotations_update [simp]: "annotations (update_annotations f cr) = f (annotations cr)"
  by (simp add: annotations_def update_annotations_def)

lemma update_annotations_frame [simp]:
  "om_UID (mg_Meta (update_annotations f cr)) = om_UID (mg_Meta cr)"
  "om_Name (mg_Meta (update_annotations f cr)) = om_Name (mg_Meta cr)"
  "om_Namespace (mg_Meta (update_annotations f cr)) = om_Namespace (mg_Meta cr)"
  "om_Generation (mg_Meta (update_annotations f cr)) = om_Generation (mg_Meta cr)"
  "om_DeletionTimestamp (mg_Meta (update_annotations f cr)) = om_DeletionTimestamp (mg_Meta cr)"
  "om_CreationTimestamp (mg_Meta (update_annotations f cr)) = om_CreationTimestamp (mg_Meta cr)"
  "mg_Conditions (update_annotations f cr) = mg_Conditions cr"
  "mg_ObservedGeneration (update_annotations f cr) = mg_ObservedGeneration cr"
  "managed.more (update_annotations f cr) = managed.more cr"
  by (simp_all add: update_annotations_def)

lemma SetConditions_frame [simp]:
  "mg_Meta (SetConditions x cs cr) = mg_Meta cr"
  "annotations (SetConditions x cs cr) = annotations cr"
  "mg_ObservedGeneration (SetConditions x cs cr) = mg_ObservedGeneration cr"
  "managed.more (SetConditions x cs cr) = managed.more cr"
  by (simp_all add: SetConditions_def annotations_def)

lemma annotations_frame [simp]:
  "annotations (cr\<lparr>mg_ObservedGeneration := g\<rparr>) = annotations cr"
  "annotations (cr\<lparr>mg_Conditions := cs\<rparr>) = annotations cr"
  by (simp_all add: annotations_def)

lemma deleting_frame [simp]:
  "deleting (update_annotations f cr) = deleting cr"
  "deleting (SetConditions x cs cr) = deleting cr"
  "deleting (cr\<lparr>mg_ObservedGeneration := g\<rparr>) = deleting cr"
  by (simp_all add: deleting_def)

lemma GetExternalName_frame [simp]:
  "GetExternalName x (update_annotations f cr) = xp_GetExternalName x (f (annotations cr))"
  "GetExternalName x (SetConditions x cs cr) = GetExternalName x cr"
  "GetExternalName x (cr\<lparr>mg_ObservedGeneration := g\<rparr>) = GetExternalName x cr"
  by (simp_all add: GetExternalName_def)

section \<open>Binding an external identifier\<close>

text \<open>
  The annotation keys of a controller. What binding promises depends only on the keys being
  different from each other and from the runtime's own.
\<close>

locale annotation_keys =
  fixes ambKey :: string and boundKey :: string
  assumes keys_distinct: "distinct [ambKey, boundKey, externalNameKey, externalCreateSucceededKey,
    ambiguousAbsenceConfirmedAnnotation, externalCreatePendingAnnotation]"
begin

lemma key_neqs:
  "ambKey \<noteq> boundKey" "ambKey \<noteq> externalNameKey" "boundKey \<noteq> externalNameKey"
  "ambKey \<noteq> externalCreateSucceededKey" "boundKey \<noteq> externalCreateSucceededKey" "externalNameKey \<noteq> externalCreateSucceededKey"
  "boundKey \<noteq> ambKey" "externalNameKey \<noteq> ambKey" "externalNameKey \<noteq> boundKey"
  using keys_distinct by auto

lemma bind_external_name:
  assumes "xp_laws x"
  shows "xp_GetExternalName x (bind_annotations x ambKey boundKey rid now m) = rid"
  using key_neqs xp_lawsD [OF assms] xp_SetExternalCreateSucceeded_get [OF assms]
  by (simp add: bind_annotations_def)

lemma bind_bound:
  assumes "xp_laws x"
  shows "map_get (bind_annotations x ambKey boundKey rid now m) boundKey = ''true''"
  using key_neqs xp_SetExternalCreateSucceeded_get [OF assms] by (simp add: bind_annotations_def)

lemma bind_clears_marker:
  assumes "xp_laws x"
  shows "map_get (bind_annotations x ambKey boundKey rid now m) ambKey = []"
  using key_neqs xp_SetExternalCreateSucceeded_get [OF assms] by (simp add: bind_annotations_def)

lemma bind_keeps:
  assumes "xp_laws x" "k \<notin> {ambKey, boundKey, externalNameKey, externalCreateSucceededKey}"
  shows "map_get (bind_annotations x ambKey boundKey rid now m) k = map_get m k"
  using assms(2) xp_lawsD [OF assms(1)] xp_SetExternalCreateSucceeded_get [OF assms(1)]
  by (simp add: bind_annotations_def)

lemma bind_keeps_acknowledgement:
  assumes "xp_laws x"
  shows "map_get (bind_annotations x ambKey boundKey rid now m) ambiguousAbsenceConfirmedAnnotation
    = map_get m ambiguousAbsenceConfirmedAnnotation"
  using keys_distinct by (intro bind_keeps [OF assms]) auto

end

section \<open>Lemmas\<close>

lemma uid_scoped_name_fits:
  assumes "length (uid_suffix uid) \<le> 191"
  shows "uid_scoped_name name uid = Inr (take (191 - length (uid_suffix uid)) name @ uid_suffix uid)"
proof -
  have "nat (191 - int (length (uid_suffix uid))) = 191 - length (uid_suffix uid)" by linarith
  with assms show ?thesis by (auto simp: uid_scoped_name_def Let_def)
qed

lemma uid_scoped_name_suffix: "uid_scoped_name name uid = Inr s \<Longrightarrow> \<exists>p. s = p @ uid_suffix uid"
  by (auto simp: uid_scoped_name_def Let_def split: if_splits)

lemma uid_scoped_name_length: "uid_scoped_name name uid = Inr s \<Longrightarrow> length s \<le> 191"
  by (auto simp: uid_scoped_name_def Let_def split: if_splits)

lemma uid_scoped_name_nonempty: "uid_scoped_name name uid = Inr s \<Longrightarrow> s \<noteq> []"
  by (auto dest: uid_scoped_name_suffix simp: uid_suffix_def)

text \<open>A UID as the API server assigns it: lower-case hexadecimal digits and dashes.\<close>

definition uid_char :: "char \<Rightarrow> bool" where
  "uid_char c \<longleftrightarrow> is_digit c \<or> is_lower c \<or> c = CHR ''-''"

lemma uid_char_lower: "uid_char c \<Longrightarrow> lower_char c = c \<and> c \<noteq> CHR 0xE2 \<and> c \<noteq> CHR 0xC4"
  by (auto simp: uid_char_def lower_char_def is_digit_def is_lower_def is_upper_def less_eq_char_def)

lemma ToLower_uid: "list_all uid_char uid \<Longrightarrow> ToLower uid = uid"
  by (induction uid rule: ToLower.induct) (auto dest: uid_char_lower)

lemma lifetime_active_iff:
  "lifetime_active created seconds now \<longleftrightarrow> created = 0 \<or> now < created + sint seconds * 10 ^ 9"
  by (simp add: lifetime_active_def time_defs)

lemma New_ok:
  assumes "New rawKey [] = Inr c"
  shows "c = \<lparr>cl_baseURL = DefaultBaseURL, cl_apiKey = rawKey\<rparr> \<and> rawKey \<noteq> [] \<and> length rawKey \<le> 4096
    \<and> CHR 0x0D \<notin> set rawKey \<and> CHR 0x0A \<notin> set rawKey"
  using assms by (auto simp: New_def Let_def ContainsAny_def list_ex_iff split: if_splits)

lemma loadCredential_ok:
  assumes "loadCredential E cd h = (Inr data, h')"
  shows "\<exists>(sref :: secret_ref) secret. pc_SecretRef cd = Some sref \<and> pc_Source cd = ''Secret''
    \<and> env_GetSecret E h (sr_Namespace sref) (sr_Name sref) = Inr secret
    \<and> map_get (sec_Labels secret) PurposeLabel = PurposeManagement \<and> sec_Data secret (sr_Key sref) = Some data
    \<and> h' = h @ [EvGet KSecret (sr_Namespace sref) (sr_Name sref)]"
proof -
  from assms obtain sref where s: "pc_SecretRef cd = Some sref" "pc_Source cd = ''Secret''"
    by (auto simp: loadCredential_def split: option.splits if_splits)
  obtain r where g: "env_GetSecret E h (sr_Namespace sref) (sr_Name sref) = r" by blast
  with assms s show ?thesis
    by (cases r) (auto simp: loadCredential_def get_Secret_def RequirePurpose_def split: option.splits if_splits)
qed

lemma providerCredentials_ok:
  assumes "providerCredentials E cr ref h = (Inr cd, h')"
  shows "(\<exists>e. h' = h @ [e] \<and> http_of e = None)
    \<and> (pcr_Kind ref = ''ProviderConfig'' \<longrightarrow>
         (\<exists>sref. pc_SecretRef cd = Some sref \<and> sr_Namespace sref = om_Namespace (mg_Meta cr)))"
  using assms
  by (auto simp: providerCredentials_def get_ProviderConfig_def get_ClusterProviderConfig_def
      split: if_splits sum.splits option.splits)

text \<open>
  C38: the credential boundary. A client that \<open>Connect\<close> returns talks to the built-in base URL with
  a key that is a value of a Secret labelled for management, non-empty and free of line breaks;
  for a namespaced ProviderConfig that Secret is in the namespace of the managed resource; and no
  HTTP request was made on the way.
\<close>

theorem Connect_boundary:
  assumes "Connect E cr h = (Inr c, h')"
  shows "cl_baseURL c = DefaultBaseURL \<and> cl_apiKey c \<noteq> [] \<and> CHR 0x0D \<notin> set (cl_apiKey c) \<and> CHR 0x0A \<notin> set (cl_apiKey c)
    \<and> http_requests h' = http_requests h
    \<and> (\<exists>h2 ref (sref :: secret_ref) secret. mg_ProviderConfigReference cr = Some ref
         \<and> env_GetSecret E h2 (sr_Namespace sref) (sr_Name sref) = Inr secret
         \<and> map_get (sec_Labels secret) PurposeLabel = PurposeManagement
         \<and> sec_Data secret (sr_Key sref) = Some (cl_apiKey c)
         \<and> (pcr_Kind ref = ''ProviderConfig'' \<longrightarrow> sr_Namespace sref = om_Namespace (mg_Meta cr)))"
proof -
  from assms obtain ref cd h2 data where c:
    "mg_ProviderConfigReference cr = Some ref" "providerCredentials E cr ref (h @ [EvTrack]) = (Inr cd, h2)"
    "loadCredential E cd h2 = (Inr data, h')" "New data [] = Inr c"
    by (auto simp: Connect_def usage_Track_def split: option.splits sum.splits prod.splits)
  from providerCredentials_ok [OF c(2)] obtain e where e: "h2 = (h @ [EvTrack]) @ [e]" "http_of e = None"
    and ns: "pcr_Kind ref = ''ProviderConfig'' \<longrightarrow> (\<exists>sref. pc_SecretRef cd = Some sref \<and> sr_Namespace sref = om_Namespace (mg_Meta cr))"
    by auto
  from loadCredential_ok [OF c(3)] obtain sref secret where s: "pc_SecretRef cd = Some sref"
    "env_GetSecret E h2 (sr_Namespace sref) (sr_Name sref) = Inr secret"
    "map_get (sec_Labels secret) PurposeLabel = PurposeManagement" "sec_Data secret (sr_Key sref) = Some data"
    "h' = h2 @ [EvGet KSecret (sr_Namespace sref) (sr_Name sref)]" by auto
  have "http_requests h' = http_requests h" using e s(5) by simp
  with New_ok [OF c(4)] s ns c(1) show ?thesis
    by (intro conjI exI [of _ h2] exI [of _ ref] exI [of _ sref] exI [of _ secret]) auto
qed

definition demo_meta :: objmeta where
  "demo_meta = \<lparr>om_Namespace = ''team'', om_Name = ''demo'', om_UID = ''a1-b2'', om_ResourceVersion = ''1'', om_Generation = 1,
     om_CreationTimestamp = 0, om_DeletionTimestamp = None, om_Annotations = Map.empty, om_Finalizers = []\<rparr>"

definition demo_managed :: managed where
  "demo_managed = \<lparr>mg_Meta = demo_meta, mg_ProviderConfigReference = Some \<lparr>pcr_Kind = ''ProviderConfig'', pcr_Name = ''default''\<rparr>,
     mg_Conditions = [], mg_ObservedGeneration = 0\<rparr>"

definition demo_secret :: secret where
  "demo_secret = \<lparr>sec_ResourceVersion = ''7'', sec_Labels = [PurposeLabel \<mapsto> PurposeManagement], sec_Data = [''key'' \<mapsto> ''rp-key'']\<rparr>"

definition credential_env :: env where
  "credential_env = (scripted_env (\<lambda>_. DoErr ''down'') 1)
     \<lparr>env_GetProviderConfig := (\<lambda>_ _ _. Inr \<lparr>pc_Source = ''Secret'', pc_SecretRef = Some \<lparr>sr_Namespace = ''team'', sr_Name = ''s'', sr_Key = ''key''\<rparr>\<rparr>),
      env_GetSecret := (\<lambda>_ _ _. Inr demo_secret)\<rparr>"

theorem Connect_boundary_witness:
  "\<exists>c h'. Connect credential_env demo_managed [] = (Inr c, h') \<and> cl_apiKey c = ''rp-key'' \<and> http_requests h' = []"
proof -
  have "TrimSpace ''rp-key'' = ''rp-key''" by code_simp
  then have "\<exists>c h'. Connect credential_env demo_managed [] = (Inr c, h') \<and> cl_apiKey c = ''rp-key''"
    by (simp add: Connect_def usage_Track_def credential_env_def scripted_env_def demo_managed_def demo_meta_def providerCredentials_def
        get_ProviderConfig_def loadCredential_def get_Secret_def RequirePurpose_def demo_secret_def New_def ContainsAny_def Let_def)
  then obtain c h' where "Connect credential_env demo_managed [] = (Inr c, h')" "cl_apiKey c = ''rp-key''" by blast
  with Connect_boundary [OF this(1)] show ?thesis by auto
qed

text \<open>
  The UID-scoped name. For a UID as the API server assigns it, of at most 187 characters, the
  external name exists, has at most 191 bytes, is the name of the specification followed by the
  UID when that fits and a cut of it otherwise, and two objects with different UIDs of the same
  length never share an external name, whatever their specifications say.
\<close>

theorem uid_scoped_name_unique:
  assumes "list_all uid_char uid" "length uid \<le> 187" "list_all uid_char uid'" "length uid' = length uid"
  shows "\<exists>s s'. uid_scoped_name name uid = Inr s \<and> uid_scoped_name name' uid' = Inr s'
    \<and> length s \<le> 191 \<and> s = take (187 - length uid) name @ ''-xp-'' @ uid
    \<and> (s = s' \<longrightarrow> uid = uid')"
proof -
  have u: "uid_suffix uid = ''-xp-'' @ uid" "uid_suffix uid' = ''-xp-'' @ uid'"
    using assms by (simp_all add: uid_suffix_def ToLower_uid)
  then have "uid_scoped_name name uid = Inr (take (187 - length uid) name @ ''-xp-'' @ uid)"
    "uid_scoped_name name' uid' = Inr (take (187 - length uid) name' @ ''-xp-'' @ uid')"
    using uid_scoped_name_fits [of uid name] uid_scoped_name_fits [of uid' name'] assms by simp_all
  then show ?thesis using assms(2,4) by auto
qed

theorem uid_scoped_name_unique_witness:
  "uid_scoped_name ''demo'' ''a1-b2'' = Inr ''demo-xp-a1-b2'' \<and> uid_scoped_name ''demo'' ''a1-b3'' \<noteq> Inr ''demo-xp-a1-b2''"
  using uid_scoped_name_unique [of "''a1-b2''" "''a1-b3''" "''demo''" "''demo''"]
  by (auto simp: uid_char_def is_digit_def is_lower_def)

end
