(* ===== verification/Reconciler.thy ===== *)
theory Reconciler
  imports Management
begin

text \<open>
  The protocol of Crossplane's managed reconciler, as far as the controllers of the repository
  depend on it, as a step relation over the handlers of an external client: a creation follows an
  observation that reported no external resource, the runtime persists its pending marker before
  it calls Create, a crash may lose what Create wrote on the object, and between two reconciles
  the object may be edited as long as the lock of a pending or finished creation stays. The
  interface \<open>create_once\<close> states what a controller's handlers promise, and its main lemma that no
  run of the protocol commits more than one creation.
\<close>

record 'cr external_client =
  xc_Observe :: "'cr \<Rightarrow> trace \<Rightarrow> external_observation result \<times> 'cr \<times> trace"
  xc_Create :: "'cr \<Rightarrow> trace \<Rightarrow> error ptr \<times> 'cr \<times> trace"
  xc_Update :: "'cr \<Rightarrow> trace \<Rightarrow> error ptr \<times> 'cr \<times> trace"
  xc_Delete :: "'cr \<Rightarrow> trace \<Rightarrow> error ptr \<times> 'cr \<times> trace"

text \<open>
  The object is locked against a new creation when a creation is incomplete, when the controller's
  marker of an ambiguous creation is set, or when it has an external name.
\<close>

definition create_locked :: "xp \<Rightarrow> string \<Rightarrow> 'a managed_scheme \<Rightarrow> bool" where
  "create_locked x ambKey cr \<longleftrightarrow>
     xp_ExternalCreateIncomplete x (annotations cr) \<or> map_get (annotations cr) ambKey \<noteq> [] \<or> GetExternalName x cr \<noteq> []"

definition keeps_lock :: "xp \<Rightarrow> string \<Rightarrow> 'a managed_scheme \<Rightarrow> 'a managed_scheme \<Rightarrow> bool" where
  "keeps_lock x ambKey cr cr' \<longleftrightarrow> (create_locked x ambKey cr \<longrightarrow> create_locked x ambKey cr')"

text \<open>A state: the object, the result of the last observation of this reconcile, the trace.\<close>

type_synonym 'cr rstate = "'cr \<times> external_observation option \<times> trace"

inductive reconcile_step :: "xp \<Rightarrow> string \<Rightarrow> 'a managed_scheme external_client \<Rightarrow> 'a managed_scheme rstate \<Rightarrow> 'a managed_scheme rstate \<Rightarrow> bool"
  for x ambKey X where
  observe: "xc_Observe X cr h = (r, cr', h') \<Longrightarrow>
     reconcile_step x ambKey X (cr, seen, h) (cr', (case r of Inl _ \<Rightarrow> None | Inr ob \<Rightarrow> Some ob), h')"
| create: "\<not> xo_ResourceExists ob \<Longrightarrow> \<not> deleting cr \<Longrightarrow> keeps_lock x ambKey cr cr1 \<Longrightarrow>
     xc_Create X cr1 h = (err, cr', h') \<Longrightarrow> reconcile_step x ambKey X (cr, Some ob, h) (cr', None, h')"
| create_crash: "\<not> xo_ResourceExists ob \<Longrightarrow> \<not> deleting cr \<Longrightarrow> keeps_lock x ambKey cr cr1 \<Longrightarrow>
     xp_ExternalCreateIncomplete x (annotations cr1) \<Longrightarrow>
     xc_Create X cr1 h = (err, cr', h') \<Longrightarrow> reconcile_step x ambKey X (cr, Some ob, h) (cr1, None, h')"
| update: "xo_ResourceExists ob \<Longrightarrow> \<not> xo_ResourceUpToDate ob \<Longrightarrow> \<not> deleting cr \<Longrightarrow>
     xc_Update X cr h = (err, cr', h') \<Longrightarrow> reconcile_step x ambKey X (cr, Some ob, h) (cr', None, h')"
| delete: "xo_ResourceExists ob \<Longrightarrow> deleting cr \<Longrightarrow>
     xc_Delete X cr h = (err, cr', h') \<Longrightarrow> reconcile_step x ambKey X (cr, Some ob, h) (cr', None, h')"
| edit: "keeps_lock x ambKey cr cr' \<Longrightarrow> reconcile_step x ambKey X (cr, seen, h) (cr', None, h)"

inductive reconciles :: "xp \<Rightarrow> string \<Rightarrow> 'a managed_scheme external_client \<Rightarrow> 'a managed_scheme rstate \<Rightarrow> 'a managed_scheme rstate \<Rightarrow> bool"
  for x ambKey X where
  stop: "reconciles x ambKey X s s"
| more: "reconciles x ambKey X s s' \<Longrightarrow> reconcile_step x ambKey X s' s'' \<Longrightarrow> reconciles x ambKey X s s''"

inductive_cases reconcile_stepE: "reconcile_step x ambKey X s s'"

text \<open>
  Most handlers leave the annotations as they are or bind a valid identifier; both keep the lock.
\<close>

definition binds_or_keeps :: "xp \<Rightarrow> 'a managed_scheme \<Rightarrow> 'a managed_scheme \<Rightarrow> bool" where
  "binds_or_keeps x cr cr' \<longleftrightarrow> annotations cr' = annotations cr \<or> valid_id (GetExternalName x cr')"

lemma locked_by_name: "GetExternalName x cr \<noteq> [] \<Longrightarrow> create_locked x k cr"
  by (simp add: create_locked_def)

lemma locked_by_marker: "map_get (annotations cr) k \<noteq> [] \<Longrightarrow> create_locked x k cr"
  by (simp add: create_locked_def)

lemma create_locked_cong: "annotations cr' = annotations cr \<Longrightarrow> create_locked x k cr' = create_locked x k cr"
  by (simp add: create_locked_def GetExternalName_def)

lemma binds_or_keeps_lock:
  assumes "binds_or_keeps x cr cr'"
  shows "keeps_lock x k cr cr'"
  using assms unfolding binds_or_keeps_def
proof
  assume "annotations cr' = annotations cr"
  from create_locked_cong [OF this] show ?thesis by (simp add: keeps_lock_def)
next
  assume "valid_id (GetExternalName x cr')"
  then have "GetExternalName x cr' \<noteq> []" by auto
  then show ?thesis by (simp add: keeps_lock_def locked_by_name)
qed

locale create_once =
  fixes ambKey :: string
    and handlers :: "env \<Rightarrow> xp \<Rightarrow> client \<Rightarrow> 'a managed_scheme external_client"
  assumes observe_committed: "xc_Observe (handlers E x c) cr h = (r, cr', h') \<Longrightarrow> committed E h' = committed E h"
    and observe_deleting: "xc_Observe (handlers E x c) cr h = (r, cr', h') \<Longrightarrow> deleting cr' = deleting cr"
    and observe_locked: "xp_laws x \<Longrightarrow> xc_Observe (handlers E x c) cr h = (r, cr', h') \<Longrightarrow> keeps_lock x ambKey cr cr'"
    and observe_exists: "xc_Observe (handlers E x c) cr h = (Inr ob, cr', h') \<Longrightarrow> create_locked x ambKey cr \<Longrightarrow> \<not> deleting cr \<Longrightarrow>
          xo_ResourceExists ob"
    and create_committed: "xc_Create (handlers E x c) cr h = (err, cr', h') \<Longrightarrow> committed E h' \<le> Suc (committed E h)"
    and create_locks: "xp_laws x \<Longrightarrow> xc_Create (handlers E x c) cr h = (err, cr', h') \<Longrightarrow> committed E h' \<noteq> committed E h \<Longrightarrow>
          create_locked x ambKey cr'"
    and update_committed: "xc_Update (handlers E x c) cr h = (err, cr', h') \<Longrightarrow> committed E h' = committed E h"
    and update_locked: "xc_Update (handlers E x c) cr h = (err, cr', h') \<Longrightarrow> keeps_lock x ambKey cr cr'"
    and delete_committed: "xc_Delete (handlers E x c) cr h = (err, cr', h') \<Longrightarrow> committed E h' = committed E h"
    and delete_locked: "xc_Delete (handlers E x c) cr h = (err, cr', h') \<Longrightarrow> keeps_lock x ambKey cr cr'"
begin

text \<open>
  The invariant: nothing is committed yet, or exactly one creation is and then the object is locked
  and an observation of this reconcile says that the resource exists (unless it is being deleted).
\<close>

definition inv :: "env \<Rightarrow> xp \<Rightarrow> 'a managed_scheme rstate \<Rightarrow> bool" where
  "inv E x s = (case s of (cr, seen, h) \<Rightarrow>
     committed E h = 0 \<or>
     committed E h = 1 \<and> create_locked x ambKey cr \<and> (\<forall>ob. seen = Some ob \<and> \<not> deleting cr \<longrightarrow> xo_ResourceExists ob))"

lemma inv_create:
  assumes "xp_laws x" "inv E x (cr, Some ob, h)" "\<not> xo_ResourceExists ob" "\<not> deleting cr"
    "xc_Create (handlers E x c) cr1 h = (err, cr', h')"
  shows "inv E x (cr', None, h')" and "create_locked x ambKey cr1 \<Longrightarrow> inv E x (cr1, None, h')"
proof -
  from assms have 0: "committed E h = 0" by (auto simp: inv_def)
  with create_committed [OF assms(5)] create_locks [OF assms(1,5)]
  show "inv E x (cr', None, h')" by (auto simp: inv_def)
  from 0 create_committed [OF assms(5)]
  show "create_locked x ambKey cr1 \<Longrightarrow> inv E x (cr1, None, h')" by (auto simp: inv_def)
qed

lemma inv_step:
  assumes "reconcile_step x ambKey (handlers E x c) s s'" "xp_laws x" "inv E x s"
  shows "inv E x s'"
  using assms(1)
proof (cases rule: reconcile_step.cases)
  case (observe cr h r cr' h' seen)
  have "create_locked x ambKey cr \<Longrightarrow> create_locked x ambKey cr'"
    using observe_locked [OF assms(2) observe(3)] by (simp add: keeps_lock_def)
  moreover have "xo_ResourceExists ob" if "r = Inr ob" "create_locked x ambKey cr" "\<not> deleting cr'" for ob
    using that observe_exists [OF observe(3) [unfolded that(1)]] observe_deleting [OF observe(3)] by simp
  ultimately show ?thesis
    using assms(3) observe observe_committed [OF observe(3)] by (auto simp: inv_def split: sum.splits)
next
  case (create ob cr cr1 h err cr' h')
  with inv_create(1) [OF assms(2)] assms(3) show ?thesis by blast
next
  case (create_crash ob cr cr1 h err cr' h')
  with inv_create(2) [OF assms(2)] assms(3) show ?thesis by (simp add: create_locked_def)
next
  case (update ob cr h err cr' h')
  with assms(3) update_committed [OF update(6)] update_locked [OF update(6)] show ?thesis
    by (auto simp: inv_def keeps_lock_def)
next
  case (delete ob cr h err cr' h')
  with assms(3) delete_committed [OF delete(5)] delete_locked [OF delete(5)] show ?thesis
    by (auto simp: inv_def keeps_lock_def)
next
  case (edit cr cr' seen h)
  with assms(3) show ?thesis by (auto simp: inv_def keeps_lock_def)
qed

lemma inv_reconciles:
  assumes "reconciles x ambKey (handlers E x c) s s'" "xp_laws x" "inv E x s"
  shows "inv E x s'"
  using assms by (induction rule: reconciles.induct) (auto intro: inv_step)

lemma at_most_one_committed:
  assumes "reconciles x ambKey (handlers E x c) (cr, None, h) (cr', seen, h')" "xp_laws x" "committed E h = 0"
  shows "committed E h' \<le> 1"
  using inv_reconciles [OF assms(1,2)] assms(3) by (auto simp: inv_def)

end

end
