(* ===== verification/TemplateController.thy ===== *)
theory TemplateController
  imports Reconciler
begin

text \<open>
  \<open>internal/controller/template/template.go\<close>: the external client of the Template controller. A
  handler takes the environment, the helpers of the runtime, the RunPod client, the custom resource
  and the trace; it returns its result, the custom resource as it left it (the source mutates it
  in place, also on the error paths) and the trace.
\<close>

section \<open>Constants and regular expressions\<close>

definition template_ambiguousCreateNameAnnotation :: string where
  "template_ambiguousCreateNameAnnotation = ''template.serverless.runpod.crossplane.io/ambiguous-create-name''"

definition template_externalIDBoundAnnotation :: string where
  "template_externalIDBoundAnnotation = ''template.serverless.runpod.crossplane.io/external-id-bound''"

definition defaultContainerDiskInGB :: int32 where
  "defaultContainerDiskInGB = 50"

text \<open>The regular expression \<open>^[^\s@]+@sha256:[a-f0-9]{64}$\<close>, read from its fixed-length end.\<close>

definition image_char :: "char \<Rightarrow> bool" where
  "image_char c \<longleftrightarrow> c \<notin> {CHR 0x09, CHR 0x0A, CHR 0x0C, CHR 0x0D, CHR '' '', CHR ''@''}"

definition digest_char :: "char \<Rightarrow> bool" where
  "digest_char c \<longleftrightarrow> is_digit c \<or> CHR ''a'' \<le> c \<and> c \<le> CHR ''f''"

definition digestImage :: "string \<Rightarrow> bool" where
  "digestImage s \<longleftrightarrow>
     (let n = length s - 72
      in length s > 72 \<and> list_all image_char (take n s) \<and> take 8 (drop n s) = ''@sha256:'' \<and> list_all digest_char (drop (n + 8) s))"

text \<open>The regular expression \<open>^[1-9][0-9]{0,4}/(http|tcp)$\<close>.\<close>

definition portSpec :: "string \<Rightarrow> bool" where
  "portSpec s \<longleftrightarrow>
     (let ds = takeWhile (\<lambda>c. c \<noteq> CHR ''/'') s; rest = dropWhile (\<lambda>c. c \<noteq> CHR ''/'') s
      in rest \<in> {''/http'', ''/tcp''} \<and> ds \<noteq> [] \<and> hd ds \<noteq> CHR ''0'' \<and> length ds \<le> 5 \<and> list_all is_digit ds)"

definition safeName :: "string \<Rightarrow> bool" where
  "safeName = safe_name_match"

section \<open>Pure helpers\<close>

fun validatePorts_loop :: "string list \<Rightarrow> error ptr" where
  "validatePorts_loop [] = None"
| "validatePorts_loop (port # ports) =
     (if \<not> portSpec port then Some (Err ''ports must use explicit port/protocol declarations'')
      else (case Atoi (takeWhile (\<lambda>c. c \<noteq> CHR ''/'') port) of
              None \<Rightarrow> Some (Err ''ports must be in the range 1..65535'')
            | Some number \<Rightarrow>
                if number < 1 \<or> number > 65535 then Some (Err ''ports must be in the range 1..65535'')
                else validatePorts_loop ports))"

definition validatePorts :: "string slice \<Rightarrow> error ptr" where
  "validatePorts ports =
     (if length (elems ports) = 0 then Some (Err ''at least one explicit port is required'')
      else validatePorts_loop (elems ports))"

definition template_effectiveName :: "template_cr \<Rightarrow> string result" where
  "template_effectiveName cr = uid_scoped_name (tp_Name (tc_ForProvider cr)) (om_UID (mg_Meta cr))"

definition template_ensureLifetimeActive :: "template_cr \<Rightarrow> gotime \<Rightarrow> error ptr" where
  "template_ensureLifetimeActive cr now =
     (if lifetime_active (om_CreationTimestamp (mg_Meta cr)) (tp_MaxLifetimeSeconds (tc_ForProvider cr)) now then None
      else Some (Err ''Template maximum lifetime has elapsed; refusing external create or update''))"

definition templateInput :: "template_cr \<Rightarrow> template_input result" where
  "templateInput cr =
     (let p = tc_ForProvider cr;
          containerDiskInGB = (case tp_ContainerDiskInGB p of None \<Rightarrow> defaultContainerDiskInGB | Some d \<Rightarrow> d);
          entrypoint = (if tp_DockerEntrypoint p = None then Some [] else tp_DockerEntrypoint p);
          startCmd = (if tp_DockerStartCmd p = None then Some [] else tp_DockerStartCmd p)
      in case template_effectiveName cr of
           Inl panic \<Rightarrow> Inl panic
         | Inr name \<Rightarrow> Inr
             \<lparr>ti_Name = name, ti_Category = ''NVIDIA'', ti_ImageName = tp_ImageName p, ti_IsPublic = False,
              ti_IsServerless = True, ti_ContainerDiskInGB = containerDiskInGB, ti_DockerEntrypoint = entrypoint,
              ti_DockerStartCmd = startCmd, ti_Ports = tp_Ports p, ti_Readme = [], ti_VolumeInGB = tp_VolumeInGB p,
              ti_VolumeMountPath = [], ti_Env = Some [], ti_ContainerRegistryAuthID = []\<rparr>)"

definition templateMatchesInput :: "template_input \<Rightarrow> rp_template \<Rightarrow> bool" where
  "templateMatchesInput want got \<longleftrightarrow>
     (if rt_Category got \<noteq> ''NVIDIA'' \<or> rt_Name got \<noteq> ti_Name want \<or> rt_ImageName got \<noteq> ti_ImageName want \<or>
         rt_IsPublic got = None \<or> the (rt_IsPublic got) \<or> rt_IsRunpod got = None \<or> the (rt_IsRunpod got) \<or>
         rt_IsServerless got = None \<or> \<not> the (rt_IsServerless got)
      then False
      else if rt_ContainerDiskInGB got = None \<or> the (rt_ContainerDiskInGB got) \<noteq> ti_ContainerDiskInGB want then False
      else if rt_VolumeInGB got = None \<or> the (rt_VolumeInGB got) \<noteq> ti_VolumeInGB want then False
      else ns_Present (rt_Readme got) \<and> \<not> ns_Null (rt_Readme got) \<and> ns_Value (rt_Readme got) = ti_Readme want \<and>
        ns_Present (rt_VolumeMountPath got) \<and> \<not> ns_Null (rt_VolumeMountPath got) \<and>
        ns_Value (rt_VolumeMountPath got) = ti_VolumeMountPath want \<and>
        rt_Env got \<noteq> None \<and> length (elems (rt_Env got)) = 0 \<and> ns_Present (rt_ContainerRegistryAuthID got) \<and>
        (ns_Null (rt_ContainerRegistryAuthID got) \<or> ns_Value (rt_ContainerRegistryAuthID got) = []) \<and>
        rt_DockerEntrypoint got \<noteq> None \<and> slices_Equal (ti_DockerEntrypoint want) (rt_DockerEntrypoint got) \<and>
        rt_DockerStartCmd got \<noteq> None \<and> slices_Equal (ti_DockerStartCmd want) (rt_DockerStartCmd got) \<and>
        rt_Ports got \<noteq> None \<and> slices_Equal (ti_Ports want) (rt_Ports got))"

definition template_unrepairableExternalState :: "rp_template \<Rightarrow> error ptr" where
  "template_unrepairableExternalState got =
     (if rt_Category got \<noteq> ''NVIDIA''
      then Some (Err ''RunPod Template category is not NVIDIA and the official update API cannot change it'')
      else if rt_IsServerless got = None \<or> \<not> the (rt_IsServerless got)
      then Some (Err ''RunPod Template is not Serverless and the official update API cannot change it'')
      else if rt_IsRunpod got = None \<or> the (rt_IsRunpod got)
      then Some (Err ''RunPod Template ownership is absent or RunPod-managed and the official update API cannot change it'')
      else if rt_IsPublic got = None \<or> rt_ContainerDiskInGB got = None \<or> rt_VolumeInGB got = None \<or>
         rt_DockerEntrypoint got = None \<or> rt_DockerStartCmd got = None \<or> rt_Ports got = None \<or> rt_Env got = None \<or>
         \<not> ns_Present (rt_Readme got) \<or> \<not> ns_Present (rt_VolumeMountPath got) \<or> \<not> ns_Present (rt_ContainerRegistryAuthID got)
      then Some (Err ''RunPod Template response omitted bounded configuration evidence; refusing a rolling PATCH loop'')
      else None)"

section \<open>State changes of the custom resource\<close>

definition template_setObservation :: "env \<Rightarrow> template_cr \<Rightarrow> rp_template \<Rightarrow> trace \<Rightarrow> template_cr \<times> trace" where
  "template_setObservation E cr got h =
     (case time_Now E h of
        (now, h') \<Rightarrow>
          (cr\<lparr>tc_AtProvider :=
             \<lparr>to_ID = rt_ID got, to_Name = rt_Name got, to_ImageName = rt_ImageName got,
              to_IsServerless = (rt_IsServerless got \<noteq> None \<and> the (rt_IsServerless got)), to_LastObservedAt = now\<rparr>\<rparr>, h'))"

definition template_markAmbiguousCreate :: "template_cr \<Rightarrow> string \<Rightarrow> template_cr" where
  "template_markAmbiguousCreate cr name =
     update_annotations (\<lambda>m. m(template_ambiguousCreateNameAnnotation \<mapsto> name)) cr"

definition set_template_ID :: "string \<Rightarrow> template_cr \<Rightarrow> template_cr" where
  "set_template_ID rid cr = cr\<lparr>tc_AtProvider := (tc_AtProvider cr)\<lparr>to_ID := rid\<rparr>\<rparr>"

definition template_bindExternalID :: "env \<Rightarrow> xp \<Rightarrow> template_cr \<Rightarrow> string \<Rightarrow> trace \<Rightarrow> template_cr \<times> trace" where
  "template_bindExternalID E x cr rid h =
     (case time_Now E h of
        (now, h') \<Rightarrow>
          (set_template_ID rid
             (update_annotations
                (bind_annotations x template_ambiguousCreateNameAnnotation template_externalIDBoundAnnotation rid now) cr), h'))"

section \<open>Observe\<close>

type_synonym template_handler = "external_observation result \<times> template_cr \<times> trace"

text \<open>The recovery branch: a creation is pending under the UID-scoped name.\<close>

definition template_Observe_pending :: "env \<Rightarrow> xp \<Rightarrow> client \<Rightarrow> template_cr \<Rightarrow> string \<Rightarrow> trace \<Rightarrow> template_handler" where
  "template_Observe_pending E x c cr pendingName h =
     (case template_effectiveName cr of
        Inl panic \<Rightarrow> (Inl panic, cr, h)
      | Inr effective \<Rightarrow>
          if pendingName \<noteq> effective
          then (Inl (Err ''Template recovery marker is not the controller-owned UID-scoped name''), cr, h)
          else (case FindTemplateByName E c pendingName h of
             (Inl err, h1) \<Rightarrow>
               if deleting cr \<and> errors_Is err ErrNotFound then
                 (if ambiguousAbsenceAcknowledged cr then (Inr (observation False False False), cr, h1)
                  else (Inl (Err ''ambiguous Template create absence is unproven; an exact pending-token operator acknowledgement is required before deletion can complete''), cr, h1))
               else (Inl (Err ''ambiguous Template create recovery is pending; no new create is permitted''), cr, h1)
           | (Inr got, h1) \<Rightarrow>
               if rt_Name got \<noteq> pendingName \<or> ValidateRunPodID (rt_ID got) \<noteq> None
               then (Inl (Err ''Template recovery returned an invalid external identity''), cr, h1)
               else if deleting cr then
                 (case template_bindExternalID E x cr (rt_ID got) h1 of
                    (cr1, h2) \<Rightarrow>
                      (Inr (observation True False True),
                       cr1\<lparr>tc_AtProvider := (tc_AtProvider cr1)\<lparr>to_ID := rt_ID got, to_Name := rt_Name got\<rparr>\<rparr>, h2))
               else (case templateInput cr of
                  Inl panic \<Rightarrow> (Inl panic, cr, h1)
                | Inr input \<Rightarrow>
                    if \<not> templateMatchesInput (input\<lparr>ti_Name := pendingName\<rparr>) got then (Inl ErrAmbiguous, cr, h1)
                    else (case template_bindExternalID E x cr (rt_ID got) h1 of
                       (cr1, h2) \<Rightarrow>
                         (case template_setObservation E cr1 got h2 of
                            (cr2, h3) \<Rightarrow>
                              (Inr (observation True True True),
                               SetConditions x [Available] (cr2\<lparr>mg_ObservedGeneration := om_Generation (mg_Meta cr2)\<rparr>), h3))))))"

text \<open>The part after the lookup of a bound Template.\<close>

definition template_Observe_got :: "env \<Rightarrow> xp \<Rightarrow> template_cr \<Rightarrow> string \<Rightarrow> rp_template \<Rightarrow> trace \<Rightarrow> template_handler" where
  "template_Observe_got E x cr rid got h =
     (let statusBound = to_ID (tc_AtProvider cr) \<noteq> [];
          finish = (\<lambda>cr0.
            (case template_setObservation E cr0 got h of
               (cr1, h1) \<Rightarrow>
                 (case template_unrepairableExternalState got of
                    Some err \<Rightarrow> (Inl err, cr1\<lparr>mg_ObservedGeneration := 0\<rparr>, h1)
                  | None \<Rightarrow>
                      (case templateInput cr1 of
                         Inl panic \<Rightarrow> (Inl panic, cr1, h1)
                       | Inr input \<Rightarrow>
                           if templateMatchesInput input got
                           then (Inr (observation True True False),
                                 SetConditions x [Available] (cr1\<lparr>mg_ObservedGeneration := om_Generation (mg_Meta cr1)\<rparr>), h1)
                           else (Inr (observation True False False), cr1\<lparr>mg_ObservedGeneration := 0\<rparr>, h1)))))
      in if statusBound then finish cr
         else (case template_effectiveName cr of
                 Inl panic \<Rightarrow> (Inl panic, cr, h)
               | Inr effective \<Rightarrow>
                   if rt_Name got \<noteq> effective
                   then (Inl (Err ''Template binding marker did not resolve to the controller-owned UID-scoped name''), cr, h)
                   else finish (set_template_ID rid cr)))"

definition template_Observe_bound :: "env \<Rightarrow> xp \<Rightarrow> client \<Rightarrow> template_cr \<Rightarrow> trace \<Rightarrow> template_handler" where
  "template_Observe_bound E x c cr h =
     (let rid = GetExternalName x cr
      in if rid = [] then (Inr (observation False False False), cr, h)
         else if map_get (annotations cr) template_externalIDBoundAnnotation \<noteq> ''true''
         then (Inl (Err ''v0.1 does not adopt an unverified external-name; only provider create or UID-scoped recovery may bind an ID''), cr, h)
         else if ValidateRunPodID rid \<noteq> None then (Inl (Err ''Template external-name is invalid''), cr, h)
         else if to_ID (tc_AtProvider cr) \<noteq> [] \<and> to_ID (tc_AtProvider cr) \<noteq> rid
         then (Inl (Err ''Template external-name differs from its persisted controller-observed ID''), cr, h)
         else (case GetTemplate E c rid h of
            (Inl err, h1) \<Rightarrow>
              if errors_Is err ErrNotFound then
                (if deleting cr then (Inr (observation False False False), cr, h1)
                 else (Inl (Err ''bound RunPod Template is missing; refusing to create a replacement under an immutable external-name''), cr, h1))
              else (Inl err, cr, h1)
          | (Inr got, h1) \<Rightarrow> template_Observe_got E x cr rid got h1))"

definition template_Observe :: "env \<Rightarrow> xp \<Rightarrow> client \<Rightarrow> template_cr \<Rightarrow> trace \<Rightarrow> template_handler" where
  "template_Observe E x c cr h =
     (if \<not> deleting cr \<and> map_get (annotations cr) ambiguousAbsenceConfirmedAnnotation \<noteq> []
      then (Inl (Err ''ambiguous Template absence is acknowledged; delete the CR to finalize cleanup; recreation is disabled''), cr, h)
      else (case (if xp_ExternalCreateIncomplete x (annotations cr) then template_effectiveName cr
                  else Inr (map_get (annotations cr) template_ambiguousCreateNameAnnotation)) of
              Inl panic \<Rightarrow> (Inl panic, cr, h)
            | Inr pendingName \<Rightarrow>
                if pendingName \<noteq> [] then template_Observe_pending E x c cr pendingName h
                else template_Observe_bound E x c cr h))"

section \<open>Create, Update, Delete\<close>

definition template_spec_error :: "template_cr \<Rightarrow> error ptr" where
  "template_spec_error cr =
     (if \<not> digestImage (tp_ImageName (tc_ForProvider cr)) then Some (Err ''imageName must be pinned to a lowercase sha256 OCI digest'')
      else if \<not> safeName (tp_Name (tc_ForProvider cr)) then Some (Err ''name must use bounded ASCII identifier characters'')
      else validatePorts (tp_Ports (tc_ForProvider cr)))"

definition template_recoverAmbiguousCreate :: "env \<Rightarrow> xp \<Rightarrow> client \<Rightarrow> template_cr \<Rightarrow> template_input \<Rightarrow> string \<Rightarrow> trace \<Rightarrow> template_cr \<times> trace" where
  "template_recoverAmbiguousCreate E x c cr desired name h =
     (case FindTemplateByName E c name h of
        (Inl _, h1) \<Rightarrow> (cr, h1)
      | (Inr got, h1) \<Rightarrow>
          if \<not> templateMatchesInput (desired\<lparr>ti_Name := name\<rparr>) got then (cr, h1)
          else (case template_bindExternalID E x cr (rt_ID got) h1 of
                  (cr1, h2) \<Rightarrow> template_setObservation E cr1 got h2))"

definition template_Create_checked :: "env \<Rightarrow> xp \<Rightarrow> client \<Rightarrow> template_cr \<Rightarrow> trace \<Rightarrow> error ptr \<times> template_cr \<times> trace" where
  "template_Create_checked E x c cr h =
     (case templateInput cr of
        Inl panic \<Rightarrow> (Some panic, cr, h)
      | Inr desired \<Rightarrow>
          (let pendingName = map_get (annotations cr) template_ambiguousCreateNameAnnotation
           in if pendingName \<noteq> [] then
                (case template_recoverAmbiguousCreate E x c cr desired pendingName h of (cr1, h1) \<Rightarrow> (None, cr1, h1))
              else (case CreateTemplate E c desired h of
                 (Inl err, h1) \<Rightarrow>
                   if errors_Is err ErrCreateAmbiguous then
                     (case template_recoverAmbiguousCreate E x c (template_markAmbiguousCreate cr (ti_Name desired)) desired (ti_Name desired) h1 of
                        (cr1, h2) \<Rightarrow> (None, cr1, h2))
                   else (Some err, cr, h1)
               | (Inr got, h1) \<Rightarrow>
                   (case template_bindExternalID E x cr (rt_ID got) h1 of
                      (cr1, h2) \<Rightarrow> (case template_setObservation E cr1 got h2 of (cr2, h3) \<Rightarrow> (None, cr2, h3))))))"

definition template_Create :: "env \<Rightarrow> xp \<Rightarrow> client \<Rightarrow> template_cr \<Rightarrow> trace \<Rightarrow> error ptr \<times> template_cr \<times> trace" where
  "template_Create E x c cr0 h =
     (let cr = SetConditions x [Creating] cr0
      in if map_get (annotations cr) ambiguousAbsenceConfirmedAnnotation \<noteq> []
         then (Some (Err ''ambiguous Template absence acknowledgement forbids external creation; delete the CR to finalize''), cr, h)
         else if om_UID (mg_Meta cr) = []
         then (Some (Err ''Kubernetes UID is required before creating a RunPod Template''), cr, h)
         else (case template_spec_error cr of
            Some err \<Rightarrow> (Some err, cr, h)
          | None \<Rightarrow>
              (case time_Now E h of
                 (now, h1) \<Rightarrow>
                   (case template_ensureLifetimeActive cr now of
                      Some err \<Rightarrow> (Some err, cr, h1)
                    | None \<Rightarrow> template_Create_checked E x c cr h1))))"

definition template_Update :: "env \<Rightarrow> xp \<Rightarrow> client \<Rightarrow> template_cr \<Rightarrow> trace \<Rightarrow> error ptr \<times> template_cr \<times> trace" where
  "template_Update E x c cr h =
     (case template_spec_error cr of
        Some err \<Rightarrow> (Some err, cr, h)
      | None \<Rightarrow>
          (case time_Now E h of
             (now, h1) \<Rightarrow>
               (case template_ensureLifetimeActive cr now of
                  Some err \<Rightarrow> (Some err, cr, h1)
                | None \<Rightarrow>
                    (let rid = GetExternalName x cr
                     in if ValidateRunPodID rid \<noteq> None \<or> to_ID (tc_AtProvider cr) \<noteq> rid
                        then (Some (Err ''refusing to update a Template without a persisted controller-observed ID binding''), cr, h1)
                        else (case GetTemplate E c rid h1 of
                           (Inl err, h2) \<Rightarrow> (Some err, cr, h2)
                         | (Inr current, h2) \<Rightarrow>
                             (case templateInput cr of
                                Inl panic \<Rightarrow> (Some panic, cr, h2)
                              | Inr input \<Rightarrow>
                                  (case UpdateTemplate E c rid input h2 of
                                     (Inl err, h3) \<Rightarrow> (Some err, cr, h3)
                                   | (Inr got, h3) \<Rightarrow>
                                       (case template_setObservation E cr got h3 of (cr1, h4) \<Rightarrow> (None, cr1, h4))))))))) "

fun refers_to_template :: "string \<Rightarrow> endpoint_cr list \<Rightarrow> bool" where
  "refers_to_template name [] = False"
| "refers_to_template name (e # es) =
     (case ep_TemplateIDRef (ec_ForProvider e) of
        None \<Rightarrow> refers_to_template name es
      | Some ref \<Rightarrow> if ref_Name ref = name then True else refers_to_template name es)"

fun external_endpoint_guard :: "string \<Rightarrow> rp_endpoint list \<Rightarrow> error ptr" where
  "external_endpoint_guard templateID [] = None"
| "external_endpoint_guard templateID (e # es) =
     (if ValidateRunPodID (re_TemplateID e) \<noteq> None
      then Some (Err ''RunPod Endpoint list omitted or returned an invalid templateId; refusing Template deletion'')
      else if re_TemplateID e = templateID then Some (Err ''RunPod Endpoint must be deleted before its Template'')
      else external_endpoint_guard templateID es)"

definition template_Delete_guarded :: "env \<Rightarrow> client \<Rightarrow> string \<Rightarrow> trace \<Rightarrow> error ptr \<times> trace" where
  "template_Delete_guarded E c templateID h =
     (case GetTemplate E c templateID h of
        (Inl err, h1) \<Rightarrow> (if errors_Is err ErrNotFound then None else Some err, h1)
      | (Inr current, h1) \<Rightarrow>
          (case DeleteTemplate E c templateID h1 of
             (Some err, h2) \<Rightarrow> (if errors_Is err ErrNotFound then None else Some err, h2)
           | (None, h2) \<Rightarrow> (None, h2)))"

definition template_Delete :: "env \<Rightarrow> xp \<Rightarrow> client \<Rightarrow> template_cr \<Rightarrow> trace \<Rightarrow> error ptr \<times> template_cr \<times> trace" where
  "template_Delete E x c cr0 h =
     (let cr = SetConditions x [Deleting] cr0; templateID = GetExternalName x cr
      in if ValidateRunPodID templateID \<noteq> None \<or> to_ID (tc_AtProvider cr) \<noteq> templateID
         then (Some (Err ''refusing to delete a Template without a persisted controller-observed ID binding''), cr, h)
         else (case list_Endpoints E (om_Namespace (mg_Meta cr)) h of
            (Inl err, h1) \<Rightarrow> (Some err, cr, h1)
          | (Inr items, h1) \<Rightarrow>
              if refers_to_template (om_Name (mg_Meta cr)) items
              then (Some (Err ''Endpoint must be deleted before its Template''), cr, h1)
              else (case ListEndpoints E c h1 of
                 (Inl err, h2) \<Rightarrow> (Some err, cr, h2)
               | (Inr externalEndpoints, h2) \<Rightarrow>
                   (case external_endpoint_guard templateID externalEndpoints of
                      Some err \<Rightarrow> (Some err, cr, h2)
                    | None \<Rightarrow> (case template_Delete_guarded E c templateID h2 of (err, h3) \<Rightarrow> (err, cr, h3))))))"

section \<open>What the handlers leave unchanged\<close>

interpretation template_keys: annotation_keys template_ambiguousCreateNameAnnotation template_externalIDBoundAnnotation
  by unfold_locales
    (simp add: template_ambiguousCreateNameAnnotation_def template_externalIDBoundAnnotation_def externalNameKey_def
      externalCreateSucceededKey_def ambiguousAbsenceConfirmedAnnotation_def externalCreatePendingAnnotation_def)

lemma template_status_frame [simp]:
  "mg_Meta (cr\<lparr>tc_AtProvider := a\<rparr>) = mg_Meta cr" "annotations (cr\<lparr>tc_AtProvider := a\<rparr>) = annotations cr"
  "deleting (cr\<lparr>tc_AtProvider := a\<rparr>) = deleting cr" "GetExternalName x (cr\<lparr>tc_AtProvider := a\<rparr>) = GetExternalName x cr"
  by (simp_all add: annotations_def deleting_def GetExternalName_def)

lemma set_template_ID_frame [simp]:
  "mg_Meta (set_template_ID rid cr) = mg_Meta cr" "annotations (set_template_ID rid cr) = annotations cr"
  "deleting (set_template_ID rid cr) = deleting cr" "GetExternalName x (set_template_ID rid cr) = GetExternalName x cr"
  "tc_ForProvider (set_template_ID rid cr) = tc_ForProvider cr" "to_ID (tc_AtProvider (set_template_ID rid cr)) = rid"
  by (simp_all add: set_template_ID_def)

lemma template_SetConditions_frame [simp]:
  "tc_AtProvider (SetConditions x cs cr) = tc_AtProvider cr" "tc_ForProvider (SetConditions x cs cr) = tc_ForProvider cr"
  by (simp_all add: SetConditions_def)

lemmas template_updates = template_bindExternalID_def template_setObservation_def time_Now_def

text \<open>
  What an observation does: it sends nothing that changes external state, it leaves the annotations
  as they are or binds a valid identifier, and it never changes the deletion state.
\<close>

lemma template_Observe_pending_effect:
  assumes "template_Observe_pending E x c cr n h = (r, cr', h')"
  shows "mutations h' = mutations h \<and> committed E h' = committed E h \<and> deleting cr' = deleting cr
    \<and> (xp_laws x \<longrightarrow> binds_or_keeps x cr cr')"
proof -
  obtain f h1 where f: "FindTemplateByName E c n h = (f, h1)" by fastforce
  note q = templates.find_mutations [OF f] templates.find_committed [OF f]
  show ?thesis
    using assms q
    by (auto simp: template_Observe_pending_def f binds_or_keeps_def template_updates template_keys.bind_external_name
        split: sum.splits if_splits)
qed

lemma template_Observe_got_effect:
  assumes "template_Observe_got E x cr rid got h = (r, cr', h')"
  shows "mutations h' = mutations h \<and> committed E h' = committed E h \<and> deleting cr' = deleting cr \<and> annotations cr' = annotations cr"
  using assms
  by (auto simp: template_Observe_got_def Let_def template_updates split: sum.splits if_splits option.splits)

lemma template_Observe_bound_effect:
  assumes "template_Observe_bound E x c cr h = (r, cr', h')"
  shows "mutations h' = mutations h \<and> committed E h' = committed E h \<and> deleting cr' = deleting cr \<and> annotations cr' = annotations cr"
proof -
  obtain g h1 where g: "GetTemplate E c (GetExternalName x cr) h = (g, h1)" by fastforce
  note q = templates.get_mutations [OF g] templates.get_committed [OF g]
  show ?thesis
    using assms q
    by (auto simp: template_Observe_bound_def g Let_def split: sum.splits if_splits dest!: template_Observe_got_effect)
qed

lemma template_Observe_effect:
  assumes "template_Observe E x c cr h = (r, cr', h')"
  shows "mutations h' = mutations h \<and> committed E h' = committed E h \<and> deleting cr' = deleting cr
    \<and> (xp_laws x \<longrightarrow> binds_or_keeps x cr cr')"
  using assms
  by (auto simp: template_Observe_def split: sum.splits if_splits
      dest!: template_Observe_pending_effect template_Observe_bound_effect) (auto simp: binds_or_keeps_def)

lemma template_recover_effect:
  assumes "template_recoverAmbiguousCreate E x c cr desired name h = (cr', h')"
  shows "mutations h' = mutations h \<and> committed E h' = committed E h \<and> (xp_laws x \<longrightarrow> binds_or_keeps x cr cr')"
proof -
  obtain f h1 where f: "FindTemplateByName E c name h = (f, h1)" by fastforce
  show ?thesis
  proof (cases f)
    case (Inl e)
    with assms f templates.find_mutations [OF f] templates.find_committed [OF f] show ?thesis
      by (auto simp: template_recoverAmbiguousCreate_def binds_or_keeps_def)
  next
    case (Inr got)
    with templates.find_ok [OF f [unfolded Inr]] have "valid_id (rt_ID got)" by simp
    with Inr assms f templates.find_mutations [OF f] templates.find_committed [OF f] show ?thesis
      by (auto simp: template_recoverAmbiguousCreate_def binds_or_keeps_def template_updates template_keys.bind_external_name
          split: if_splits)
  qed
qed

lemma templateInput_name: "templateInput cr = Inr i \<Longrightarrow> template_effectiveName cr = Inr (ti_Name i) \<and> ti_Name i \<noteq> []"
  by (auto simp: templateInput_def Let_def template_effectiveName_def dest: uid_scoped_name_nonempty split: sum.splits)

lemma template_effectiveName_frame [simp]:
  "template_effectiveName (update_annotations f cr) = template_effectiveName cr"
  "template_effectiveName (SetConditions x cs cr) = template_effectiveName cr"
  by (simp_all add: template_effectiveName_def update_annotations_def SetConditions_def)

text \<open>
  The outcome of a creation that has passed its guards, by what reached the wire.
\<close>

lemma template_Create_checked_cases:
  assumes "template_Create_checked E x c cr h = (err, cr', h')"
  obtains (quiet) "mutations h' = mutations h" "committed E h' = committed E h"
  | (refused) q e where "map_get (annotations cr) template_ambiguousCreateNameAnnotation = []" "err = Some e" "cr' = cr"
      "rq_Method q = MethodPost" "h' = h @ [EvHTTP q]" "definitive (env_Do E h q)"
  | (posted) q h1 where "map_get (annotations cr) template_ambiguousCreateNameAnnotation = []" "err = None"
      "rq_Method q = MethodPost" "h1 = h @ [EvHTTP q]" "mutations h' = mutations h1" "committed E h' = committed E h1"
      "xp_laws x \<longrightarrow> valid_id (GetExternalName x cr') \<or>
         (\<exists>n. template_effectiveName cr = Inr n \<and> map_get (annotations cr') template_ambiguousCreateNameAnnotation = n)"
proof (cases "templateInput cr")
  case (Inl e)
  with assms show thesis by (intro quiet) (auto simp: template_Create_checked_def)
next
  case i: (Inr desired)
  let ?marked = "template_markAmbiguousCreate cr (ti_Name desired)"
  show thesis
  proof (cases "map_get (annotations cr) template_ambiguousCreateNameAnnotation = []")
    case False
    with i assms show thesis
      by (intro quiet) (auto simp: template_Create_checked_def Let_def split: prod.splits dest!: template_recover_effect)
  next
    case m: True
    obtain r h1 where cr: "CreateTemplate E c desired h = (r, h1)" by fastforce
    from templates.create_trace [OF cr] show thesis
    proof
      assume "h1 = h \<and> (\<exists>e. r = Inl e \<and> \<not> errors_Is e ErrCreateAmbiguous)"
      with i m cr assms show thesis by (intro quiet) (auto simp: template_Create_checked_def)
    next
      assume "\<exists>q. rq_Method q = MethodPost \<and> h1 = h @ [EvHTTP q] \<and>
        (\<forall>e. r = Inl e \<and> \<not> errors_Is e ErrCreateAmbiguous \<longrightarrow> definitive (env_Do E h q))"
      then obtain q where q: "rq_Method q = MethodPost" "h1 = h @ [EvHTTP q]"
        "\<And>e. r = Inl e \<Longrightarrow> \<not> errors_Is e ErrCreateAmbiguous \<Longrightarrow> definitive (env_Do E h q)" by blast
      show thesis
      proof (cases r)
        case (Inr got)
        with templates.create_ok [OF cr [unfolded Inr]] have "valid_id (rt_ID got)" by simp
        with Inr i m cr assms q show thesis
          by (intro posted [of q h1]) (auto simp: template_Create_checked_def Let_def template_updates template_keys.bind_external_name)
      next
        case (Inl e)
        show thesis
        proof (cases "errors_Is e ErrCreateAmbiguous")
          case False
          with Inl i m cr assms q show thesis by (intro refused [of e q]) (auto simp: template_Create_checked_def)
        next
          case True
          with Inl i m cr assms have r: "template_recoverAmbiguousCreate E x c ?marked desired (ti_Name desired) h1 = (cr', h')" "err = None"
            by (auto simp: template_Create_checked_def split: prod.splits)
          from template_recover_effect [OF r(1)] templateInput_name [OF i] q m r(2) show thesis
            by (intro posted [of q h1]) (auto simp: binds_or_keeps_def template_markAmbiguousCreate_def map_get_def)
        qed
      qed
    qed
  qed
qed

lemma template_Create_quiet_or_checked:
  assumes "template_Create E x c cr0 h = (err, cr', h')"
  obtains (quiet) "mutations h' = mutations h" "committed E h' = committed E h" "err \<noteq> None"
  | (checked) "map_get (annotations cr0) ambiguousAbsenceConfirmedAnnotation = []" "om_UID (mg_Meta cr0) \<noteq> []"
      "template_spec_error cr0 = None"
      "lifetime_active (om_CreationTimestamp (mg_Meta cr0)) (tp_MaxLifetimeSeconds (tc_ForProvider cr0)) (env_Now E h)"
      "template_Create_checked E x c (SetConditions x [Creating] cr0) (h @ [EvClock]) = (err, cr', h')"
proof -
  have f: "template_spec_error (SetConditions x [Creating] cr0) = template_spec_error cr0"
    by (simp add: template_spec_error_def SetConditions_def)
  have l: "template_ensureLifetimeActive (SetConditions x [Creating] cr0) now = None \<longleftrightarrow>
      lifetime_active (om_CreationTimestamp (mg_Meta cr0)) (tp_MaxLifetimeSeconds (tc_ForProvider cr0)) now" for now
    by (simp add: template_ensureLifetimeActive_def SetConditions_def)
  show thesis
  proof (cases "map_get (annotations cr0) ambiguousAbsenceConfirmedAnnotation = [] \<and> om_UID (mg_Meta cr0) \<noteq> [] \<and>
      template_spec_error cr0 = None \<and>
      lifetime_active (om_CreationTimestamp (mg_Meta cr0)) (tp_MaxLifetimeSeconds (tc_ForProvider cr0)) (env_Now E h)")
    case True
    with assms show thesis by (intro checked) (simp_all add: template_Create_def Let_def time_Now_def f l [THEN iffD2])
  next
    case False
    with assms l [of "env_Now E h"] have "mutations h' = mutations h \<and> committed E h' = committed E h \<and> err \<noteq> None"
      by (auto simp: template_Create_def Let_def time_Now_def f split: if_splits option.splits; metis)
    then show thesis by (intro quiet) simp_all
  qed
qed

lemma template_Update_effect:
  assumes "template_Update E x c cr h = (err, cr', h')"
  shows "annotations cr' = annotations cr \<and> committed E h' = committed E h
    \<and> (mutation_methods h' = mutation_methods h \<or> mutation_methods h' = mutation_methods h @ [MethodPatch]
         \<and> template_spec_error cr = None
         \<and> lifetime_active (om_CreationTimestamp (mg_Meta cr)) (tp_MaxLifetimeSeconds (tc_ForProvider cr)) (env_Now E h)
         \<and> valid_id (GetExternalName x cr) \<and> to_ID (tc_AtProvider cr) = GetExternalName x cr)"
proof (cases "template_spec_error cr = None \<and> template_ensureLifetimeActive cr (env_Now E h) = None \<and>
    valid_id (GetExternalName x cr) \<and> to_ID (tc_AtProvider cr) = GetExternalName x cr")
  case False
  with assms show ?thesis
    by (auto simp: template_Update_def time_Now_def Let_def split: option.splits if_splits)
next
  case ok: True
  then have life: "lifetime_active (om_CreationTimestamp (mg_Meta cr)) (tp_MaxLifetimeSeconds (tc_ForProvider cr)) (env_Now E h)"
    by (auto simp: template_ensureLifetimeActive_def split: if_splits)
  let ?id = "GetExternalName x cr" and ?h1 = "h @ [EvClock]"
  obtain g h2 where g: "GetTemplate E c ?id ?h1 = (g, h2)" by fastforce
  note q = templates.get_mutations [OF g] templates.get_committed [OF g]
  show ?thesis
  proof (cases "\<exists>cur i. g = Inr cur \<and> templateInput cr = Inr i")
    case False
    with assms ok g q show ?thesis
      by (auto simp: template_Update_def time_Now_def Let_def mutation_methods_def split: sum.splits)
  next
    case True
    then obtain cur i where i: "g = Inr cur" "templateInput cr = Inr i" by blast
    obtain u h3 where u: "UpdateTemplate E c ?id i h2 = (u, h3)" by fastforce
    have "mutation_methods h3 = mutation_methods h2 \<or> mutation_methods h3 = mutation_methods h2 @ [MethodPatch]"
      using templates.update_emits [OF u] by (auto dest!: emits_mutation_methods)
    moreover have "mutation_methods h2 = mutation_methods h" using q by (simp add: mutation_methods_def)
    moreover have "annotations cr' = annotations cr" "mutation_methods h' = mutation_methods h3" "committed E h' = committed E h3"
      using assms ok g i u by (auto simp: template_Update_def time_Now_def Let_def template_setObservation_def split: sum.splits)
    ultimately show ?thesis using q templates.update_committed [OF u] ok life by auto
  qed
qed

lemma external_endpoint_guard_None:
  "external_endpoint_guard tid es = None \<longleftrightarrow> (\<forall>e \<in> set es. valid_id (re_TemplateID e) \<and> re_TemplateID e \<noteq> tid)"
  by (induction es) auto

lemma refers_to_template_iff:
  "refers_to_template name es \<longleftrightarrow> (\<exists>e \<in> set es. \<exists>ref. ep_TemplateIDRef (ec_ForProvider e) = Some ref \<and> ref_Name ref = name)"
  by (induction es) (auto split: option.splits)

lemma ListEndpoints_emits: "ListEndpoints E c h = (r, h') \<Longrightarrow> emits h h' []"
  by (auto simp: ListEndpoints_def split: sum.splits prod.splits option.splits dest: doJSON_get_emits)

lemma template_Delete_guarded_effect:
  assumes "template_Delete_guarded E c tid h = (err, h')"
  shows "posts h' = posts h \<and> committed E h' = committed E h"
proof -
  obtain g h1 where g: "GetTemplate E c tid h = (g, h1)" by fastforce
  obtain d h2 where d: "DeleteTemplate E c tid h1 = (d, h2)" by fastforce
  from assms g d templates.get_mutations [OF g] templates.get_committed [OF g] templates.del_no_post [OF d]
    templates.del_committed [OF d]
  show ?thesis by (auto simp: template_Delete_guarded_def posts_def split: sum.splits option.splits)
qed

text \<open>A deletion passes its guards, or sends nothing that changes external state.\<close>

lemma template_Delete_cases:
  assumes "template_Delete E x c cr h = (err, cr', h')"
  obtains (quiet) "annotations cr' = annotations cr" "mutations h' = mutations h" "committed E h' = committed E h" "err \<noteq> None"
  | (guarded) items h2 es h3 where "annotations cr' = annotations cr" "valid_id (GetExternalName x cr)"
      "to_ID (tc_AtProvider cr) = GetExternalName x cr"
      "env_ListEndpoints E h (om_Namespace (mg_Meta cr)) = Inr items" "\<not> refers_to_template (om_Name (mg_Meta cr)) items"
      "h2 = h @ [EvList KEndpoint (om_Namespace (mg_Meta cr))]"
      "ListEndpoints E c h2 = (Inr es, h3)" "\<forall>e \<in> set es. re_TemplateID e \<noteq> GetExternalName x cr"
      "template_Delete_guarded E c (GetExternalName x cr) h3 = (err, h')"
proof -
  let ?id = "GetExternalName x cr" and ?ns = "om_Namespace (mg_Meta cr)"
  have id: "GetExternalName x (SetConditions x cs cr) = ?id" "tc_AtProvider (SetConditions x cs cr) = tc_AtProvider cr" for cs
    by (simp_all add: SetConditions_def GetExternalName_def annotations_def)
  let ?h2 = "h @ [EvList KEndpoint ?ns]"
  obtain l h3 where l: "ListEndpoints E c ?h2 = (l, h3)" by fastforce
  have q: "mutations h3 = mutations h" "committed E h3 = committed E h"
    using ListEndpoints_emits [OF l] emits_no_post_committed [OF ListEndpoints_emits [OF l]] by (auto dest!: emits_mutations)
  show thesis
  proof (cases "valid_id ?id \<and> to_ID (tc_AtProvider cr) = ?id \<and> (\<exists>items. env_ListEndpoints E h ?ns = Inr items \<and>
      \<not> refers_to_template (om_Name (mg_Meta cr)) items \<and> (\<exists>es. l = Inr es \<and> external_endpoint_guard ?id es = None))")
    case True
    then obtain items es where ok: "valid_id ?id" "to_ID (tc_AtProvider cr) = ?id" "env_ListEndpoints E h ?ns = Inr items"
      "\<not> refers_to_template (om_Name (mg_Meta cr)) items" "l = Inr es" "external_endpoint_guard ?id es = None" by blast
    then have "annotations cr' = annotations cr" "template_Delete_guarded E c ?id h3 = (err, h')"
      using assms l by (auto simp: template_Delete_def Let_def id list_Endpoints_def split: prod.splits)
    moreover have "\<forall>e \<in> set es. re_TemplateID e \<noteq> ?id" using ok(6) by (simp add: external_endpoint_guard_None)
    ultimately show thesis using ok l by (intro guarded [of items ?h2 es h3]) simp_all
  next
    case False
    then have "annotations cr' = annotations cr \<and> mutations h' = mutations h \<and> committed E h' = committed E h \<and> err \<noteq> None"
      using assms l q
      by (auto simp: template_Delete_def Let_def id list_Endpoints_def map_sum_Inr split: sum.splits if_splits option.splits; metis)
    then show thesis by (intro quiet) simp_all
  qed
qed

section \<open>At most one creation\<close>

definition template_handlers :: "env \<Rightarrow> xp \<Rightarrow> client \<Rightarrow> template_cr external_client" where
  "template_handlers E x c =
     \<lparr>xc_Observe = template_Observe E x c, xc_Create = template_Create E x c,
      xc_Update = template_Update E x c, xc_Delete = template_Delete E x c\<rparr>"

lemma template_handlers_simps [simp]:
  "xc_Observe (template_handlers E x c) = template_Observe E x c" "xc_Create (template_handlers E x c) = template_Create E x c"
  "xc_Update (template_handlers E x c) = template_Update E x c" "xc_Delete (template_handlers E x c) = template_Delete E x c"
  by (simp_all add: template_handlers_def)

lemma template_Observe_got_exists: "template_Observe_got E x cr rid got h = (Inr ob, cr', h') \<Longrightarrow> xo_ResourceExists ob"
  by (auto simp: template_Observe_got_def Let_def template_updates split: sum.splits if_splits option.splits)

lemma template_Observe_exists:
  assumes "template_Observe E x c cr h = (Inr ob, cr', h')" "create_locked x template_ambiguousCreateNameAnnotation cr" "\<not> deleting cr"
  shows "xo_ResourceExists ob"
proof (cases "xp_ExternalCreateIncomplete x (annotations cr) \<or> map_get (annotations cr) template_ambiguousCreateNameAnnotation \<noteq> []")
  case True
  with assms(1,3) obtain n where "template_Observe_pending E x c cr n h = (Inr ob, cr', h')"
    by (auto simp: template_Observe_def template_effectiveName_def dest: uid_scoped_name_nonempty split: if_splits sum.splits)
  then show ?thesis using assms(3)
    by (auto simp: template_Observe_pending_def template_updates split: sum.splits if_splits prod.splits)
next
  case False
  with assms(2) have n: "GetExternalName x cr \<noteq> []" by (simp add: create_locked_def)
  from False assms(1) have "template_Observe_bound E x c cr h = (Inr ob, cr', h')"
    by (auto simp: template_Observe_def split: if_splits)
  with n assms(3) show ?thesis
    by (auto simp: template_Observe_bound_def Let_def split: sum.splits prod.splits if_splits dest: template_Observe_got_exists)
qed

lemma template_Create_committed:
  assumes "template_Create E x c cr h = (err, cr', h')"
  shows "committed E h' \<le> Suc (committed E h)"
    and "xp_laws x \<Longrightarrow> committed E h' \<noteq> committed E h \<Longrightarrow> create_locked x template_ambiguousCreateNameAnnotation cr'"
proof -
  have "committed E h' \<le> Suc (committed E h) \<and>
    (xp_laws x \<longrightarrow> committed E h' \<noteq> committed E h \<longrightarrow> create_locked x template_ambiguousCreateNameAnnotation cr')"
    using assms
  proof (cases rule: template_Create_quiet_or_checked)
    case checked
    from checked(5) show ?thesis
    proof (cases rule: template_Create_checked_cases)
      case (refused q e)
      then show ?thesis by (simp add: uncertain_post_def)
    next
      case (posted q h1)
      have "create_locked x template_ambiguousCreateNameAnnotation cr'" if "xp_laws x"
        using posted(7) that
        by (auto simp: template_effectiveName_def intro: locked_by_name locked_by_marker dest: uid_scoped_name_nonempty)
      with posted show ?thesis by simp
    qed simp
  qed simp
  then show "committed E h' \<le> Suc (committed E h)"
    and "xp_laws x \<Longrightarrow> committed E h' \<noteq> committed E h \<Longrightarrow> create_locked x template_ambiguousCreateNameAnnotation cr'"
    by blast+
qed

lemma template_Delete_effect:
  assumes "template_Delete E x c cr h = (err, cr', h')"
  shows "annotations cr' = annotations cr \<and> committed E h' = committed E h"
  using assms
proof (cases rule: template_Delete_cases)
  case (guarded items h2 es h3)
  have "committed E h3 = committed E h"
    using emits_no_post_committed [OF ListEndpoints_emits [OF guarded(7)]] guarded(6) by simp
  with template_Delete_guarded_effect [OF guarded(9)] guarded(1) show ?thesis by simp
qed simp

lemma keeps_lock_same: "annotations cr' = annotations cr \<Longrightarrow> keeps_lock x k cr cr'"
  by (rule binds_or_keeps_lock) (simp add: binds_or_keeps_def)

interpretation template_once: create_once template_ambiguousCreateNameAnnotation template_handlers
proof unfold_locales
  fix E x c and cr :: template_cr and h r cr' h' ob err
  show "xc_Observe (template_handlers E x c) cr h = (r, cr', h') \<Longrightarrow> committed E h' = committed E h"
    by (auto dest: template_Observe_effect)
  show "xc_Observe (template_handlers E x c) cr h = (r, cr', h') \<Longrightarrow> deleting cr' = deleting cr"
    by (auto dest: template_Observe_effect)
  show "xp_laws x \<Longrightarrow> xc_Observe (template_handlers E x c) cr h = (r, cr', h') \<Longrightarrow>
      keeps_lock x template_ambiguousCreateNameAnnotation cr cr'"
    by (auto dest!: template_Observe_effect intro: binds_or_keeps_lock)
  show "xc_Observe (template_handlers E x c) cr h = (Inr ob, cr', h') \<Longrightarrow> create_locked x template_ambiguousCreateNameAnnotation cr \<Longrightarrow>
      \<not> deleting cr \<Longrightarrow> xo_ResourceExists ob"
    by (simp add: template_Observe_exists)
  show "xc_Create (template_handlers E x c) cr h = (err, cr', h') \<Longrightarrow> committed E h' \<le> Suc (committed E h)"
    by (simp add: template_Create_committed(1))
  show "xp_laws x \<Longrightarrow> xc_Create (template_handlers E x c) cr h = (err, cr', h') \<Longrightarrow> committed E h' \<noteq> committed E h \<Longrightarrow>
      create_locked x template_ambiguousCreateNameAnnotation cr'"
    by (simp add: template_Create_committed(2))
  show "xc_Update (template_handlers E x c) cr h = (err, cr', h') \<Longrightarrow> committed E h' = committed E h"
    by (auto dest: template_Update_effect)
  show "xc_Update (template_handlers E x c) cr h = (err, cr', h') \<Longrightarrow> keeps_lock x template_ambiguousCreateNameAnnotation cr cr'"
    by (auto dest!: template_Update_effect intro: keeps_lock_same)
  show "xc_Delete (template_handlers E x c) cr h = (err, cr', h') \<Longrightarrow> committed E h' = committed E h"
    by (auto dest: template_Delete_effect)
  show "xc_Delete (template_handlers E x c) cr h = (err, cr', h') \<Longrightarrow> keeps_lock x template_ambiguousCreateNameAnnotation cr cr'"
    by (auto dest!: template_Delete_effect intro: keeps_lock_same)
qed

section \<open>Ports\<close>

lemma digits_val_snoc: "digits_val (s @ [c]) = 10 * digits_val s + digit_val c"
  by (simp add: digits_val_def)

lemma digit_val_range: "is_digit c \<Longrightarrow> 0 \<le> digit_val c \<and> digit_val c \<le> 9"
  by (auto simp: digit_val_def is_digit_def less_eq_char_def)

lemma digit_val_char: "is_digit c \<Longrightarrow> char_of (48 + nat (digit_val c)) = c"
  by (simp add: digit_val_def is_digit_def less_eq_char_def nat_diff_distrib)

lemma char_of_48 [simp]: "char_of (48 :: nat) = CHR ''0''"
  by code_simp

lemma digits_val_nonneg: "list_all is_digit s \<Longrightarrow> 0 \<le> digits_val s"
  by (induction s rule: rev_induct) (auto simp: digits_val_snoc digits_val_def [of "[]"] dest!: digit_val_range)

lemma digits_val_pos: "list_all is_digit s \<Longrightarrow> s \<noteq> [] \<Longrightarrow> hd s \<noteq> CHR ''0'' \<Longrightarrow> 1 \<le> digits_val s"
proof (induction s rule: rev_induct)
  case (snoc c s)
  show ?case
  proof (cases "s = []")
    case True
    have "digit_val c \<noteq> 0"
      using snoc.prems True digit_val_char [of c] by auto
    with True snoc.prems digit_val_range [of c] show ?thesis by (simp add: digits_val_def)
  next
    case False
    with snoc digit_val_range [of c] show ?thesis by (simp add: digits_val_snoc)
  qed
qed simp

text \<open>A digit string without a leading zero is the decimal text of its value.\<close>

lemma show_digits_val:
  "list_all is_digit s \<Longrightarrow> s \<noteq> [] \<Longrightarrow> hd s \<noteq> CHR ''0'' \<Longrightarrow> show_nat (nat (digits_val s)) = s"
proof (induction s rule: rev_induct)
  case (snoc c s)
  have d: "0 \<le> digit_val c" "digit_val c \<le> 9" "char_of (48 + nat (digit_val c)) = c"
    using snoc.prems digit_val_range [of c] digit_val_char [of c] by auto
  show ?case
  proof (cases "s = []")
    case True
    from d have "nat (digit_val c) < 10" by linarith
    with True d show ?thesis by (simp add: digits_val_def show_nat.simps [of "nat _"])
  next
    case False
    with snoc.prems have s: "list_all is_digit s" "hd s \<noteq> CHR ''0''" by auto
    from digits_val_pos [OF s(1) False s(2)] have v: "1 \<le> digits_val s" .
    let ?n = "nat (digits_val (s @ [c]))"
    have "?n div 10 = nat (digits_val s)" "?n mod 10 = nat (digit_val c)" "\<not> ?n < 10"
      using v d by (auto simp: digits_val_snoc nat_add_distrib nat_mult_distrib)
    with snoc.IH [OF s(1) False s(2)] d(3) show ?thesis by (subst show_nat.simps) simp
  qed
qed simp

lemma Atoi_digits:
  assumes "list_all is_digit s" "s \<noteq> []" "digits_val s < 2 ^ 63"
  shows "Atoi s = Some (digits_val s)"
proof -
  obtain c cs where s: "s = c # cs" using assms(2) by (cases s) auto
  with assms(1) have "c \<noteq> CHR ''-''" "c \<noteq> CHR ''+''" by (auto simp: is_digit_def less_eq_char_def)
  with s assms digits_val_nonneg [OF assms(1)] show ?thesis by (simp add: Atoi_def)
qed

lemma digits_val_bound: "list_all is_digit s \<Longrightarrow> digits_val s < 10 ^ length s"
  by (induction s rule: rev_induct) (auto simp: digits_val_snoc digits_val_def [of "[]"] dest!: digit_val_range)

definition good_port :: "string \<Rightarrow> bool" where
  "good_port s \<longleftrightarrow> (\<exists>n proto. 1 \<le> n \<and> n \<le> 65535 \<and> proto \<in> {''http'', ''tcp''} \<and> s = show_nat n @ ''/'' @ proto)"

lemma show_nat_digits: "list_all is_digit (show_nat n) \<and> show_nat n \<noteq> [] \<and> (0 < n \<longrightarrow> hd (show_nat n) \<noteq> CHR ''0'')
    \<and> digits_val (show_nat n) = int n"
proof (induction n rule: show_nat.induct)
  case (1 n)
  have dig: "is_digit (char_of (48 + k))" "digit_val (char_of (48 + k)) = int k" if "k < 10" for k :: nat
    using that by (auto simp: is_digit_def less_eq_char_def digit_val_def)
  show ?case
  proof (cases "n < 10")
    case True
    have "char_of (48 + n) \<noteq> CHR ''0''" if "0 < n"
    proof
      assume "char_of (48 + n) = CHR ''0''"
      with dig(2) [OF True] have "int n = digit_val CHR ''0''" by simp
      with that show False by (simp add: digit_val_def)
    qed
    with True dig [OF True] show ?thesis by (simp add: show_nat.simps [of n] digits_val_def)
  next
    case False
    with "1.IH" have IH: "list_all is_digit (show_nat (n div 10))" "show_nat (n div 10) \<noteq> []"
      "hd (show_nat (n div 10)) \<noteq> CHR ''0''" "digits_val (show_nat (n div 10)) = int (n div 10)" by auto
    have "int n = 10 * int (n div 10) + int (n mod 10)" by presburger
    with False IH dig [of "n mod 10"] show ?thesis by (simp add: show_nat.simps [of n] digits_val_snoc)
  qed
qed

lemma takeWhile_slash: "CHR ''/'' \<notin> set ds \<Longrightarrow>
    takeWhile (\<lambda>c. c \<noteq> CHR ''/'') (ds @ CHR ''/'' # rest) = ds \<and> dropWhile (\<lambda>c. c \<noteq> CHR ''/'') (ds @ CHR ''/'' # rest) = CHR ''/'' # rest"
  by (induction ds) auto

lemma slash_not_digit: "list_all is_digit ds \<Longrightarrow> CHR ''/'' \<notin> set ds"
  by (auto simp: list_all_iff is_digit_def less_eq_char_def)

lemma port_checks_iff:
  "portSpec s \<and> (\<exists>n. Atoi (takeWhile (\<lambda>c. c \<noteq> CHR ''/'') s) = Some n \<and> 1 \<le> n \<and> n \<le> 65535) \<longleftrightarrow> good_port s"
proof
  assume "portSpec s \<and> (\<exists>n. Atoi (takeWhile (\<lambda>c. c \<noteq> CHR ''/'') s) = Some n \<and> 1 \<le> n \<and> n \<le> 65535)"
  then obtain ds rest n where s: "s = ds @ rest" "rest \<in> {''/http'', ''/tcp''}" "ds \<noteq> []" "hd ds \<noteq> CHR ''0''" "length ds \<le> 5"
    "list_all is_digit ds" "Atoi ds = Some n" "1 \<le> n" "n \<le> 65535"
    unfolding portSpec_def Let_def by (metis takeWhile_dropWhile_id)
  have "digits_val ds < 10 ^ length ds" "(10::int) ^ length ds \<le> 10 ^ 5"
    using digits_val_bound [OF s(6)] power_increasing [OF s(5), of "10::int"] by simp_all
  then have "n = digits_val ds" using Atoi_digits [OF s(6,3)] s(7) by simp
  then have "s = show_nat (nat n) @ rest" using show_digits_val [OF s(6,3,4)] s(1) by simp
  with s(2,8,9) show "good_port s"
    unfolding good_port_def by (intro exI [of _ "nat n"] exI [of _ "tl rest"]) auto
next
  assume "good_port s"
  then obtain n proto where n: "1 \<le> n" "n \<le> 65535" "proto \<in> {''http'', ''tcp''}" "s = show_nat n @ CHR ''/'' # proto"
    by (auto simp: good_port_def)
  note d = show_nat_digits [of n]
  have len: "length (show_nat n) \<le> 5"
  proof (rule ccontr)
    assume "\<not> length (show_nat n) \<le> 5"
    then obtain k where k: "length (show_nat n) = Suc (5 + k)" by (metis add.commute less_imp_Suc_add not_le)
    have "10 ^ (5 + k) \<le> digits_val (show_nat n)"
    proof -
      have ge: "list_all is_digit s \<Longrightarrow> s \<noteq> [] \<Longrightarrow> hd s \<noteq> CHR ''0'' \<Longrightarrow> 10 ^ (length s - 1) \<le> digits_val s" for s
      proof (induction s rule: rev_induct)
        case (snoc c s)
        show ?case
        proof (cases "s = []")
          case True
          with snoc.prems digits_val_pos [of "[c]"] show ?thesis by simp
        next
          case False
          with snoc have "10 ^ (length s - 1) \<le> digits_val s" by simp
          moreover have "(10::int) ^ length s = 10 * 10 ^ (length s - 1)"
            using False by (metis One_nat_def Suc_pred length_greater_0_conv power_Suc)
          ultimately show ?thesis using snoc.prems digit_val_range [of c] by (simp add: digits_val_snoc)
        qed
      qed simp
      from ge [of "show_nat n"] d n(1) k show ?thesis by simp
    qed
    moreover have "(10::int) ^ 5 \<le> 10 ^ (5 + k)" using power_increasing [of 5 "5 + k" "10::int"] by simp
    moreover have "digits_val (show_nat n) \<le> 65535" using d n(2) by simp
    ultimately show False by simp
  qed
  have tw: "takeWhile (\<lambda>c. c \<noteq> CHR ''/'') s = show_nat n" "dropWhile (\<lambda>c. c \<noteq> CHR ''/'') s = CHR ''/'' # proto"
    using takeWhile_slash [OF slash_not_digit, of "show_nat n" proto] d n(4) by simp_all
  have "Atoi (show_nat n) = Some (int n)" using Atoi_digits [of "show_nat n"] d n(2) by simp
  with tw len d n show "portSpec s \<and> (\<exists>n. Atoi (takeWhile (\<lambda>c. c \<noteq> CHR ''/'') s) = Some n \<and> 1 \<le> n \<and> n \<le> 65535)"
    unfolding portSpec_def Let_def by auto
qed

lemma validatePorts_loop_None: "validatePorts_loop ports = None \<longleftrightarrow> list_all good_port ports"
proof (induction ports)
  case (Cons p ps)
  have "validatePorts_loop (p # ps) = None \<longleftrightarrow>
      (portSpec p \<and> (\<exists>n. Atoi (takeWhile (\<lambda>c. c \<noteq> CHR ''/'') p) = Some n \<and> 1 \<le> n \<and> n \<le> 65535)) \<and> validatePorts_loop ps = None"
    by (auto split: option.splits)
  with Cons port_checks_iff [of p] show ?case by simp
qed simp

section \<open>Properties\<close>

text \<open>
  \<open>validatePorts\<close> accepts exactly the non-empty lists of port declarations, each the decimal text
  of a number from 1 to 65535 followed by \<open>/http\<close> or \<open>/tcp\<close>: no leading zeros, signs, spaces or other
  protocols.
\<close>

theorem validatePorts_iff:
  "validatePorts ports = None \<longleftrightarrow>
     elems ports \<noteq> [] \<and> list_all (\<lambda>s. \<exists>n proto. 1 \<le> n \<and> n \<le> 65535 \<and> proto \<in> {''http'', ''tcp''} \<and> s = show_nat n @ ''/'' @ proto) (elems ports)"
proof -
  have "list_all good_port xs = list_all (\<lambda>s. \<exists>n proto. 1 \<le> n \<and> n \<le> 65535 \<and> proto \<in> {''http'', ''tcp''} \<and> s = show_nat n @ ''/'' @ proto) xs" for xs
    by (simp add: good_port_def [abs_def])
  then show ?thesis by (simp add: validatePorts_def validatePorts_loop_None)
qed

text \<open>
  C29: the guards of the Template's Create. It sends at most one POST and no other mutating request,
  and none at all unless the absence of the resource has not been acknowledged, the object has a
  UID, the image is pinned by digest, the name and the ports are valid, the maximum lifetime has not
  elapsed at the time of the check and no earlier creation is ambiguous.
\<close>

theorem template_Create_guards:
  assumes "template_Create E x c cr h = (err, cr', h')"
  shows "mutation_methods h' = mutation_methods h \<or>
    mutation_methods h' = mutation_methods h @ [MethodPost]
    \<and> map_get (annotations cr) ambiguousAbsenceConfirmedAnnotation = []
    \<and> map_get (annotations cr) template_ambiguousCreateNameAnnotation = []
    \<and> om_UID (mg_Meta cr) \<noteq> []
    \<and> digestImage (tp_ImageName (tc_ForProvider cr)) \<and> safeName (tp_Name (tc_ForProvider cr))
    \<and> validatePorts (tp_Ports (tc_ForProvider cr)) = None
    \<and> (om_CreationTimestamp (mg_Meta cr) = 0 \<or>
       env_Now E h < om_CreationTimestamp (mg_Meta cr) + sint (tp_MaxLifetimeSeconds (tc_ForProvider cr)) * 10 ^ 9)"
  using assms
proof (cases rule: template_Create_quiet_or_checked)
  case quiet
  then show ?thesis by (simp add: mutation_methods_def)
next
  case checked
  have spec: "digestImage (tp_ImageName (tc_ForProvider cr))" "safeName (tp_Name (tc_ForProvider cr))"
    "validatePorts (tp_Ports (tc_ForProvider cr)) = None"
    using checked(3) by (auto simp: template_spec_error_def split: if_splits)
  from checked(5) show ?thesis
  proof (cases rule: template_Create_checked_cases)
    case quiet
    then show ?thesis by (simp add: mutation_methods_def)
  next
    case (refused q e)
    then show ?thesis using checked(1,2,4) spec by (simp add: lifetime_active_iff)
  next
    case (posted q h1)
    then have "mutation_methods h' = mutation_methods h @ [MethodPost]" by (simp add: mutation_methods_def)
    then show ?thesis using posted(1) checked(1,2,4) spec by (simp add: lifetime_active_iff)
  qed
qed

definition demo_template_cr :: template_cr where
  "demo_template_cr = \<lparr>mg_Meta = demo_meta, mg_ProviderConfigReference = None, mg_Conditions = [], mg_ObservedGeneration = 0,
     tc_ForProvider = \<lparr>tp_MaxLifetimeSeconds = 3600, tp_Name = ''demo'', tp_ImageName = ''img@sha256:'' @ replicate 64 (CHR ''a''),
       tp_ContainerDiskInGB = None, tp_DockerEntrypoint = None, tp_DockerStartCmd = None, tp_Ports = Some [''8000/http''], tp_VolumeInGB = 0\<rparr>,
     tc_AtProvider = \<lparr>to_ID = [], to_Name = [], to_ImageName = [], to_IsServerless = False, to_LastObservedAt = 0\<rparr>\<rparr>"

lemma demo_template_Create_posts:
  "mutation_methods (snd (snd (template_Create down_env xp_plain demo_client demo_template_cr []))) = [MethodPost]"
  by code_simp

theorem template_Create_guards_witness:
  "\<exists>err cr' h'. template_Create down_env xp_plain demo_client demo_template_cr [] = (err, cr', h')
     \<and> mutation_methods h' = [MethodPost] \<and> digestImage (tp_ImageName (tc_ForProvider demo_template_cr))"
proof -
  obtain err cr' h' where c: "template_Create down_env xp_plain demo_client demo_template_cr [] = (err, cr', h')"
    by (cases "template_Create down_env xp_plain demo_client demo_template_cr []") auto
  with template_Create_guards [OF c] demo_template_Create_posts show ?thesis by auto
qed

text \<open>
  C2: a Template is created at most once. In every run of the reconciler's protocol over the
  handlers, starting with an object that has committed nothing, at most one POST is sent that the
  peer did not definitively refuse, whatever the peer, the network and the API server do, and also
  when the process crashes after the POST and loses what Create wrote on the object.
\<close>

theorem template_created_at_most_once:
  assumes "xp_laws x"
    and "reconciles x template_ambiguousCreateNameAnnotation (template_handlers E x c) (cr, None, []) (cr', seen, h)"
  shows "committed E h \<le> 1"
  by (rule template_once.at_most_one_committed [OF assms(2,1)]) (simp add: committed_def)

theorem template_created_at_most_once_witness:
  "\<exists>cr' h. reconciles xp_plain template_ambiguousCreateNameAnnotation (template_handlers down_env xp_plain demo_client)
       (demo_template_cr, None, []) (cr', None, h) \<and> mutation_methods h = [MethodPost] \<and> committed down_env h \<le> 1"
proof -
  let ?X = "template_handlers down_env xp_plain demo_client" and ?k = template_ambiguousCreateNameAnnotation
  obtain err cr' h' where c: "template_Create down_env xp_plain demo_client demo_template_cr [] = (err, cr', h')"
    by (cases "template_Create down_env xp_plain demo_client demo_template_cr []") auto
  have "template_Observe down_env xp_plain demo_client demo_template_cr [] = (Inr (observation False False False), demo_template_cr, [])"
    by (simp add: template_Observe_def template_Observe_bound_def Let_def xp_plain_def demo_template_cr_def demo_meta_def annotations_def
        GetExternalName_def)
  then have "reconcile_step xp_plain ?k ?X (demo_template_cr, None, []) (demo_template_cr, Some (observation False False False), [])"
    using reconcile_step.observe [of ?X demo_template_cr "[]" "Inr (observation False False False)"] by simp
  moreover have keep: "keeps_lock xp_plain ?k demo_template_cr demo_template_cr" by (simp add: keeps_lock_def)
  have "reconcile_step xp_plain ?k ?X (demo_template_cr, Some (observation False False False), []) (cr', None, h')"
    using c by (intro reconcile_step.create [OF _ _ keep]) (simp_all add: deleting_def demo_template_cr_def demo_meta_def)
  ultimately have r: "reconciles xp_plain ?k ?X (demo_template_cr, None, []) (cr', None, h')"
    by (meson reconciles.intros)
  with template_created_at_most_once [OF xp_laws_plain r] c demo_template_Create_posts show ?thesis by auto
qed

text \<open>
  C30: deletion order. A mutating request of the Template's Delete reaches the wire only for an object
  whose external name is valid and equals the identifier the controller observed, after the
  API server listed no Endpoint of the namespace that refers to the Template and after RunPod listed
  no Endpoint that binds it.
\<close>

theorem template_Delete_order:
  assumes "template_Delete E x c cr h = (err, cr', h')"
  shows "mutations h' = mutations h \<or>
    valid_id (GetExternalName x cr) \<and> to_ID (tc_AtProvider cr) = GetExternalName x cr
    \<and> (\<exists>items. env_ListEndpoints E h (om_Namespace (mg_Meta cr)) = Inr items
         \<and> (\<forall>e \<in> set items. \<forall>ref. ep_TemplateIDRef (ec_ForProvider e) = Some ref \<longrightarrow> ref_Name ref \<noteq> om_Name (mg_Meta cr)))
    \<and> (\<exists>eps h2. ListEndpoints E c (h @ [EvList KEndpoint (om_Namespace (mg_Meta cr))]) = (Inr eps, h2)
         \<and> (\<forall>e \<in> set eps. re_TemplateID e \<noteq> GetExternalName x cr))"
  using assms
proof (cases rule: template_Delete_cases)
  case (guarded items h2 es h3)
  from guarded(5) have "\<forall>e \<in> set items. \<forall>ref. ep_TemplateIDRef (ec_ForProvider e) = Some ref \<longrightarrow> ref_Name ref \<noteq> om_Name (mg_Meta cr)"
    by (auto simp: refers_to_template_iff)
  with guarded show ?thesis by blast
qed simp

definition bound_template_cr :: template_cr where
  "bound_template_cr = set_template_ID ''t1'' (update_annotations
     (\<lambda>m. m(externalNameKey \<mapsto> ''t1'', template_externalIDBoundAnnotation \<mapsto> ''true'')) demo_template_cr)"

definition deleting_peer :: env where
  "deleting_peer = table_env
     [((''GET'', ''https://rest.runpod.io/v1/endpoints?includeTemplate=true&includeWorkers=true''), ''[]''),
      ((''GET'', ''https://rest.runpod.io/v1/templates/t1?includeEndpointBoundTemplates=true''), ''{~id~:~t1~}''),
      ((''DELETE'', ''https://rest.runpod.io/v1/templates/t1''), [])] 1"

theorem template_Delete_order_witness:
  "\<exists>cr' h'. template_Delete deleting_peer xp_plain demo_client bound_template_cr [] = (None, cr', h')
     \<and> mutation_methods h' = [MethodDelete] \<and> valid_id (GetExternalName xp_plain bound_template_cr)"
proof -
  obtain err cr' h' where d: "template_Delete deleting_peer xp_plain demo_client bound_template_cr [] = (err, cr', h')"
    by (cases "template_Delete deleting_peer xp_plain demo_client bound_template_cr []") auto
  have v: "mutation_methods (snd (snd (template_Delete deleting_peer xp_plain demo_client bound_template_cr []))) = [MethodDelete]"
    "fst (template_Delete deleting_peer xp_plain demo_client bound_template_cr []) = None"
    by code_simp+
  then have "mutations h' \<noteq> []" using d by (auto simp: mutation_methods_def)
  with template_Delete_order [OF d] d v show ?thesis by auto
qed

text \<open>
  What a Ready Template rests on. When Observe reports an existing Template of an object that is
  not being deleted, the status holds the identifier that the external name holds, a valid one. It
  reports it as up to date only when the Template it read through the API matches the
  specification field by field, and then it records the generation it judged; otherwise it
  withdraws the recorded generation.
\<close>

theorem template_Observe_ready:
  assumes "template_Observe E x c cr h = (Inr ob, cr', h')" "xp_laws x" "\<not> deleting cr" "xo_ResourceExists ob"
  shows "valid_id (GetExternalName x cr') \<and> to_ID (tc_AtProvider cr') = GetExternalName x cr'
    \<and> (if xo_ResourceUpToDate ob
       then mg_ObservedGeneration cr' = om_Generation (mg_Meta cr)
         \<and> (\<exists>got input h1 h2. templateInput cr = Inr input \<and> templateMatchesInput input got \<and> rt_ID got = GetExternalName x cr'
              \<and> (GetTemplate E c (rt_ID got) h1 = (Inr got, h2) \<or> FindTemplateByName E c (ti_Name input) h1 = (Inr got, h2)))
       else mg_ObservedGeneration cr' = 0)"
proof (cases "\<exists>n. n \<noteq> [] \<and> template_Observe_pending E x c cr n h = (Inr ob, cr', h')")
  case True
  then obtain n where p: "template_Observe_pending E x c cr n h = (Inr ob, cr', h')" by blast
  obtain f h1 where f: "FindTemplateByName E c n h = (f, h1)" by fastforce
  with p assms(3) obtain got input where g: "f = Inr got" "template_effectiveName cr = Inr n" "valid_id (rt_ID got)"
    "templateInput cr = Inr input" "templateMatchesInput (input\<lparr>ti_Name := n\<rparr>) got" "xo_ResourceUpToDate ob"
    by (auto simp: template_Observe_pending_def template_updates split: sum.splits if_splits)
  from templateInput_name [OF g(4)] g(2) have "ti_Name input = n" by simp
  then have i: "input\<lparr>ti_Name := n\<rparr> = input" by auto
  have "GetExternalName x cr' = rt_ID got" "to_ID (tc_AtProvider cr') = rt_ID got" "mg_ObservedGeneration cr' = om_Generation (mg_Meta cr)"
    using p f g assms(2,3)
    by (auto simp: template_Observe_pending_def template_updates template_keys.bind_external_name split: if_splits)
  with f g i \<open>ti_Name input = n\<close> show ?thesis by auto
next
  case False
  with assms(1,3) have b: "template_Observe_bound E x c cr h = (Inr ob, cr', h')"
    by (auto simp: template_Observe_def split: if_splits sum.splits)
  let ?id = "GetExternalName x cr"
  from b assms(4) obtain got h1 where g: "GetTemplate E c ?id h = (Inr got, h1)" "template_Observe_got E x cr ?id got h1 = (Inr ob, cr', h')"
    "valid_id ?id"
    by (auto simp: template_Observe_bound_def Let_def split: if_splits sum.splits prod.splits)
  from templates.get_ok [OF g(1)] have id: "rt_ID got = ?id" by simp
  have inp: "templateInput (cr\<lparr>tc_AtProvider := a\<rparr>) = templateInput cr" "templateInput (set_template_ID rid cr) = templateInput cr" for a rid
    by (simp_all add: templateInput_def template_effectiveName_def set_template_ID_def)
  have n: "GetExternalName x cr' = ?id"
    using template_Observe_got_effect [OF g(2)] by (simp add: GetExternalName_def)
  have up: "to_ID (tc_AtProvider cr') = rt_ID got \<and>
    (if xo_ResourceUpToDate ob then mg_ObservedGeneration cr' = om_Generation (mg_Meta cr) \<and> (\<exists>input. templateInput cr = Inr input \<and> templateMatchesInput input got)
     else mg_ObservedGeneration cr' = 0)"
    using g(2) by (auto simp: template_Observe_got_def Let_def template_updates SetConditions_def set_template_ID_def inp
        split: if_splits option.splits sum.splits)
  have "GetTemplate E c (rt_ID got) h = (Inr got, h1)" using g(1) id by simp
  with up have "xo_ResourceUpToDate ob \<longrightarrow> (\<exists>got input h1 h2. templateInput cr = Inr input \<and> templateMatchesInput input got
      \<and> rt_ID got = GetExternalName x cr'
      \<and> (GetTemplate E c (rt_ID got) h1 = (Inr got, h2) \<or> FindTemplateByName E c (ti_Name input) h1 = (Inr got, h2)))"
    using n id by metis
  with up n id g(3) show ?thesis by simp
qed

definition observed_peer :: env where
  "observed_peer = table_env
     [((''GET'', ''https://rest.runpod.io/v1/templates/t1?includeEndpointBoundTemplates=true''),
       ''{~id~:~t1~,~name~:~demo-xp-a1-b2~,~category~:~NVIDIA~,~imageName~:~img@sha256:aaaaaaaaaaaaaaaaaaaaaaaaaaaaaaaaaaaaaaaaaaaaaaaaaaaaaaaaaaaaaaaa~,~isPublic~:false,~isRunpod~:false,~isServerless~:true,~containerDiskInGb~:50,~volumeInGb~:0,~readme~:~~,~volumeMountPath~:~~,~env~:{},~containerRegistryAuthId~:null,~dockerEntrypoint~:[],~dockerStartCmd~:[],~ports~:[~8000/http~]}'')] 1"

theorem template_Observe_ready_witness:
  "\<exists>cr' h'. template_Observe observed_peer xp_plain demo_client bound_template_cr [] = (Inr (observation True True False), cr', h')
     \<and> mg_ObservedGeneration cr' = 1 \<and> to_ID (tc_AtProvider cr') = GetExternalName xp_plain cr'"
proof -
  obtain r cr' h' where o: "template_Observe observed_peer xp_plain demo_client bound_template_cr [] = (r, cr', h')"
    by (cases "template_Observe observed_peer xp_plain demo_client bound_template_cr []") auto
  have "fst (template_Observe observed_peer xp_plain demo_client bound_template_cr []) = Inr (observation True True False)"
    by code_simp
  with o have "template_Observe observed_peer xp_plain demo_client bound_template_cr [] = (Inr (observation True True False), cr', h')" by simp
  with template_Observe_ready [OF this xp_laws_plain] show ?thesis
    by (auto simp: bound_template_cr_def demo_template_cr_def demo_meta_def deleting_def set_template_ID_def update_annotations_def)
qed

end
