(* ===== verification/EndpointController.thy ===== *)
theory EndpointController
  imports Reconciler TemplateController
begin

text \<open>
  \<open>internal/controller/endpoint/endpoint.go\<close>: the external client of the Endpoint controller, in the
  same style as the Template controller. The proof predicates over an observed Endpoint
  (\<open>endpointMatchesInput\<close>, \<open>endpointTemplateMatches\<close>, \<open>endpointWorkersMatch\<close>) are bool-valued functions
  with the guards of the source in their order.
\<close>

section \<open>Constants and types\<close>

definition endpoint_ambiguousCreateNameAnnotation :: string where
  "endpoint_ambiguousCreateNameAnnotation = ''endpoint.serverless.runpod.crossplane.io/ambiguous-create-name''"

definition endpoint_externalIDBoundAnnotation :: string where
  "endpoint_externalIDBoundAnnotation = ''endpoint.serverless.runpod.crossplane.io/external-id-bound''"

definition safeEndpointName :: "string \<Rightarrow> bool" where
  "safeEndpointName = safe_name_match"

record template_binding =
  tb_id :: string
  tb_uid :: string
  tb_generation :: int64
  tb_image :: string
  tb_name :: string
  tb_containerDiskGB :: int32
  tb_entrypoint :: "string slice"
  tb_startCmd :: "string slice"
  tb_ports :: "string slice"

definition empty_binding :: template_binding where
  "empty_binding = \<lparr>tb_id = [], tb_uid = [], tb_generation = 0, tb_image = [], tb_name = [], tb_containerDiskGB = 0,
     tb_entrypoint = None, tb_startCmd = None, tb_ports = None\<rparr>"

section \<open>Resolving the referenced Template\<close>

definition template_ready :: "xp \<Rightarrow> template_cr \<Rightarrow> bool" where
  "template_ready x t \<longleftrightarrow>
     \<not> deleting t \<and> mg_ObservedGeneration t = om_Generation (mg_Meta t) \<and>
     xp_GetCondition x (mg_Conditions t) TypeReady = ConditionTrue \<and>
     xp_GetCondition x (mg_Conditions t) TypeSynced = ConditionTrue"

definition deadline :: "gotime \<Rightarrow> int32 \<Rightarrow> gotime" where
  "deadline created maxLifetimeSeconds = AddDuration created (secondsDuration maxLifetimeSeconds)"

definition binding_of :: "xp \<Rightarrow> template_cr \<Rightarrow> string \<Rightarrow> template_binding" where
  "binding_of x t rid =
     \<lparr>tb_id = rid, tb_uid = om_UID (mg_Meta t), tb_generation = om_Generation (mg_Meta t),
      tb_image = tp_ImageName (tc_ForProvider t), tb_name = to_Name (tc_AtProvider t),
      tb_containerDiskGB = (case tp_ContainerDiskInGB (tc_ForProvider t) of None \<Rightarrow> defaultContainerDiskInGB | Some d \<Rightarrow> d),
      tb_entrypoint = tp_DockerEntrypoint (tc_ForProvider t), tb_startCmd = tp_DockerStartCmd (tc_ForProvider t),
      tb_ports = tp_Ports (tc_ForProvider t)\<rparr>"

text \<open>
  The checks on the Template that was read. \<open>time.Now\<close> is called only for a Template with a creation
  timestamp.
\<close>

definition resolveTemplate_checked :: "env \<Rightarrow> xp \<Rightarrow> endpoint_cr \<Rightarrow> template_cr \<Rightarrow> trace \<Rightarrow> template_binding result \<times> trace" where
  "resolveTemplate_checked E x cr t h =
     (if \<not> template_ready x t then (Inl (Err ''referenced Template is not Ready for its current generation''), h)
      else let created = om_CreationTimestamp (mg_Meta t);
               templateDeadline = deadline created (tp_MaxLifetimeSeconds (tc_ForProvider t));
               h1 = (if IsZero created then h else snd (time_Now E h))
           in if \<not> IsZero created \<and> \<not> Before (env_Now E h) templateDeadline
              then (Inl (Err ''referenced Template maximum lifetime has elapsed''), h1)
              else if \<not> IsZero created \<and> \<not> IsZero (om_CreationTimestamp (mg_Meta cr)) \<and>
                      After (deadline (om_CreationTimestamp (mg_Meta cr)) (ep_MaxLifetimeSeconds (ec_ForProvider cr))) templateDeadline
              then (Inl (Err ''Endpoint lifetime may not outlast its referenced Template''), h1)
              else let rid = GetExternalName x t
                   in if rid = [] \<or> ValidateRunPodID rid \<noteq> None \<or> to_ID (tc_AtProvider t) \<noteq> rid
                      then (Inl (Err ''referenced Template external-name is not bound to its controller-observed ID''), h1)
                      else (Inr (binding_of x t rid), h1))"

definition resolveTemplate :: "env \<Rightarrow> xp \<Rightarrow> endpoint_cr \<Rightarrow> trace \<Rightarrow> template_binding result \<times> trace" where
  "resolveTemplate E x cr h =
     (if deleting cr then (Inr empty_binding, h)
      else (case ep_TemplateIDRef (ec_ForProvider cr) of
              None \<Rightarrow> (Inl (Err ''templateIdRef is required; direct external Template IDs bypass the bounded Template contract''), h)
            | Some ref \<Rightarrow>
                (case get_Template E (om_Namespace (mg_Meta cr)) (ref_Name ref) h of
                   (Inl err, h1) \<Rightarrow> (Inl err, h1)
                 | (Inr t, h1) \<Rightarrow> resolveTemplate_checked E x cr t h1)))"

text \<open>\<open>(*connector).Connect\<close>: the client and the binding, the state of the external client.\<close>

definition endpoint_Connect :: "env \<Rightarrow> xp \<Rightarrow> endpoint_cr \<Rightarrow> trace \<Rightarrow> (client \<times> template_binding) result \<times> trace" where
  "endpoint_Connect E x cr h =
     (case Connect E cr h of
        (Inl err, h1) \<Rightarrow> (Inl err, h1)
      | (Inr svc, h1) \<Rightarrow>
          (case resolveTemplate E x cr h1 of
             (Inl err, h2) \<Rightarrow> (Inl err, h2)
           | (Inr template, h2) \<Rightarrow> (Inr (svc, template), h2)))"

section \<open>Pure helpers\<close>

definition endpoint_validate :: "endpoint_cr \<Rightarrow> string \<Rightarrow> error ptr" where
  "endpoint_validate cr templateID =
     (let p = ec_ForProvider cr
      in if \<not> safeEndpointName (ep_Name p) then Some (Err ''name must use bounded ASCII identifier characters'')
         else if templateID = [] \<or> length (elems (ep_GPUTypeIDs p)) = 0 \<or> length (elems (ep_DataCenterIDs p)) = 0
         then Some (Err ''template ID, GPU type, and data center allowlists are required'')
         else if ep_WorkersMin p \<noteq> 1 \<or> ep_WorkersMax p \<noteq> 1
         then Some (Err ''secured endpoints require workersMin and workersMax exactly one'')
         else if sint (ep_MaxWorkerCostMilliUSDPerHour p) \<le> 0 \<or> sint (ep_MaxWorkerCostMilliUSDPerHour p) > 10000
         then Some (Err ''maxWorkerCostMilliUsdPerHour must be between 1 and 10000'')
         else None)"

definition endpoint_ensureLifetimeActive :: "endpoint_cr \<Rightarrow> gotime \<Rightarrow> error ptr" where
  "endpoint_ensureLifetimeActive cr now =
     (if lifetime_active (om_CreationTimestamp (mg_Meta cr)) (ep_MaxLifetimeSeconds (ec_ForProvider cr)) now then None
      else Some (Err ''Endpoint maximum lifetime has elapsed; refusing external create or update''))"

definition endpoint_effectiveName :: "endpoint_cr \<Rightarrow> string result" where
  "endpoint_effectiveName cr = uid_scoped_name (ep_Name (ec_ForProvider cr)) (om_UID (mg_Meta cr))"

definition endpointInput :: "endpoint_cr \<Rightarrow> string \<Rightarrow> endpoint_input result" where
  "endpointInput cr templateID =
     (let p = ec_ForProvider cr
      in case endpoint_effectiveName cr of
           Inl panic \<Rightarrow> Inl panic
         | Inr name \<Rightarrow> Inr
             \<lparr>ei_Name = name, ei_TemplateID = templateID, ei_ComputeType = ''GPU'', ei_GPUCount = 1,
              ei_GPUTypeIDs = ep_GPUTypeIDs p, ei_AllowedCUDAVersions = ep_AllowedCUDAVersions p,
              ei_DataCenterIDs = ep_DataCenterIDs p, ei_WorkersMin = ep_WorkersMin p, ei_WorkersMax = ep_WorkersMax p,
              ei_IdleTimeout = ep_IdleTimeout p, ei_ScalerType = ep_ScalerType p, ei_ScalerValue = ep_ScalerValue p,
              ei_ExecutionTimeoutMS = ep_ExecutionTimeoutMS p, ei_FlashBoot = False, ei_NetworkVolumeID = [],
              ei_NetworkVolumeIDs = Some [], ei_MinCUDAVersion = []\<rparr>)"

definition endpointMatchesInput :: "endpoint_input \<Rightarrow> rp_endpoint \<Rightarrow> bool" where
  "endpointMatchesInput want got \<longleftrightarrow>
     re_Name got = ei_Name want \<and> re_TemplateID got = ei_TemplateID want \<and> re_ComputeType got = ''GPU'' \<and>
     re_GPUCount got = 1 \<and> re_WorkersMin got \<noteq> None \<and> the (re_WorkersMin got) = ei_WorkersMin want \<and>
     re_WorkersMax got \<noteq> None \<and> the (re_WorkersMax got) = ei_WorkersMax want \<and> re_Version got \<noteq> None \<and>
     re_IdleTimeout got = ei_IdleTimeout want \<and> re_ScalerType got = ei_ScalerType want \<and>
     re_ScalerValue got = ei_ScalerValue want \<and> re_ExecutionTimeoutMS got = ei_ExecutionTimeoutMS want \<and>
     (re_FlashBoot got = None \<or> the (re_FlashBoot got) = ei_FlashBoot want) \<and>
     ns_Present (re_NetworkVolumeID got) \<and> (ns_Null (re_NetworkVolumeID got) \<or> ns_Value (re_NetworkVolumeID got) = []) \<and>
     re_NetworkVolumeIDs got \<noteq> None \<and> length (elems (re_NetworkVolumeIDs got)) = 0 \<and>
     ns_Present (re_MinCUDAVersion got) \<and> (ns_Null (re_MinCUDAVersion got) \<or> ns_Value (re_MinCUDAVersion got) = []) \<and>
     re_Env got \<noteq> None \<and> length (elems (re_Env got)) = 0 \<and> length (elems (re_InstanceIDs got)) = 0 \<and>
     slices_Equal (re_GPUTypeIDs got) (ei_GPUTypeIDs want) \<and>
     re_AllowedCUDAVersions got \<noteq> None \<and> slices_Equal (re_AllowedCUDAVersions got) (ei_AllowedCUDAVersions want) \<and>
     slices_Equal (re_DataCenterIDs got) (ei_DataCenterIDs want)"

definition endpointTemplateMatches :: "rp_endpoint \<Rightarrow> template_binding \<Rightarrow> bool" where
  "endpointTemplateMatches got binding =
     (case re_Template got of
        None \<Rightarrow> False
      | Some template \<Rightarrow>
          \<not> (rt_ID template \<noteq> tb_id binding \<or> rt_Name template \<noteq> tb_name binding \<or> rt_Category template \<noteq> ''NVIDIA'' \<or>
             rt_ImageName template \<noteq> tb_image binding \<or> rt_IsPublic template = None \<or> the (rt_IsPublic template) \<or>
             rt_IsRunpod template = None \<or> the (rt_IsRunpod template) \<or> rt_IsServerless template = None \<or> \<not> the (rt_IsServerless template) \<or>
             rt_ContainerDiskInGB template = None \<or> the (rt_ContainerDiskInGB template) \<noteq> tb_containerDiskGB binding \<or>
             rt_VolumeInGB template = None \<or> the (rt_VolumeInGB template) \<noteq> 0 \<or> rt_Env template = None \<or> length (elems (rt_Env template)) \<noteq> 0 \<or>
             \<not> ns_Present (rt_ContainerRegistryAuthID template) \<or>
             (\<not> ns_Null (rt_ContainerRegistryAuthID template) \<and> ns_Value (rt_ContainerRegistryAuthID template) \<noteq> []) \<or>
             \<not> ns_Present (rt_Readme template) \<or> ns_Null (rt_Readme template) \<or> ns_Value (rt_Readme template) \<noteq> [] \<or>
             \<not> ns_Present (rt_VolumeMountPath template) \<or> ns_Null (rt_VolumeMountPath template) \<or> ns_Value (rt_VolumeMountPath template) \<noteq> [] \<or>
             rt_DockerEntrypoint template = None \<or> \<not> slices_Equal (rt_DockerEntrypoint template) (tb_entrypoint binding) \<or>
             rt_DockerStartCmd template = None \<or> \<not> slices_Equal (rt_DockerStartCmd template) (tb_startCmd binding) \<or>
             rt_Ports template = None \<or> \<not> slices_Equal (rt_Ports template) (tb_ports binding)))"

definition boundedCost :: "nullable_decimal \<Rightarrow> float64 \<Rightarrow> bool" where
  "boundedCost value maximum \<longleftrightarrow>
     nd_Present value \<and> \<not> nd_Null value \<and> \<not> IsNaN (nd_Value value) \<and> \<not> IsInf (nd_Value value) \<and>
     float_le (Fin 0) (nd_Value value) \<and> float_le (nd_Value value) maximum"

text \<open>
  A raw message is kept as its JSON value, so the text between the spaces is that value's: null, an
  array or an object without members.
\<close>

definition emptyJSONContainerOrNull :: "json option \<Rightarrow> bool" where
  "emptyJSONContainerOrNull raw =
     (case raw of
        None \<Rightarrow> False
      | Some JNull \<Rightarrow> True
      | Some (JArr values) \<Rightarrow> length values = 0
      | Some (JObj values) \<Rightarrow> length values = 0
      | Some _ \<Rightarrow> False)"

definition workerMatches :: "endpoint_input \<Rightarrow> rp_endpoint \<Rightarrow> template_binding \<Rightarrow> float64 \<Rightarrow> endpoint_worker \<Rightarrow> bool" where
  "workerMatches want got template maxCost worker \<longleftrightarrow>
     \<not> (\<not> ns_Present (ew_ID worker) \<or> ns_Null (ew_ID worker) \<or>
        \<not> ns_Present (ew_EndpointID worker) \<or> (\<not> ns_Null (ew_EndpointID worker) \<and> ns_Value (ew_EndpointID worker) \<noteq> re_ID got) \<or>
        \<not> ns_Present (ew_TemplateID worker) \<or> (\<not> ns_Null (ew_TemplateID worker) \<and> ns_Value (ew_TemplateID worker) \<noteq> re_TemplateID got) \<or>
        ew_SLSVersion worker = None \<or> re_Version got = None \<or> the (ew_SLSVersion worker) \<noteq> the (re_Version got) \<or>
        \<not> ns_Present (ew_Image worker) \<or> ns_Null (ew_Image worker) \<or> ns_Value (ew_Image worker) \<noteq> tb_image template \<or>
        ew_ContainerDiskInGB worker = None \<or> the (ew_ContainerDiskInGB worker) \<noteq> tb_containerDiskGB template \<or>
        \<not> ns_Present (ew_ContainerRegistryAuthID worker) \<or>
        (\<not> ns_Null (ew_ContainerRegistryAuthID worker) \<and> ns_Value (ew_ContainerRegistryAuthID worker) \<noteq> []) \<or>
        ew_DockerEntrypoint worker = None \<or> \<not> slices_Equal (ew_DockerEntrypoint worker) (tb_entrypoint template) \<or>
        ew_DockerStartCmd worker = None \<or> \<not> slices_Equal (ew_DockerStartCmd worker) (tb_startCmd template) \<or>
        ew_Ports worker = None \<or> \<not> slices_Equal (ew_Ports worker) (tb_ports template) \<or>
        ew_Env worker = None \<or> length (elems (ew_Env worker)) \<noteq> 0 \<or> ew_VolumeInGB worker = None \<or> the (ew_VolumeInGB worker) \<noteq> 0 \<or>
        \<not> ns_Present (ew_VolumeMountPath worker) \<or> (\<not> ns_Null (ew_VolumeMountPath worker) \<and> ns_Value (ew_VolumeMountPath worker) \<noteq> []) \<or>
        ew_VolumeEncrypted worker = None \<or> ew_NetworkVolume worker \<noteq> Some JNull \<or>
        \<not> ns_Present (ew_PublicIP worker) \<or> (\<not> ns_Null (ew_PublicIP worker) \<and> ns_Value (ew_PublicIP worker) \<noteq> []) \<or>
        \<not> emptyJSONContainerOrNull (ew_PortMappings worker) \<or> \<not> emptyJSONContainerOrNull (ew_SavingsPlans worker) \<or>
        \<not> ns_Present (ew_DesiredStatus worker) \<or> ns_Null (ew_DesiredStatus worker) \<or> ns_Value (ew_DesiredStatus worker) \<noteq> ''RUNNING'' \<or>
        ew_Interruptible worker = None \<or> the (ew_Interruptible worker) \<or>
        \<not> boundedCost (ew_AdjustedCostPerHr worker) maxCost \<or> \<not> boundedCost (ew_CostPerHr worker) maxCost \<or>
        ew_Locked worker = None \<or> the (ew_Locked worker) \<or>
        ew_GPU worker = None \<or> wg_Count (the (ew_GPU worker)) = None \<or> the (wg_Count (the (ew_GPU worker))) \<noteq> 1 \<or>
        ew_Machine worker = None \<or> wm_GPUTypeID (the (ew_Machine worker)) = None \<or>
        the (wm_GPUTypeID (the (ew_Machine worker))) \<notin> set (elems (ei_GPUTypeIDs want)) \<or>
        wm_DataCenterID (the (ew_Machine worker)) = None \<or>
        the (wm_DataCenterID (the (ew_Machine worker))) \<notin> set (elems (ei_DataCenterIDs want)) \<or>
        wm_SecureCloud (the (ew_Machine worker)) = None \<or> \<not> the (wm_SecureCloud (the (ew_Machine worker))) \<or>
        \<not> boundedCost (wm_CostPerHr (the (ew_Machine worker))) maxCost \<or>
        \<not> boundedCost (wm_CurrentPricePerGPU (the (ew_Machine worker))) maxCost)"

text \<open>The conversion \<open>int32(len(...))\<close> keeps the low 32 bits; the comparisons are signed.\<close>

definition endpointWorkersMatch :: "endpoint_input \<Rightarrow> rp_endpoint \<Rightarrow> template_binding \<Rightarrow> int32 \<Rightarrow> bool" where
  "endpointWorkersMatch want got template maxWorkerCostMilliUSDPerHour =
     (case re_Workers got of
        None \<Rightarrow> False
      | Some workers \<Rightarrow>
          (case re_WorkersMax got of
             None \<Rightarrow> False
           | Some workersMax \<Rightarrow>
               let count = (word_of_nat (length workers) :: int32)
               in if sint count > sint workersMax \<or> sint count > sint (ei_WorkersMax want) then False
                  else let maxCost = float_div (Fin (of_int (sint maxWorkerCostMilliUSDPerHour))) (Fin 1000)
                       in list_all (workerMatches want got template maxCost) workers))"

definition endpoint_unrepairableExternalState :: "rp_endpoint \<Rightarrow> endpoint_input \<Rightarrow> error ptr" where
  "endpoint_unrepairableExternalState got want =
     (if re_ComputeType got \<noteq> ''GPU''
      then Some (Err ''RunPod Endpoint computeType is not GPU and the official update API cannot change it'')
      else if re_Env got = None
      then Some (Err ''RunPod Endpoint response omitted environment evidence that the official update API cannot establish'')
      else if length (elems (re_Env got)) \<noteq> 0
      then Some (Err ''RunPod Endpoint has unmanaged environment variables that the official update API cannot clear'')
      else if re_ComputeType got = ''GPU'' \<and> length (elems (re_InstanceIDs got)) \<noteq> 0
      then Some (Err ''RunPod GPU Endpoint has CPU-only instanceIds that the official update API cannot clear'')
      else if \<not> ns_Present (re_NetworkVolumeID got) \<or> re_NetworkVolumeIDs got = None \<or> \<not> ns_Present (re_MinCUDAVersion got) \<or>
              re_AllowedCUDAVersions got = None
      then Some (Err ''RunPod Endpoint response omitted bounded storage or CUDA evidence; refusing a rolling PATCH loop'')
      else if (\<not> ns_Null (re_NetworkVolumeID got) \<and> ns_Value (re_NetworkVolumeID got) \<noteq> []) \<or> length (elems (re_NetworkVolumeIDs got)) \<noteq> 0
      then Some (Err ''RunPod Endpoint has attached persistent network storage and the official update API documents no safe clear sentinel'')
      else if \<not> ns_Null (re_MinCUDAVersion got) \<and> ns_Value (re_MinCUDAVersion got) \<noteq> []
      then Some (Err ''RunPod Endpoint has a minimum CUDA override and the official update API documents no safe clear sentinel'')
      else if length (elems (ei_AllowedCUDAVersions want)) = 0 \<and> length (elems (re_AllowedCUDAVersions got)) \<noteq> 0
      then Some (Err ''RunPod Endpoint has an allowed CUDA override and an empty-array clear is not part of the bounded wire contract'')
      else None)"

section \<open>State changes of the custom resource\<close>

definition inference_url :: "string \<Rightarrow> string" where
  "inference_url rid = ''https://api.runpod.ai/v2/'' @ rid @ ''/openai/v1''"

text \<open>
  The new observation that \<open>setObservation\<close> computes from the previous one, the Endpoint, its
  version and worker bounds, the write acknowledgement, the Template binding and the time.
\<close>

definition retained_evidence :: "endpoint_observation \<Rightarrow> rp_endpoint \<Rightarrow> int32 \<Rightarrow> gotime \<Rightarrow> bool" where
  "retained_evidence previous got version now \<longleftrightarrow>
     eo_ID previous = re_ID got \<and> FlashBootEvidenceCurrent previous now \<and> eo_FlashBootEvidenceVersion previous \<noteq> None \<and>
     the (eo_FlashBootEvidenceVersion previous) = version"

definition flashBootDisabled_of :: "endpoint_observation \<Rightarrow> rp_endpoint \<Rightarrow> int32 \<Rightarrow> bool \<Rightarrow> gotime \<Rightarrow> bool" where
  "flashBootDisabled_of previous got version writeConfirmed now \<longleftrightarrow>
     (if re_FlashBoot got \<noteq> None then \<not> the (re_FlashBoot got)
      else if writeConfirmed then True
      else retained_evidence previous got version now)"

definition templateRevisionProven_of :: "endpoint_observation \<Rightarrow> int32 \<Rightarrow> bool \<Rightarrow> template_binding \<Rightarrow> bool" where
  "templateRevisionProven_of previous version writeConfirmed template \<longleftrightarrow>
     (eo_TemplateResourceUID previous = tb_uid template \<and> eo_TemplateResourceGeneration previous = tb_generation template \<and>
      eo_TemplateImageDigest previous = tb_image template) \<or>
     (eo_TemplateResourceUID previous = [] \<and> writeConfirmed) \<or>
     (eo_TemplateResourceUID previous \<noteq> [] \<and> eo_Version previous \<noteq> None \<and> the (eo_Version previous) \<noteq> version)"

definition observe_endpoint :: "endpoint_observation \<Rightarrow> rp_endpoint \<Rightarrow> int32 \<Rightarrow> int32 \<Rightarrow> int32 \<Rightarrow> bool \<Rightarrow> template_binding \<Rightarrow> bool \<Rightarrow> gotime \<Rightarrow> endpoint_observation" where
  "observe_endpoint previous got version workersMin workersMax writeConfirmed template activeWorkersProven now =
     (let flashBootDisabled = flashBootDisabled_of previous got version writeConfirmed now;
          evidenceAt = (if \<not> flashBootDisabled then 0
                        else if \<not> writeConfirmed \<and> re_FlashBoot got = None \<and> retained_evidence previous got version now
                        then eo_FlashBootLastEnforcedAt previous else now);
          proven = templateRevisionProven_of previous version writeConfirmed template
      in \<lparr>eo_ID = re_ID got, eo_TemplateID = re_TemplateID got,
          eo_TemplateResourceUID = (if proven then tb_uid template else eo_TemplateResourceUID previous),
          eo_TemplateResourceGeneration = (if proven then tb_generation template else eo_TemplateResourceGeneration previous),
          eo_TemplateImageDigest = (if proven then tb_image template else eo_TemplateImageDigest previous),
          eo_Version = Some version,
          eo_FlashBootDisabled = flashBootDisabled,
          eo_FlashBootEvidenceVersion = (if flashBootDisabled then Some version else None),
          eo_FlashBootLastEnforcedAt = evidenceAt,
          eo_WorkerSecurityValidated = activeWorkersProven,
          eo_WorkerSecurityProofVersion = (if activeWorkersProven then Some version else None),
          eo_WorkerSecurityObservedAt = (if activeWorkersProven then now else 0),
          eo_WorkersMin = workersMin, eo_WorkersMax = workersMax,
          eo_InferenceURL = inference_url (re_ID got), eo_LastObservedAt = now\<rparr>)"

definition endpoint_setObservation :: "env \<Rightarrow> endpoint_cr \<Rightarrow> rp_endpoint \<Rightarrow> bool \<Rightarrow> template_binding \<Rightarrow> bool \<Rightarrow> trace \<Rightarrow> (bool \<times> bool) \<times> endpoint_cr \<times> trace" where
  "endpoint_setObservation E cr got writeConfirmed template activeWorkersProven h =
     (case (re_WorkersMin got, re_WorkersMax got, re_Version got) of
        (Some workersMin, Some workersMax, Some version) \<Rightarrow>
          (case time_Now E h of
             (now, h1) \<Rightarrow>
               ((flashBootDisabled_of (ec_AtProvider cr) got version writeConfirmed now,
                 templateRevisionProven_of (ec_AtProvider cr) version writeConfirmed template),
                cr\<lparr>ec_AtProvider := observe_endpoint (ec_AtProvider cr) got version workersMin workersMax writeConfirmed template activeWorkersProven now\<rparr>,
                h1))
      | _ \<Rightarrow> ((False, False), cr\<lparr>mg_ObservedGeneration := 0\<rparr>, h))"

definition endpoint_markAmbiguousCreate :: "endpoint_cr \<Rightarrow> string \<Rightarrow> endpoint_cr" where
  "endpoint_markAmbiguousCreate cr name =
     update_annotations (\<lambda>m. m(endpoint_ambiguousCreateNameAnnotation \<mapsto> name)) cr"

definition set_endpoint_ID :: "string \<Rightarrow> endpoint_cr \<Rightarrow> endpoint_cr" where
  "set_endpoint_ID rid cr = cr\<lparr>ec_AtProvider := (ec_AtProvider cr)\<lparr>eo_ID := rid\<rparr>\<rparr>"

definition endpoint_bindExternalID :: "env \<Rightarrow> xp \<Rightarrow> endpoint_cr \<Rightarrow> string \<Rightarrow> trace \<Rightarrow> endpoint_cr \<times> trace" where
  "endpoint_bindExternalID E x cr rid h =
     (case time_Now E h of
        (now, h') \<Rightarrow>
          (set_endpoint_ID rid
             (update_annotations
                (bind_annotations x endpoint_ambiguousCreateNameAnnotation endpoint_externalIDBoundAnnotation rid now) cr), h'))"

definition expectedTemplateIDForCleanup :: "env \<Rightarrow> xp \<Rightarrow> endpoint_cr \<Rightarrow> trace \<Rightarrow> string result \<times> trace" where
  "expectedTemplateIDForCleanup E x cr h =
     (case ep_TemplateIDRef (ec_ForProvider cr) of
        None \<Rightarrow> (Inr [], h)
      | Some ref \<Rightarrow>
          (case get_Template E (om_Namespace (mg_Meta cr)) (ref_Name ref) h of
             (Inl err, h1) \<Rightarrow>
               if IsNotFound err then (Inr [], h1)
               else (Inl (Err ''cannot read referenced Template during Endpoint cleanup recovery''), h1)
           | (Inr template, h1) \<Rightarrow>
               (let rid = GetExternalName x template
                in if rid \<noteq> [] \<and> ValidateRunPodID rid \<noteq> None
                   then (Inl (Err ''referenced Template has an invalid external ID''), h1)
                   else (Inr rid, h1))))"

section \<open>Observe\<close>

type_synonym endpoint_handler = "external_observation result \<times> endpoint_cr \<times> trace"

definition endpoint_proven :: "endpoint_input \<Rightarrow> rp_endpoint \<Rightarrow> template_binding \<Rightarrow> endpoint_cr \<Rightarrow> bool" where
  "endpoint_proven desired got tb cr \<longleftrightarrow>
     endpointMatchesInput desired got \<and> endpointTemplateMatches got tb \<and>
     endpointWorkersMatch desired got tb (ep_MaxWorkerCostMilliUSDPerHour (ec_ForProvider cr))"

text \<open>The recovery of a live object: prove, reassert the bounded input, prove again, bind.\<close>

definition endpoint_Observe_recover :: "env \<Rightarrow> xp \<Rightarrow> client \<Rightarrow> template_binding \<Rightarrow> endpoint_cr \<Rightarrow> string \<Rightarrow> rp_endpoint \<Rightarrow> trace \<Rightarrow> endpoint_handler" where
  "endpoint_Observe_recover E x c tb cr pendingName got h =
     (case endpointInput cr (tb_id tb) of
        Inl panic \<Rightarrow> (Inl panic, cr, h)
      | Inr input \<Rightarrow>
          (let desired = input\<lparr>ei_Name := pendingName\<rparr>
           in if \<not> endpoint_proven desired got tb cr then (Inl ErrAmbiguous, cr, h)
              else (case UpdateEndpoint E c (re_ID got) desired h of
                 (Inl _, h1) \<Rightarrow> (Inl (Err ''ambiguous Endpoint create recovery could not reassert bounded settings''), cr, h1)
               | (Inr got', h1) \<Rightarrow>
                   if \<not> endpoint_proven desired got' tb cr
                   then (Inl (Err ''ambiguous Endpoint create recovery could not reassert bounded settings''), cr, h1)
                   else (case endpoint_bindExternalID E x cr (re_ID got') h1 of
                      (cr1, h2) \<Rightarrow>
                        (case endpoint_setObservation E cr1 got' True tb (length (elems (re_Workers got')) > 0) h2 of
                           (_, cr2, h3) \<Rightarrow>
                             (Inr (observation True True True),
                              SetConditions x [Available] (cr2\<lparr>mg_ObservedGeneration := om_Generation (mg_Meta cr2)\<rparr>), h3))))))"

definition endpoint_Observe_pending :: "env \<Rightarrow> xp \<Rightarrow> client \<Rightarrow> template_binding \<Rightarrow> endpoint_cr \<Rightarrow> string \<Rightarrow> trace \<Rightarrow> endpoint_handler" where
  "endpoint_Observe_pending E x c tb cr pendingName h =
     (case endpoint_effectiveName cr of
        Inl panic \<Rightarrow> (Inl panic, cr, h)
      | Inr effective \<Rightarrow>
          if pendingName \<noteq> effective
          then (Inl (Err ''Endpoint recovery marker is not the controller-owned UID-scoped name''), cr, h)
          else (case FindEndpointByName E c pendingName h of
             (Inl err, h1) \<Rightarrow>
               if deleting cr \<and> errors_Is err ErrNotFound then
                 (if ambiguousAbsenceAcknowledged cr then (Inr (observation False False False), cr, h1)
                  else (Inl (Err ''ambiguous Endpoint create absence is unproven; an exact pending-token operator acknowledgement is required before deletion can complete''), cr, h1))
               else (Inl (Err ''ambiguous Endpoint create recovery is pending; no new create is permitted''), cr, h1)
           | (Inr got, h1) \<Rightarrow>
               if re_Name got \<noteq> pendingName \<or> ValidateRunPodID (re_ID got) \<noteq> None
               then (Inl (Err ''Endpoint recovery returned an invalid external identity''), cr, h1)
               else if deleting cr then
                 (case expectedTemplateIDForCleanup E x cr h1 of
                    (Inl err, h2) \<Rightarrow> (Inl err, cr, h2)
                  | (Inr expectedTemplateID, h2) \<Rightarrow>
                      if expectedTemplateID \<noteq> [] \<and> re_TemplateID got \<noteq> expectedTemplateID
                      then (Inl (Err ''Endpoint cleanup recovery did not match the referenced Template ID''), cr, h2)
                      else (case endpoint_bindExternalID E x cr (re_ID got) h2 of
                         (cr1, h3) \<Rightarrow>
                           (Inr (observation True False True),
                            cr1\<lparr>ec_AtProvider := (ec_AtProvider cr1)\<lparr>eo_ID := re_ID got, eo_TemplateID := re_TemplateID got\<rparr>\<rparr>, h3)))
               else endpoint_Observe_recover E x c tb cr pendingName got h1))"

text \<open>The part after the lookup of a bound Endpoint, once its identity in the status is settled.\<close>

definition endpoint_Observe_got :: "env \<Rightarrow> xp \<Rightarrow> template_binding \<Rightarrow> endpoint_cr \<Rightarrow> rp_endpoint \<Rightarrow> trace \<Rightarrow> endpoint_handler" where
  "endpoint_Observe_got E x tb cr got h =
     (case endpointInput cr (tb_id tb) of
        Inl panic \<Rightarrow> (Inl panic, cr, h)
      | Inr desired \<Rightarrow>
          (case endpoint_unrepairableExternalState got desired of
             Some err \<Rightarrow> (Inl err, cr\<lparr>mg_ObservedGeneration := 0\<rparr>, h)
           | None \<Rightarrow>
               if \<not> endpointTemplateMatches got tb
               then (Inl (Err ''RunPod Endpoint omitted or mismatched its contemporaneous managed Template proof''), cr\<lparr>mg_ObservedGeneration := 0\<rparr>, h)
               else if \<not> endpointWorkersMatch desired got tb (ep_MaxWorkerCostMilliUSDPerHour (ec_ForProvider cr))
               then (Inl (Err ''RunPod Endpoint active worker proof violated the bounded image, storage, placement, or Secure Cloud contract''), cr\<lparr>mg_ObservedGeneration := 0\<rparr>, h)
               else (case endpoint_setObservation E cr got False tb (length (elems (re_Workers got)) > 0) h of
                  ((flashBootProven, templateRevisionProven), cr1, h1) \<Rightarrow>
                    if endpointMatchesInput desired got \<and> flashBootProven \<and> templateRevisionProven
                    then (Inr (observation True True False),
                          SetConditions x [Available] (cr1\<lparr>mg_ObservedGeneration := om_Generation (mg_Meta cr1)\<rparr>), h1)
                    else (Inr (observation True False False), cr1\<lparr>mg_ObservedGeneration := 0\<rparr>, h1))))"

definition endpoint_Observe_bound :: "env \<Rightarrow> xp \<Rightarrow> client \<Rightarrow> template_binding \<Rightarrow> endpoint_cr \<Rightarrow> trace \<Rightarrow> endpoint_handler" where
  "endpoint_Observe_bound E x c tb cr h =
     (let rid = GetExternalName x cr
      in if rid = [] then (Inr (observation False False False), cr, h)
         else if map_get (annotations cr) endpoint_externalIDBoundAnnotation \<noteq> ''true''
         then (Inl (Err ''v0.1 does not adopt an unverified external-name; only provider create or UID-scoped recovery may bind an ID''), cr, h)
         else if ValidateRunPodID rid \<noteq> None then (Inl (Err ''Endpoint external-name is invalid''), cr, h)
         else if eo_ID (ec_AtProvider cr) \<noteq> [] \<and> eo_ID (ec_AtProvider cr) \<noteq> rid
         then (Inl (Err ''Endpoint external-name differs from its persisted controller-observed ID''), cr, h)
         else (case GetEndpoint E c rid h of
            (Inl err, h1) \<Rightarrow>
              if errors_Is err ErrNotFound then
                (if deleting cr then (Inr (observation False False False), cr, h1)
                 else (Inl (Err ''bound RunPod Endpoint is missing; refusing to create a replacement under an immutable external-name''), cr, h1))
              else (Inl err, cr, h1)
          | (Inr got, h1) \<Rightarrow>
              if eo_ID (ec_AtProvider cr) \<noteq> [] then endpoint_Observe_got E x tb cr got h1
              else (case endpoint_effectiveName cr of
                      Inl panic \<Rightarrow> (Inl panic, cr, h1)
                    | Inr effective \<Rightarrow>
                        if re_Name got \<noteq> effective
                        then (Inl (Err ''Endpoint binding marker did not resolve to the controller-owned UID-scoped name''), cr, h1)
                        else endpoint_Observe_got E x tb (set_endpoint_ID rid cr) got h1)))"

definition endpoint_Observe :: "env \<Rightarrow> xp \<Rightarrow> client \<Rightarrow> template_binding \<Rightarrow> endpoint_cr \<Rightarrow> trace \<Rightarrow> endpoint_handler" where
  "endpoint_Observe E x c tb cr h =
     (if \<not> deleting cr \<and> map_get (annotations cr) ambiguousAbsenceConfirmedAnnotation \<noteq> []
      then (Inl (Err ''ambiguous Endpoint absence is acknowledged; delete the CR to finalize cleanup; recreation is disabled''), cr, h)
      else (case (if xp_ExternalCreateIncomplete x (annotations cr) then endpoint_effectiveName cr
                  else Inr (map_get (annotations cr) endpoint_ambiguousCreateNameAnnotation)) of
              Inl panic \<Rightarrow> (Inl panic, cr, h)
            | Inr pendingName \<Rightarrow>
                if pendingName \<noteq> [] then endpoint_Observe_pending E x c tb cr pendingName h
                else endpoint_Observe_bound E x c tb cr h))"

section \<open>Create, Update, Delete\<close>

definition endpoint_recoverAmbiguousCreate :: "env \<Rightarrow> xp \<Rightarrow> client \<Rightarrow> template_binding \<Rightarrow> endpoint_cr \<Rightarrow> endpoint_input \<Rightarrow> string \<Rightarrow> trace \<Rightarrow> endpoint_cr \<times> trace" where
  "endpoint_recoverAmbiguousCreate E x c tb cr input name h =
     (let desired = input\<lparr>ei_Name := name\<rparr>
      in case FindEndpointByName E c name h of
           (Inl _, h1) \<Rightarrow> (cr, h1)
         | (Inr got, h1) \<Rightarrow>
             if \<not> endpoint_proven desired got tb cr then (cr, h1)
             else (case UpdateEndpoint E c (re_ID got) desired h1 of
                (Inl _, h2) \<Rightarrow> (cr, h2)
              | (Inr got', h2) \<Rightarrow>
                  if \<not> endpoint_proven desired got' tb cr then (cr, h2)
                  else (case endpoint_bindExternalID E x cr (re_ID got') h2 of
                     (cr1, h3) \<Rightarrow>
                       snd (endpoint_setObservation E cr1 got' True tb (length (elems (re_Workers got')) > 0) h3))))"

definition endpoint_Create_send :: "env \<Rightarrow> xp \<Rightarrow> client \<Rightarrow> template_binding \<Rightarrow> endpoint_cr \<Rightarrow> endpoint_input \<Rightarrow> trace \<Rightarrow> error ptr \<times> endpoint_cr \<times> trace" where
  "endpoint_Create_send E x c tb cr desired h =
     (case CreateEndpoint E c desired h of
        (Inl err, h1) \<Rightarrow>
          if errors_Is err ErrCreateAmbiguous then
            (case endpoint_recoverAmbiguousCreate E x c tb (endpoint_markAmbiguousCreate cr (ei_Name desired)) desired (ei_Name desired) h1 of
               (cr1, h2) \<Rightarrow> (None, cr1, h2))
          else (Some err, cr, h1)
      | (Inr got, h1) \<Rightarrow>
          (case endpoint_bindExternalID E x cr (re_ID got) h1 of
             (cr1, h2) \<Rightarrow> (case endpoint_setObservation E cr1 got True tb False h2 of (_, cr2, h3) \<Rightarrow> (None, cr2, h3))))"

definition endpoint_Create :: "env \<Rightarrow> xp \<Rightarrow> client \<Rightarrow> template_binding \<Rightarrow> endpoint_cr \<Rightarrow> trace \<Rightarrow> error ptr \<times> endpoint_cr \<times> trace" where
  "endpoint_Create E x c tb cr0 h =
     (let cr = SetConditions x [Creating] cr0
      in if map_get (annotations cr) ambiguousAbsenceConfirmedAnnotation \<noteq> []
         then (Some (Err ''ambiguous Endpoint absence acknowledgement forbids external creation; delete the CR to finalize''), cr, h)
         else if om_UID (mg_Meta cr) = []
         then (Some (Err ''Kubernetes UID is required before creating a RunPod Endpoint''), cr, h)
         else (case endpoint_validate cr (tb_id tb) of
            Some err \<Rightarrow> (Some err, cr, h)
          | None \<Rightarrow>
              (case endpointInput cr (tb_id tb) of
                 Inl panic \<Rightarrow> (Some panic, cr, h)
               | Inr desired \<Rightarrow>
                   (let pendingName = map_get (annotations cr) endpoint_ambiguousCreateNameAnnotation
                    in if pendingName \<noteq> [] then
                         (case endpoint_recoverAmbiguousCreate E x c tb cr desired pendingName h of (cr1, h1) \<Rightarrow> (None, cr1, h1))
                       else (case time_Now E h of
                          (now, h1) \<Rightarrow>
                            (case endpoint_ensureLifetimeActive cr now of
                               Some err \<Rightarrow> (Some err, cr, h1)
                             | None \<Rightarrow> endpoint_Create_send E x c tb cr desired h1))))))"

definition endpoint_Update :: "env \<Rightarrow> xp \<Rightarrow> client \<Rightarrow> template_binding \<Rightarrow> endpoint_cr \<Rightarrow> trace \<Rightarrow> error ptr \<times> endpoint_cr \<times> trace" where
  "endpoint_Update E x c tb cr h =
     (case endpoint_validate cr (tb_id tb) of
        Some err \<Rightarrow> (Some err, cr, h)
      | None \<Rightarrow>
          (case time_Now E h of
             (now, h1) \<Rightarrow>
               (case endpoint_ensureLifetimeActive cr now of
                  Some err \<Rightarrow> (Some err, cr, h1)
                | None \<Rightarrow>
                    (let rid = GetExternalName x cr
                     in if ValidateRunPodID rid \<noteq> None \<or> eo_ID (ec_AtProvider cr) \<noteq> rid
                        then (Some (Err ''refusing to update an Endpoint without a persisted controller-observed ID binding''), cr, h1)
                        else (case GetEndpoint E c rid h1 of
                           (Inl err, h2) \<Rightarrow> (Some err, cr, h2)
                         | (Inr current, h2) \<Rightarrow>
                             (case endpointInput cr (tb_id tb) of
                                Inl panic \<Rightarrow> (Some panic, cr, h2)
                              | Inr input \<Rightarrow>
                                  (case UpdateEndpoint E c rid input h2 of
                                     (Inl err, h3) \<Rightarrow> (Some err, cr, h3)
                                   | (Inr got, h3) \<Rightarrow>
                                       (case endpoint_setObservation E cr got True tb False h3 of (_, cr1, h4) \<Rightarrow> (None, cr1, h4)))))))))"

fun refers_to_endpoint :: "string \<Rightarrow> endpoint_check list \<Rightarrow> bool" where
  "refers_to_endpoint name [] = False"
| "refers_to_endpoint name (k # ks) =
     (case cp_EndpointIDRef (ck_ForProvider k) of
        None \<Rightarrow> refers_to_endpoint name ks
      | Some ref \<Rightarrow> if ref_Name ref = name then True else refers_to_endpoint name ks)"

definition endpoint_Delete :: "env \<Rightarrow> xp \<Rightarrow> client \<Rightarrow> endpoint_cr \<Rightarrow> trace \<Rightarrow> error ptr \<times> endpoint_cr \<times> trace" where
  "endpoint_Delete E x c cr0 h =
     (let cr = SetConditions x [Deleting] cr0; rid = GetExternalName x cr
      in if ValidateRunPodID rid \<noteq> None \<or> eo_ID (ec_AtProvider cr) \<noteq> rid
         then (Some (Err ''refusing to delete an Endpoint without a persisted controller-observed ID binding''), cr, h)
         else (case list_EndpointChecks E (om_Namespace (mg_Meta cr)) h of
            (Inl err, h1) \<Rightarrow> (Some err, cr, h1)
          | (Inr checks, h1) \<Rightarrow>
              if refers_to_endpoint (om_Name (mg_Meta cr)) checks
              then (Some (Err ''EndpointCheck must be deleted before Endpoint so model-router removes the route''), cr, h1)
              else (case GetEndpoint E c rid h1 of
                 (Inl err, h2) \<Rightarrow> (if errors_Is err ErrNotFound then None else Some err, cr, h2)
               | (Inr current, h2) \<Rightarrow>
                   (case DeleteEndpoint E c rid h2 of
                      (Some err, h3) \<Rightarrow> (if errors_Is err ErrNotFound then None else Some err, cr, h3)
                    | (None, h3) \<Rightarrow> (None, cr, h3)))))"

text \<open>\<open>requestsForTemplate\<close>: the Endpoints to reconcile when a Template changes.\<close>

definition requestsForTemplate :: "env \<Rightarrow> objmeta \<Rightarrow> trace \<Rightarrow> (string \<times> string) list \<times> trace" where
  "requestsForTemplate E object h =
     (case list_Endpoints E (om_Namespace object) h of
        (Inl _, h1) \<Rightarrow> ([], h1)
      | (Inr items, h1) \<Rightarrow>
          (map (\<lambda>e. (om_Namespace (mg_Meta e), om_Name (mg_Meta e)))
             (filter (\<lambda>e. case ep_TemplateIDRef (ec_ForProvider e) of None \<Rightarrow> False | Some ref \<Rightarrow> ref_Name ref = om_Name object) items), h1))"

section \<open>What the handlers leave unchanged\<close>

interpretation endpoint_keys: annotation_keys endpoint_ambiguousCreateNameAnnotation endpoint_externalIDBoundAnnotation
  by unfold_locales
    (simp add: endpoint_ambiguousCreateNameAnnotation_def endpoint_externalIDBoundAnnotation_def externalNameKey_def
      externalCreateSucceededKey_def ambiguousAbsenceConfirmedAnnotation_def externalCreatePendingAnnotation_def)

lemma endpoint_status_frame [simp]:
  "mg_Meta (cr\<lparr>ec_AtProvider := a\<rparr>) = mg_Meta cr" "annotations (cr\<lparr>ec_AtProvider := a\<rparr>) = annotations cr"
  "deleting (cr\<lparr>ec_AtProvider := a\<rparr>) = deleting cr" "GetExternalName x (cr\<lparr>ec_AtProvider := a\<rparr>) = GetExternalName x cr"
  by (simp_all add: annotations_def deleting_def GetExternalName_def)

lemma set_endpoint_ID_frame [simp]:
  "mg_Meta (set_endpoint_ID rid cr) = mg_Meta cr" "annotations (set_endpoint_ID rid cr) = annotations cr"
  "deleting (set_endpoint_ID rid cr) = deleting cr" "GetExternalName x (set_endpoint_ID rid cr) = GetExternalName x cr"
  "ec_ForProvider (set_endpoint_ID rid cr) = ec_ForProvider cr" "eo_ID (ec_AtProvider (set_endpoint_ID rid cr)) = rid"
  "mg_ObservedGeneration (set_endpoint_ID rid cr) = mg_ObservedGeneration cr"
  by (simp_all add: set_endpoint_ID_def)

lemma endpoint_SetConditions_frame [simp]:
  "ec_AtProvider (SetConditions x cs cr) = ec_AtProvider cr" "ec_ForProvider (SetConditions x cs cr) = ec_ForProvider cr"
  by (simp_all add: SetConditions_def)

lemma endpoint_update_annotations_frame [simp]: "ec_ForProvider (update_annotations f cr) = ec_ForProvider cr"
  by (simp add: update_annotations_def)

lemma endpoint_setObservation_frame:
  assumes "endpoint_setObservation E cr got w tb a h = (p, cr', h')"
  shows "mg_Meta cr' = mg_Meta cr" "annotations cr' = annotations cr" "deleting cr' = deleting cr"
    "GetExternalName x cr' = GetExternalName x cr" "mutations h' = mutations h" "committed E h' = committed E h"
    "ec_ForProvider cr' = ec_ForProvider cr"
  using assms by (auto simp: endpoint_setObservation_def time_Now_def split: option.splits)

lemma endpoint_bindExternalID_frame:
  assumes "endpoint_bindExternalID E x cr rid h = (cr', h')"
  shows "deleting cr' = deleting cr" "mutations h' = mutations h" "committed E h' = committed E h"
    "eo_ID (ec_AtProvider cr') = rid" "om_Generation (mg_Meta cr') = om_Generation (mg_Meta cr)"
    "ec_ForProvider cr' = ec_ForProvider cr"
  using assms by (auto simp: endpoint_bindExternalID_def time_Now_def)

lemma endpoint_bind_name:
  assumes "endpoint_bindExternalID E x cr rid h = (cr', h')" "xp_laws x"
  shows "GetExternalName x cr' = rid"
  using assms by (auto simp: endpoint_bindExternalID_def time_Now_def endpoint_keys.bind_external_name)

text \<open>Binding and observing, as every recovery ends.\<close>

lemma endpoint_bind_observe:
  assumes "endpoint_bindExternalID E x cr rid h = (cr1, h1)" "endpoint_setObservation E cr1 got w tb a h1 = (p, cr2, h2)"
  shows "deleting cr2 = deleting cr" "mutations h2 = mutations h" "committed E h2 = committed E h"
    "xp_laws x \<Longrightarrow> GetExternalName x cr2 = rid" "om_Generation (mg_Meta cr2) = om_Generation (mg_Meta cr)"
  using endpoint_bindExternalID_frame [OF assms(1)] endpoint_setObservation_frame [OF assms(2)] endpoint_bind_name [OF assms(1)]
  by simp_all

lemma GetExternalName_Ready [simp]:
  "GetExternalName x (SetConditions x cs (cr\<lparr>mg_ObservedGeneration := g\<rparr>)) = GetExternalName x cr"
  by (simp add: GetExternalName_def)

text \<open>
  What an observation may send: nothing that changes external state, or the one PATCH of a recovery.
\<close>

definition patches_at_most :: "trace \<Rightarrow> trace \<Rightarrow> bool" where
  "patches_at_most h h' \<longleftrightarrow> mutation_methods h' = mutation_methods h \<or> mutation_methods h' = mutation_methods h @ [MethodPatch]"

lemma patches_at_most_quiet: "mutations h' = mutations h \<Longrightarrow> patches_at_most h h'"
  by (simp add: patches_at_most_def mutation_methods_def)

lemma patches_at_most_cong:
  "patches_at_most h h1 \<Longrightarrow> mutations h' = mutations h1 \<Longrightarrow> patches_at_most h h'"
  "patches_at_most h1 h' \<Longrightarrow> mutations h1 = mutations h \<Longrightarrow> patches_at_most h h'"
  by (simp_all add: patches_at_most_def mutation_methods_def)

lemma UpdateEndpoint_patches: "UpdateEndpoint E c rid i h = (r, h') \<Longrightarrow> patches_at_most h h'"
  by (drule endpoints.update_emits) (auto simp: patches_at_most_def dest!: emits_mutation_methods)

lemma endpoint_Observe_recover_effect:
  assumes "endpoint_Observe_recover E x c tb cr n got h = (r, cr', h')"
  shows "patches_at_most h h' \<and> committed E h' = committed E h \<and> deleting cr' = deleting cr
    \<and> (xp_laws x \<longrightarrow> binds_or_keeps x cr cr') \<and> (\<forall>ob. r = Inr ob \<longrightarrow> xo_ResourceExists ob)"
proof (cases "\<exists>i. endpointInput cr (tb_id tb) = Inr i \<and> endpoint_proven (i\<lparr>ei_Name := n\<rparr>) got tb cr")
  case False
  with assms show ?thesis
    by (auto simp: endpoint_Observe_recover_def Let_def binds_or_keeps_def patches_at_most_def split: sum.splits if_splits)
next
  case True
  then obtain i where i: "endpointInput cr (tb_id tb) = Inr i" "endpoint_proven (i\<lparr>ei_Name := n\<rparr>) got tb cr" by blast
  obtain u h1 where u: "UpdateEndpoint E c (re_ID got) (i\<lparr>ei_Name := n\<rparr>) h = (u, h1)" by fastforce
  note q = UpdateEndpoint_patches [OF u] endpoints.update_committed [OF u]
  show ?thesis
  proof (cases "\<exists>got'. u = Inr got' \<and> endpoint_proven (i\<lparr>ei_Name := n\<rparr>) got' tb cr")
    case False
    with assms i u q show ?thesis
      by (auto simp: endpoint_Observe_recover_def Let_def binds_or_keeps_def split: sum.splits if_splits)
  next
    case True
    then obtain got' where g: "u = Inr got'" "endpoint_proven (i\<lparr>ei_Name := n\<rparr>) got' tb cr" by blast
    have v: "valid_id (re_ID got')" using endpoints.update_ok u g(1) endpoint_wf_id by blast
    obtain cr1 h2 where b: "endpoint_bindExternalID E x cr (re_ID got') h1 = (cr1, h2)" by fastforce
    obtain p cr2 h3 where o: "endpoint_setObservation E cr1 got' True tb (length (elems (re_Workers got')) > 0) h2 = (p, cr2, h3)"
      by (metis prod_cases3)
    have e: "r = Inr (observation True True True)" "h' = h3"
      "cr' = SetConditions x [Available] (cr2\<lparr>mg_ObservedGeneration := om_Generation (mg_Meta cr2)\<rparr>)"
      using assms i u g b o by (auto simp: endpoint_Observe_recover_def Let_def)
    from endpoint_bind_observe [OF b o] e q v patches_at_most_cong(1) [OF q(1)] show ?thesis
      by (auto simp: binds_or_keeps_def)
  qed
qed

lemma expectedTemplateIDForCleanup_effect:
  "expectedTemplateIDForCleanup E x cr h = (r, h') \<Longrightarrow> mutations h' = mutations h \<and> committed E h' = committed E h"
  by (auto simp: expectedTemplateIDForCleanup_def get_Template_def Let_def split: option.splits sum.splits if_splits)

lemma endpoint_Observe_pending_effect:
  assumes "endpoint_Observe_pending E x c tb cr n h = (r, cr', h')"
  shows "patches_at_most h h' \<and> committed E h' = committed E h \<and> deleting cr' = deleting cr
    \<and> (xp_laws x \<longrightarrow> binds_or_keeps x cr cr') \<and> (\<forall>ob. r = Inr ob \<and> \<not> deleting cr \<longrightarrow> xo_ResourceExists ob)"
proof -
  obtain f h1 where f: "FindEndpointByName E c n h = (f, h1)" by fastforce
  note q = endpoints.find_mutations [OF f] endpoints.find_committed [OF f]
  show ?thesis
  proof (cases "endpoint_effectiveName cr = Inr n \<and> (\<exists>got. f = Inr got \<and> re_Name got = n \<and> valid_id (re_ID got))")
    case False
    with assms f q show ?thesis
      by (auto simp: endpoint_Observe_pending_def binds_or_keeps_def patches_at_most_quiet split: sum.splits if_splits)
  next
    case True
    then obtain got where g: "endpoint_effectiveName cr = Inr n" "f = Inr got" "re_Name got = n" "valid_id (re_ID got)" by blast
    show ?thesis
    proof (cases "deleting cr")
      case False
      with assms f g have "endpoint_Observe_recover E x c tb cr n got h1 = (r, cr', h')"
        by (simp add: endpoint_Observe_pending_def)
      from endpoint_Observe_recover_effect [OF this] q patches_at_most_cong(2) show ?thesis by auto
    next
      case True
      obtain e h2 where e: "expectedTemplateIDForCleanup E x cr h1 = (e, h2)" by fastforce
      obtain cr1 h3 where b: "endpoint_bindExternalID E x cr (re_ID got) h2 = (cr1, h3)" by fastforce
      from expectedTemplateIDForCleanup_effect [OF e] endpoint_bindExternalID_frame [OF b] endpoint_bind_name [OF b]
        True assms f g e b q show ?thesis
        by (auto simp: endpoint_Observe_pending_def binds_or_keeps_def patches_at_most_quiet split: sum.splits if_splits)
    qed
  qed
qed

lemma endpoint_Observe_got_effect:
  assumes "endpoint_Observe_got E x tb cr got h = (r, cr', h')"
  shows "mutations h' = mutations h \<and> committed E h' = committed E h \<and> deleting cr' = deleting cr \<and> annotations cr' = annotations cr
    \<and> (\<forall>ob. r = Inr ob \<longrightarrow> xo_ResourceExists ob)"
proof -
  obtain p cr1 h1 where o: "endpoint_setObservation E cr got False tb (length (elems (re_Workers got)) > 0) h = (p, cr1, h1)"
    by (metis prod_cases3)
  from endpoint_setObservation_frame [OF o] assms o show ?thesis
    by (auto simp: endpoint_Observe_got_def split: sum.splits if_splits option.splits prod.splits)
qed

lemma endpoint_Observe_bound_effect:
  assumes "endpoint_Observe_bound E x c tb cr h = (r, cr', h')"
  shows "mutations h' = mutations h \<and> committed E h' = committed E h \<and> deleting cr' = deleting cr \<and> annotations cr' = annotations cr
    \<and> (\<forall>ob. r = Inr ob \<and> \<not> deleting cr \<and> GetExternalName x cr \<noteq> [] \<longrightarrow> xo_ResourceExists ob)"
proof -
  obtain g h1 where g: "GetEndpoint E c (GetExternalName x cr) h = (g, h1)" by fastforce
  note q = endpoints.get_mutations [OF g] endpoints.get_committed [OF g]
  show ?thesis
    using assms q
    by (auto simp: endpoint_Observe_bound_def g Let_def split: sum.splits if_splits dest!: endpoint_Observe_got_effect)
qed

lemma endpoint_Observe_effect:
  assumes "endpoint_Observe E x c tb cr h = (r, cr', h')"
  shows "patches_at_most h h' \<and> committed E h' = committed E h \<and> deleting cr' = deleting cr \<and> (xp_laws x \<longrightarrow> binds_or_keeps x cr cr')
    \<and> (\<forall>ob. r = Inr ob \<and> \<not> deleting cr \<and> create_locked x endpoint_ambiguousCreateNameAnnotation cr \<longrightarrow> xo_ResourceExists ob)"
proof -
  have ne: "endpoint_effectiveName cr = Inr n \<Longrightarrow> n \<noteq> []" for n
    by (simp add: endpoint_effectiveName_def uid_scoped_name_nonempty)
  consider (out) "r = Inl (Err ''ambiguous Endpoint absence is acknowledged; delete the CR to finalize cleanup; recreation is disabled'')" "cr' = cr" "h' = h"
    | (panic) p where "r = Inl p" "cr' = cr" "h' = h"
    | (pending) n where "endpoint_Observe_pending E x c tb cr n h = (r, cr', h')"
    | (bound) "\<not> xp_ExternalCreateIncomplete x (annotations cr)" "map_get (annotations cr) endpoint_ambiguousCreateNameAnnotation = []"
        "endpoint_Observe_bound E x c tb cr h = (r, cr', h')"
    using assms ne by (auto simp: endpoint_Observe_def split: if_splits sum.splits)
  then show ?thesis
  proof cases
    case (pending n)
    from endpoint_Observe_pending_effect [OF this] show ?thesis by auto
  next
    case bound
    from endpoint_Observe_bound_effect [OF bound(3)] bound(1,2) show ?thesis
      by (auto simp: patches_at_most_quiet binds_or_keeps_def create_locked_def)
  qed (auto simp: patches_at_most_quiet binds_or_keeps_def)
qed

lemma endpoint_recover_effect:
  assumes "endpoint_recoverAmbiguousCreate E x c tb cr i n h = (cr', h')"
  shows "patches_at_most h h' \<and> committed E h' = committed E h \<and> (xp_laws x \<longrightarrow> binds_or_keeps x cr cr')"
proof -
  let ?i = "i\<lparr>ei_Name := n\<rparr>"
  obtain f h1 where f: "FindEndpointByName E c n h = (f, h1)" by fastforce
  note q = endpoints.find_mutations [OF f] endpoints.find_committed [OF f]
  show ?thesis
  proof (cases "\<exists>got. f = Inr got \<and> endpoint_proven ?i got tb cr")
    case False
    with assms f q show ?thesis
      by (auto simp: endpoint_recoverAmbiguousCreate_def Let_def binds_or_keeps_def patches_at_most_quiet split: sum.splits if_splits)
  next
    case True
    then obtain got where g: "f = Inr got" "endpoint_proven ?i got tb cr" by blast
    obtain u h2 where u: "UpdateEndpoint E c (re_ID got) ?i h1 = (u, h2)" by fastforce
    note p = patches_at_most_cong(2) [OF UpdateEndpoint_patches [OF u] q(1)] endpoints.update_committed [OF u]
    show ?thesis
    proof (cases "\<exists>got'. u = Inr got' \<and> endpoint_proven ?i got' tb cr")
      case False
      with assms f g u p q show ?thesis
        by (auto simp: endpoint_recoverAmbiguousCreate_def Let_def binds_or_keeps_def split: sum.splits if_splits)
    next
      case True
      then obtain got' where g': "u = Inr got'" "endpoint_proven ?i got' tb cr" by blast
      have v: "valid_id (re_ID got')" using endpoints.update_ok u g'(1) endpoint_wf_id by blast
      obtain cr1 h3 where b: "endpoint_bindExternalID E x cr (re_ID got') h2 = (cr1, h3)" by fastforce
      obtain pr cr2 h4 where o: "endpoint_setObservation E cr1 got' True tb (length (elems (re_Workers got')) > 0) h3 = (pr, cr2, h4)"
        by (metis prod_cases3)
      have "cr' = cr2" "h' = h4"
        using assms f g u g' b o by (auto simp: endpoint_recoverAmbiguousCreate_def Let_def)
      with endpoint_bind_observe [OF b o] p q v patches_at_most_cong(1) [OF p(1)] show ?thesis
        by (auto simp: binds_or_keeps_def)
    qed
  qed
qed

lemma endpointInput_name: "endpointInput cr tid = Inr i \<Longrightarrow> endpoint_effectiveName cr = Inr (ei_Name i) \<and> ei_Name i \<noteq> [] \<and> ei_TemplateID i = tid"
  by (auto simp: endpointInput_def Let_def endpoint_effectiveName_def dest: uid_scoped_name_nonempty split: sum.splits)

text \<open>The outcome of a creation that has passed its guards, by what reached the wire.\<close>

lemma endpoint_Create_send_cases:
  assumes "endpoint_Create_send E x c tb cr i h = (err, cr', h')" "ei_Name i \<noteq> []"
  obtains (unsent) "h' = h" "err \<noteq> None" "cr' = cr"
  | (refused) q where "err \<noteq> None" "cr' = cr" "rq_Method q = MethodPost" "h' = h @ [EvHTTP q]" "definitive (env_Do E h q)"
      "valid_id (ei_TemplateID i)"
  | (posted) q h1 where "valid_id (ei_TemplateID i)" "err = None" "rq_Method q = MethodPost" "h1 = h @ [EvHTTP q]" "patches_at_most h1 h'" "committed E h' = committed E h1"
      "xp_laws x \<longrightarrow> valid_id (GetExternalName x cr') \<or> map_get (annotations cr') endpoint_ambiguousCreateNameAnnotation = ei_Name i"
proof -
  let ?marked = "endpoint_markAmbiguousCreate cr (ei_Name i)"
  obtain r h1 where c: "CreateEndpoint E c i h = (r, h1)" by fastforce
  from endpoints.create_trace [OF c] show thesis
  proof
    assume "h1 = h \<and> (\<exists>e. r = Inl e \<and> \<not> errors_Is e ErrCreateAmbiguous)"
    with c assms(1) show thesis by (intro unsent) (auto simp: endpoint_Create_send_def)
  next
    assume "\<exists>q. rq_Method q = MethodPost \<and> h1 = h @ [EvHTTP q] \<and>
      (\<forall>e. r = Inl e \<and> \<not> errors_Is e ErrCreateAmbiguous \<longrightarrow> definitive (env_Do E h q))"
    then obtain q where q: "rq_Method q = MethodPost" "h1 = h @ [EvHTTP q]"
      "\<And>e. r = Inl e \<Longrightarrow> \<not> errors_Is e ErrCreateAmbiguous \<Longrightarrow> definitive (env_Do E h q)" by blast
    have t: "valid_id (ei_TemplateID i)" using CreateEndpoint_template_valid [OF c] q(2) by simp
    show thesis
    proof (cases r)
      case (Inr got)
      have v: "valid_id (re_ID got)" using endpoints.create_ok [OF c [unfolded Inr]] endpoint_wf_id by blast
      obtain cr1 h2 where b: "endpoint_bindExternalID E x cr (re_ID got) h1 = (cr1, h2)" by fastforce
      obtain p cr2 h3 where o: "endpoint_setObservation E cr1 got True tb False h2 = (p, cr2, h3)" by (metis prod_cases3)
      have "err = None" "cr' = cr2" "h' = h3" using assms(1) c Inr b o by (auto simp: endpoint_Create_send_def)
      with endpoint_bind_observe [OF b o] v q t show thesis by (intro posted [of q h1]) (auto intro: patches_at_most_quiet)
    next
      case (Inl e)
      show thesis
      proof (cases "errors_Is e ErrCreateAmbiguous")
        case False
        with Inl c assms(1) q t show thesis by (intro refused [of q]) (auto simp: endpoint_Create_send_def)
      next
        case True
        with Inl c assms(1) have r: "endpoint_recoverAmbiguousCreate E x c tb ?marked i (ei_Name i) h1 = (cr', h')" "err = None"
          by (auto simp: endpoint_Create_send_def split: prod.splits)
        from endpoint_recover_effect [OF r(1)] q r(2) t show thesis
          by (intro posted [of q h1]) (auto simp: binds_or_keeps_def endpoint_markAmbiguousCreate_def map_get_def)
      qed
    qed
  qed
qed

lemma endpoint_frames [simp]:
  "endpoint_validate (SetConditions x cs cr) tid = endpoint_validate cr tid"
  "endpointInput (SetConditions x cs cr) tid = endpointInput cr tid"
  "endpoint_ensureLifetimeActive (SetConditions x cs cr) now = endpoint_ensureLifetimeActive cr now"
  by (simp_all add: endpoint_validate_def endpointInput_def endpoint_effectiveName_def endpoint_ensureLifetimeActive_def)

definition endpoint_may_create :: "env \<Rightarrow> template_binding \<Rightarrow> endpoint_cr \<Rightarrow> trace \<Rightarrow> bool" where
  "endpoint_may_create E tb cr h \<longleftrightarrow>
     map_get (annotations cr) ambiguousAbsenceConfirmedAnnotation = [] \<and>
     map_get (annotations cr) endpoint_ambiguousCreateNameAnnotation = [] \<and>
     om_UID (mg_Meta cr) \<noteq> [] \<and> endpoint_validate cr (tb_id tb) = None \<and>
     lifetime_active (om_CreationTimestamp (mg_Meta cr)) (ep_MaxLifetimeSeconds (ec_ForProvider cr)) (env_Now E h)"

lemma endpoint_ensureLifetimeActive_None:
  "endpoint_ensureLifetimeActive cr now = None \<longleftrightarrow>
     lifetime_active (om_CreationTimestamp (mg_Meta cr)) (ep_MaxLifetimeSeconds (ec_ForProvider cr)) now"
  by (simp add: endpoint_ensureLifetimeActive_def)

lemma endpoint_Create_cases:
  assumes "endpoint_Create E x c tb cr h = (err, cr', h')"
  obtains (quiet) "patches_at_most h h'" "committed E h' = committed E h"
  | (sent) i where "endpoint_may_create E tb cr h" "endpointInput cr (tb_id tb) = Inr i"
      "endpoint_Create_send E x c tb (SetConditions x [Creating] cr) i (h @ [EvClock]) = (err, cr', h')"
proof (cases "map_get (annotations cr) ambiguousAbsenceConfirmedAnnotation = [] \<and> om_UID (mg_Meta cr) \<noteq> [] \<and>
    endpoint_validate cr (tb_id tb) = None \<and> (\<exists>i. endpointInput cr (tb_id tb) = Inr i)")
  case False
  have "mutations h' = mutations h \<and> committed E h' = committed E h"
    using False assms by (auto simp: endpoint_Create_def Let_def split: if_splits option.splits sum.splits)
  then show thesis by (intro quiet) (auto intro: patches_at_most_quiet)
next
  case ok: True
  then obtain i where i: "endpointInput cr (tb_id tb) = Inr i" by blast
  show thesis
  proof (cases "map_get (annotations cr) endpoint_ambiguousCreateNameAnnotation = []")
    case False
    with ok i assms have "\<exists>n. endpoint_recoverAmbiguousCreate E x c tb (SetConditions x [Creating] cr) i n h = (cr', h')"
      by (auto simp: endpoint_Create_def Let_def split: prod.splits)
    then show thesis using endpoint_recover_effect by (intro quiet) blast+
  next
    case True
    show thesis
    proof (cases "endpoint_ensureLifetimeActive cr (env_Now E h)")
      case None
      with True ok i assms show thesis
        by (intro sent [of i]) (auto simp: endpoint_Create_def Let_def time_Now_def endpoint_may_create_def endpoint_ensureLifetimeActive_None)
    next
      case (Some e)
      with True ok i assms have "h' = h @ [EvClock]" by (auto simp: endpoint_Create_def Let_def time_Now_def)
      then show thesis by (intro quiet) (auto intro: patches_at_most_quiet)
    qed
  qed
qed

lemma endpoint_Create_committed:
  assumes "endpoint_Create E x c tb cr h = (err, cr', h')"
  shows "committed E h' \<le> Suc (committed E h)"
    and "xp_laws x \<Longrightarrow> committed E h' \<noteq> committed E h \<Longrightarrow> create_locked x endpoint_ambiguousCreateNameAnnotation cr'"
proof -
  have "committed E h' \<le> Suc (committed E h) \<and>
    (xp_laws x \<longrightarrow> committed E h' \<noteq> committed E h \<longrightarrow> create_locked x endpoint_ambiguousCreateNameAnnotation cr')"
    using assms
  proof (cases rule: endpoint_Create_cases)
    case (sent i)
    from sent(3) endpointInput_name [OF sent(2)] have n: "ei_Name i \<noteq> []" by simp
    from sent(3) n show ?thesis
    proof (cases rule: endpoint_Create_send_cases)
      case (refused q)
      then show ?thesis by (simp add: uncertain_post_def)
    next
      case (posted q h1)
      have "create_locked x endpoint_ambiguousCreateNameAnnotation cr'" if "xp_laws x"
        using posted(7) that n by (auto intro: locked_by_name locked_by_marker)
      with posted show ?thesis by simp
    qed simp
  qed simp
  then show "committed E h' \<le> Suc (committed E h)"
    and "xp_laws x \<Longrightarrow> committed E h' \<noteq> committed E h \<Longrightarrow> create_locked x endpoint_ambiguousCreateNameAnnotation cr'"
    by blast+
qed

lemma endpoint_Update_effect:
  assumes "endpoint_Update E x c tb cr h = (err, cr', h')"
  shows "annotations cr' = annotations cr \<and> committed E h' = committed E h \<and> patches_at_most h h'
    \<and> (mutation_methods h' \<noteq> mutation_methods h \<longrightarrow>
         endpoint_validate cr (tb_id tb) = None
         \<and> lifetime_active (om_CreationTimestamp (mg_Meta cr)) (ep_MaxLifetimeSeconds (ec_ForProvider cr)) (env_Now E h)
         \<and> valid_id (GetExternalName x cr) \<and> eo_ID (ec_AtProvider cr) = GetExternalName x cr)"
proof (cases "endpoint_validate cr (tb_id tb) = None \<and> endpoint_ensureLifetimeActive cr (env_Now E h) = None \<and>
    valid_id (GetExternalName x cr) \<and> eo_ID (ec_AtProvider cr) = GetExternalName x cr")
  case False
  with assms show ?thesis
    by (auto simp: endpoint_Update_def time_Now_def Let_def patches_at_most_quiet split: option.splits if_splits)
next
  case ok: True
  let ?id = "GetExternalName x cr" and ?h1 = "h @ [EvClock]"
  obtain g h2 where g: "GetEndpoint E c ?id ?h1 = (g, h2)" by fastforce
  note q = endpoints.get_mutations [OF g] endpoints.get_committed [OF g]
  show ?thesis
  proof (cases "\<exists>cur i. g = Inr cur \<and> endpointInput cr (tb_id tb) = Inr i")
    case False
    with assms ok g q show ?thesis
      by (auto simp: endpoint_Update_def time_Now_def Let_def mutation_methods_def patches_at_most_quiet split: sum.splits)
  next
    case True
    then obtain cur i where i: "g = Inr cur" "endpointInput cr (tb_id tb) = Inr i" by blast
    obtain u h3 where u: "UpdateEndpoint E c ?id i h2 = (u, h3)" by fastforce
    have "annotations cr' = annotations cr \<and> mutations h' = mutations h3 \<and> committed E h' = committed E h3"
    proof (cases u)
      case (Inr got)
      obtain p cr1 h4 where o: "endpoint_setObservation E cr got True tb False h3 = (p, cr1, h4)" by (metis prod_cases3)
      from endpoint_setObservation_frame [OF o] assms ok g i u Inr o show ?thesis
        by (auto simp: endpoint_Update_def time_Now_def Let_def)
    qed (use assms ok g i u in \<open>auto simp: endpoint_Update_def time_Now_def Let_def\<close>)
    moreover have "patches_at_most h h3"
      using patches_at_most_cong(2) [OF UpdateEndpoint_patches [OF u]] q(1) by simp
    ultimately show ?thesis
      using q endpoints.update_committed [OF u] ok patches_at_most_cong(1) by (auto simp: endpoint_ensureLifetimeActive_None)
  qed
qed

lemma refers_to_endpoint_iff:
  "refers_to_endpoint name ks \<longleftrightarrow> (\<exists>k \<in> set ks. \<exists>ref. cp_EndpointIDRef (ck_ForProvider k) = Some ref \<and> ref_Name ref = name)"
  by (induction ks) (auto split: option.splits)

lemma endpoint_Delete_cases:
  assumes "endpoint_Delete E x c cr h = (err, cr', h')"
  obtains (quiet) "annotations cr' = annotations cr" "mutations h' = mutations h" "committed E h' = committed E h"
  | (sent) checks current h2 d where "annotations cr' = annotations cr" "valid_id (GetExternalName x cr)"
      "eo_ID (ec_AtProvider cr) = GetExternalName x cr"
      "env_ListChecks E h (om_Namespace (mg_Meta cr)) = Inr checks" "\<not> refers_to_endpoint (om_Name (mg_Meta cr)) checks"
      "GetEndpoint E c (GetExternalName x cr) (h @ [EvList KEndpointCheck (om_Namespace (mg_Meta cr))]) = (Inr current, h2)"
      "DeleteEndpoint E c (GetExternalName x cr) h2 = (d, h')"
proof -
  let ?id = "GetExternalName x cr" and ?ns = "om_Namespace (mg_Meta cr)"
  have id: "GetExternalName x (SetConditions x cs cr) = ?id" for cs by simp
  let ?h1 = "h @ [EvList KEndpointCheck ?ns]"
  obtain g h2 where g: "GetEndpoint E c ?id ?h1 = (g, h2)" by fastforce
  note q = endpoints.get_mutations [OF g] endpoints.get_committed [OF g]
  show thesis
  proof (cases "valid_id ?id \<and> eo_ID (ec_AtProvider cr) = ?id \<and> (\<exists>checks. env_ListChecks E h ?ns = Inr checks \<and>
      \<not> refers_to_endpoint (om_Name (mg_Meta cr)) checks \<and> (\<exists>cur. g = Inr cur))")
    case True
    then obtain checks cur where ok: "valid_id ?id" "eo_ID (ec_AtProvider cr) = ?id" "env_ListChecks E h ?ns = Inr checks"
      "\<not> refers_to_endpoint (om_Name (mg_Meta cr)) checks" "g = Inr cur" by blast
    obtain d h3 where d: "DeleteEndpoint E c ?id h2 = (d, h3)" by fastforce
    with ok g assms have "annotations cr' = annotations cr" "h' = h3"
      by (auto simp: endpoint_Delete_def Let_def id list_EndpointChecks_def split: option.splits)
    with ok g d show thesis by (intro sent [of checks cur h2 d]) simp_all
  next
    case False
    then have "annotations cr' = annotations cr \<and> mutations h' = mutations h \<and> committed E h' = committed E h"
      using assms g q
      by (auto simp: endpoint_Delete_def Let_def id list_EndpointChecks_def map_sum_Inr split: sum.splits if_splits option.splits)
    then show thesis by (intro quiet) simp_all
  qed
qed

lemma endpoint_Delete_effect:
  assumes "endpoint_Delete E x c cr h = (err, cr', h')"
  shows "annotations cr' = annotations cr \<and> committed E h' = committed E h"
  using assms
proof (cases rule: endpoint_Delete_cases)
  case (sent checks current h2 d)
  from endpoints.del_committed [OF sent(7)] endpoints.get_committed [OF sent(6)] sent(1) show ?thesis by simp
qed simp

section \<open>At most one creation\<close>

text \<open>
  The handlers of the Endpoint controller. The connector resolves the Template binding anew for
  every reconcile, so the binding is any function of the object and the trace.
\<close>

definition endpoint_handlers :: "(endpoint_cr \<Rightarrow> trace \<Rightarrow> template_binding) \<Rightarrow> env \<Rightarrow> xp \<Rightarrow> client \<Rightarrow> endpoint_cr external_client" where
  "endpoint_handlers bind E x c =
     \<lparr>xc_Observe = (\<lambda>cr h. endpoint_Observe E x c (bind cr h) cr h), xc_Create = (\<lambda>cr h. endpoint_Create E x c (bind cr h) cr h),
      xc_Update = (\<lambda>cr h. endpoint_Update E x c (bind cr h) cr h), xc_Delete = endpoint_Delete E x c\<rparr>"

lemma endpoint_handlers_simps [simp]:
  "xc_Observe (endpoint_handlers bind E x c) cr h = endpoint_Observe E x c (bind cr h) cr h"
  "xc_Create (endpoint_handlers bind E x c) cr h = endpoint_Create E x c (bind cr h) cr h"
  "xc_Update (endpoint_handlers bind E x c) cr h = endpoint_Update E x c (bind cr h) cr h"
  "xc_Delete (endpoint_handlers bind E x c) = endpoint_Delete E x c"
  by (simp_all add: endpoint_handlers_def)

interpretation endpoint_once: create_once endpoint_ambiguousCreateNameAnnotation "endpoint_handlers bind" for bind
proof unfold_locales
  fix E x c and cr :: endpoint_cr and h r cr' h' ob err
  let ?X = "endpoint_handlers bind E x c" and ?k = endpoint_ambiguousCreateNameAnnotation
  show "xc_Observe ?X cr h = (r, cr', h') \<Longrightarrow> committed E h' = committed E h" by (auto dest: endpoint_Observe_effect)
  show "xc_Observe ?X cr h = (r, cr', h') \<Longrightarrow> deleting cr' = deleting cr" by (auto dest: endpoint_Observe_effect)
  show "xp_laws x \<Longrightarrow> xc_Observe ?X cr h = (r, cr', h') \<Longrightarrow> keeps_lock x ?k cr cr'"
    by (auto dest!: endpoint_Observe_effect intro: binds_or_keeps_lock)
  show "xc_Observe ?X cr h = (Inr ob, cr', h') \<Longrightarrow> create_locked x ?k cr \<Longrightarrow> \<not> deleting cr \<Longrightarrow> xo_ResourceExists ob"
    by (auto dest: endpoint_Observe_effect)
  show "xc_Create ?X cr h = (err, cr', h') \<Longrightarrow> committed E h' \<le> Suc (committed E h)"
    by (simp add: endpoint_Create_committed(1))
  show "xp_laws x \<Longrightarrow> xc_Create ?X cr h = (err, cr', h') \<Longrightarrow> committed E h' \<noteq> committed E h \<Longrightarrow> create_locked x ?k cr'"
    by (simp add: endpoint_Create_committed(2))
  show "xc_Update ?X cr h = (err, cr', h') \<Longrightarrow> committed E h' = committed E h" by (auto dest: endpoint_Update_effect)
  show "xc_Update ?X cr h = (err, cr', h') \<Longrightarrow> keeps_lock x ?k cr cr'"
    by (auto dest!: endpoint_Update_effect intro: keeps_lock_same)
  show "xc_Delete ?X cr h = (err, cr', h') \<Longrightarrow> committed E h' = committed E h" by (auto dest: endpoint_Delete_effect)
  show "xc_Delete ?X cr h = (err, cr', h') \<Longrightarrow> keeps_lock x ?k cr cr'"
    by (auto dest!: endpoint_Delete_effect intro: keeps_lock_same)
qed

section \<open>Properties\<close>



definition demo_binding :: template_binding where
  "demo_binding = \<lparr>tb_id = ''t1'', tb_uid = ''u1'', tb_generation = 1, tb_image = ''img@sha256:aa'', tb_name = ''tpl'', tb_containerDiskGB = 50,
     tb_entrypoint = None, tb_startCmd = None, tb_ports = Some [''8000/http'']\<rparr>"

definition zero_observation :: endpoint_observation where
  "zero_observation = \<lparr>eo_ID = [], eo_TemplateID = [], eo_TemplateResourceUID = [], eo_TemplateResourceGeneration = 0, eo_TemplateImageDigest = [],
     eo_Version = None, eo_FlashBootDisabled = False, eo_FlashBootEvidenceVersion = None, eo_FlashBootLastEnforcedAt = 0,
     eo_WorkerSecurityValidated = False, eo_WorkerSecurityProofVersion = None, eo_WorkerSecurityObservedAt = 0,
     eo_WorkersMin = 0, eo_WorkersMax = 0, eo_InferenceURL = [], eo_LastObservedAt = 0\<rparr>"

definition demo_endpoint_cr :: endpoint_cr where
  "demo_endpoint_cr = \<lparr>mg_Meta = demo_meta, mg_ProviderConfigReference = None, mg_Conditions = [], mg_ObservedGeneration = 0,
     ec_ForProvider = \<lparr>ep_MaxLifetimeSeconds = 3600, ep_DeleteReferencedTemplateOnExpiry = None, ep_Name = ''demo'',
       ep_TemplateIDRef = Some \<lparr>ref_Name = ''tpl''\<rparr>, ep_GPUTypeIDs = Some [''NVIDIA L4''], ep_AllowedCUDAVersions = None,
       ep_DataCenterIDs = Some [''EU-RO-1''], ep_WorkersMin = 1, ep_WorkersMax = 1, ep_MaxWorkerCostMilliUSDPerHour = 2000,
       ep_IdleTimeout = 5, ep_ScalerType = ''QUEUE_DELAY'', ep_ScalerValue = 4, ep_ExecutionTimeoutMS = 100\<rparr>,
     ec_AtProvider = zero_observation\<rparr>"

lemma demo_endpoint_Create_posts:
  "mutation_methods (snd (snd (endpoint_Create down_env xp_plain demo_client demo_binding demo_endpoint_cr []))) = [MethodPost]"
  by code_simp


text \<open>
  C1: an Endpoint is created at most once. In every run of the reconciler's protocol over the
  handlers, with any Template binding at every reconcile, at most one POST is sent that the peer did
  not definitively refuse, crashes after the POST included.
\<close>

theorem endpoint_created_at_most_once:
  assumes "xp_laws x"
    and "reconciles x endpoint_ambiguousCreateNameAnnotation (endpoint_handlers bind E x c) (cr, None, []) (cr', seen, h)"
  shows "committed E h \<le> 1"
  by (rule endpoint_once.at_most_one_committed [OF assms(2,1)]) (simp add: committed_def)

theorem endpoint_created_at_most_once_witness:
  "\<exists>cr' h. reconciles xp_plain endpoint_ambiguousCreateNameAnnotation (endpoint_handlers (\<lambda>_ _. demo_binding) down_env xp_plain demo_client)
       (demo_endpoint_cr, None, []) (cr', None, h) \<and> mutation_methods h = [MethodPost] \<and> committed down_env h \<le> 1"
proof -
  let ?X = "endpoint_handlers (\<lambda>_ _. demo_binding) down_env xp_plain demo_client" and ?k = endpoint_ambiguousCreateNameAnnotation
  obtain err cr' h' where c: "endpoint_Create down_env xp_plain demo_client demo_binding demo_endpoint_cr [] = (err, cr', h')"
    by (cases "endpoint_Create down_env xp_plain demo_client demo_binding demo_endpoint_cr []") auto
  have "endpoint_Observe down_env xp_plain demo_client demo_binding demo_endpoint_cr [] = (Inr (observation False False False), demo_endpoint_cr, [])"
    by (simp add: endpoint_Observe_def endpoint_Observe_bound_def Let_def xp_plain_def demo_endpoint_cr_def demo_meta_def annotations_def
        GetExternalName_def)
  then have "reconcile_step xp_plain ?k ?X (demo_endpoint_cr, None, []) (demo_endpoint_cr, Some (observation False False False), [])"
    using reconcile_step.observe [of ?X demo_endpoint_cr "[]" "Inr (observation False False False)"] by simp
  moreover have keep: "keeps_lock xp_plain ?k demo_endpoint_cr demo_endpoint_cr" by (simp add: keeps_lock_def)
  have "reconcile_step xp_plain ?k ?X (demo_endpoint_cr, Some (observation False False False), []) (cr', None, h')"
    using c by (intro reconcile_step.create [OF _ _ keep]) (simp_all add: deleting_def demo_endpoint_cr_def demo_meta_def)
  ultimately have r: "reconciles xp_plain ?k ?X (demo_endpoint_cr, None, []) (cr', None, h')"
    by (meson reconciles.intros)
  with endpoint_created_at_most_once [OF xp_laws_plain r] c demo_endpoint_Create_posts show ?thesis by auto
qed

text \<open>
  C5: deletion order. The Endpoint's Delete sends a mutating request only for an object whose external
  name is valid and equals the identifier the controller observed, and only after the API server
  listed no EndpointCheck of the namespace that refers to the Endpoint; what it sends is then the
  PATCH that scales to zero, possibly followed by the DELETE.
\<close>

theorem endpoint_Delete_order:
  assumes "endpoint_Delete E x c cr h = (err, cr', h')"
  shows "mutation_methods h' = mutation_methods h \<or>
    (mutation_methods h' = mutation_methods h @ [MethodPatch] \<or> mutation_methods h' = mutation_methods h @ [MethodPatch, MethodDelete])
    \<and> valid_id (GetExternalName x cr) \<and> eo_ID (ec_AtProvider cr) = GetExternalName x cr
    \<and> (\<exists>checks. env_ListChecks E h (om_Namespace (mg_Meta cr)) = Inr checks
         \<and> (\<forall>k \<in> set checks. \<forall>ref. cp_EndpointIDRef (ck_ForProvider k) = Some ref \<longrightarrow> ref_Name ref \<noteq> om_Name (mg_Meta cr)))"
  using assms
proof (cases rule: endpoint_Delete_cases)
  case quiet
  then show ?thesis by (simp add: mutation_methods_def)
next
  case (sent checks current h2 d)
  have "mutation_methods h2 = mutation_methods h"
    using endpoints.get_mutations [OF sent(6)] by (simp add: mutation_methods_def)
  moreover have "mutation_methods h' = mutation_methods h2 \<or> mutation_methods h' = mutation_methods h2 @ [MethodPatch]
      \<or> mutation_methods h' = mutation_methods h2 @ [MethodPatch, MethodDelete]"
    using DeleteEndpoint_trace [OF sent(7) refl refl] by (auto dest!: emits_mutation_methods)
  moreover have "\<forall>k \<in> set checks. \<forall>ref. cp_EndpointIDRef (ck_ForProvider k) = Some ref \<longrightarrow> ref_Name ref \<noteq> om_Name (mg_Meta cr)"
    using sent(5) by (auto simp: refers_to_endpoint_iff)
  ultimately show ?thesis using sent(2-4) by auto
qed

definition bound_endpoint_cr :: endpoint_cr where
  "bound_endpoint_cr = set_endpoint_ID ''ep1'' (update_annotations
     (\<lambda>m. m(externalNameKey \<mapsto> ''ep1'', endpoint_externalIDBoundAnnotation \<mapsto> ''true'')) demo_endpoint_cr)"

lemma bound_endpoint_simps [simp]:
  "GetExternalName xp_plain bound_endpoint_cr = ''ep1''" "eo_ID (ec_AtProvider bound_endpoint_cr) = ''ep1''"
  "map_get (annotations bound_endpoint_cr) endpoint_externalIDBoundAnnotation = ''true''"
  "map_get (annotations bound_endpoint_cr) endpoint_ambiguousCreateNameAnnotation = []"
  "\<not> xp_ExternalCreateIncomplete xp_plain (annotations bound_endpoint_cr)"
  using endpoint_keys.key_neqs
  by (simp_all add: bound_endpoint_cr_def xp_plain_def demo_endpoint_cr_def demo_meta_def annotations_def update_annotations_def set_endpoint_ID_def
      GetExternalName_def externalNameKey_def endpoint_externalIDBoundAnnotation_def endpoint_ambiguousCreateNameAnnotation_def)

lemma GetEndpoint_serving:
  "GetEndpoint serving_env demo_client ''ep1'' h =
     (Inr demo_endpoint, h @ [EvHTTP (request demo_client MethodGet ''/endpoints/ep1?includeTemplate=true&includeWorkers=true'' None)])"
proof -
  have v: "valid_id ''ep1''" unfolding ValidateRunPodID_None [symmetric] by code_simp
  show ?thesis
    using serving_decode
    by (auto simp: v GetEndpoint_def doJSON_def maxAttempts_Suc Let_def serving_env_def scripted_env_def plain_response_def
        handle_response_complete handle_body_def retryable_def) (simp_all add: demo_endpoint_def)
qed

theorem endpoint_Delete_order_witness:
  "\<exists>cr' h'. endpoint_Delete serving_env xp_plain demo_client bound_endpoint_cr [] = (None, cr', h')
     \<and> mutation_methods h' = [MethodPatch, MethodDelete] \<and> valid_id (GetExternalName xp_plain bound_endpoint_cr)"
proof -
  obtain err cr' h' where d: "endpoint_Delete serving_env xp_plain demo_client bound_endpoint_cr [] = (err, cr', h')"
    by (cases "endpoint_Delete serving_env xp_plain demo_client bound_endpoint_cr []") auto
  have "case endpoint_Delete serving_env xp_plain demo_client bound_endpoint_cr [] of
      (err, cr', h') \<Rightarrow> mutation_methods h' = [MethodPatch, MethodDelete] \<and> err = None"
    by code_simp
  then have v: "mutation_methods (snd (snd (endpoint_Delete serving_env xp_plain demo_client bound_endpoint_cr []))) = [MethodPatch, MethodDelete]"
    "fst (endpoint_Delete serving_env xp_plain demo_client bound_endpoint_cr []) = None"
    using d by simp_all
  with endpoint_Delete_order [OF d] d show ?thesis by (auto simp: mutation_methods_def)
qed

text \<open>
  C28: a bound, terminating Endpoint that still exists cannot be deleted. The connector hands a
  terminating object the empty Template binding, so that its deletion does not depend on the Template;
  but for an object with neither an incomplete creation nor the marker of an ambiguous one, for which
  Observe would take the branch of the recovery instead, it compares the Endpoint it reads with that
  empty binding and fails whenever RunPod still has the Endpoint. The runtime calls Delete only after an
  observation without an error, so the external Endpoint is left running.
\<close>

theorem endpoint_terminating_blocked:
  assumes "deleting cr" "endpoint_Connect E x cr h = (Inr (c, tb), h1)"
    and "\<not> xp_ExternalCreateIncomplete x (annotations cr)" "map_get (annotations cr) endpoint_ambiguousCreateNameAnnotation = []"
    and "GetEndpoint E c (GetExternalName x cr) h1 = (Inr got, h2)"
  shows "\<exists>err cr' h'. endpoint_Observe E x c tb cr h1 = (Inl err, cr', h')"
proof -
  have tb: "tb = empty_binding"
    using assms(1,2) by (auto simp: endpoint_Connect_def resolveTemplate_def split: sum.splits prod.splits)
  from endpoints.get_ok [OF assms(5)] have wf: "re_ID got = GetExternalName x cr" "endpoint_wf got" by auto
  then have "\<not> endpointTemplateMatches got empty_binding"
    by (auto simp: endpoint_wf_def endpointTemplateMatches_def empty_binding_def)
  then have g: "\<exists>err cr' h'. endpoint_Observe_got E x empty_binding cr1 got h2 = (Inl err, cr', h')" for cr1
    by (auto simp: endpoint_Observe_got_def split: sum.splits option.splits)
  have "GetExternalName x cr \<noteq> []" using wf endpoint_wf_id [of got] by auto
  with assms(1,3-5) g have "\<exists>err cr' h'. endpoint_Observe_bound E x c empty_binding cr h1 = (Inl err, cr', h')"
    by (auto simp: endpoint_Observe_bound_def Let_def split: sum.splits)
  then show ?thesis using assms(1,3,4) tb by (simp add: endpoint_Observe_def)
qed

lemma doJSON_cong:
  assumes "env_NewRequest E = env_NewRequest E'" "env_Do E = env_Do E'" "env_Sleep E = env_Sleep E'"
  shows "doJSON E c m p i dec out h = doJSON E' c m p i dec out h"
proof -
  have "doJSON_loop E c m p i dec out n h = doJSON_loop E' c m p i dec out n h" for n
    by (induction n arbitrary: h) (simp_all add: assms Let_def split: option.split outcome.split)
  then show ?thesis by (simp add: doJSON_def)
qed

definition terminating_endpoint_cr :: endpoint_cr where
  "terminating_endpoint_cr = bound_endpoint_cr
     \<lparr>mg_Meta := (mg_Meta bound_endpoint_cr)\<lparr>om_DeletionTimestamp := Some 5\<rparr>,
      mg_ProviderConfigReference := Some \<lparr>pcr_Kind = ''ProviderConfig'', pcr_Name = ''default''\<rparr>\<rparr>"

definition terminating_env :: env where
  "terminating_env = serving_env
     \<lparr>env_GetProviderConfig := (\<lambda>_ _ _. Inr \<lparr>pc_Source = ''Secret'', pc_SecretRef = Some \<lparr>sr_Namespace = ''team'', sr_Name = ''s'', sr_Key = ''key''\<rparr>\<rparr>),
      env_GetSecret := (\<lambda>_ _ _. Inr (demo_secret\<lparr>sec_Data := [''key'' \<mapsto> ''key'']\<rparr>))\<rparr>"

theorem endpoint_terminating_blocked_witness:
  "\<exists>h1 err cr' h'. endpoint_Connect terminating_env xp_plain terminating_endpoint_cr [] = (Inr (demo_client, empty_binding), h1)
     \<and> endpoint_Observe terminating_env xp_plain demo_client empty_binding terminating_endpoint_cr h1 = (Inl err, cr', h')"
proof -
  have a: "annotations terminating_endpoint_cr = annotations bound_endpoint_cr"
    by (simp add: terminating_endpoint_cr_def annotations_def)
  have n: "GetExternalName xp_plain terminating_endpoint_cr = ''ep1''"
    using a bound_endpoint_simps(1) by (simp add: GetExternalName_def)
  have d: "deleting terminating_endpoint_cr" by (simp add: deleting_def terminating_endpoint_cr_def IsZero_def)
  have "TrimSpace ''key'' = ''key''" by code_simp
  then have c: "\<exists>h1. endpoint_Connect terminating_env xp_plain terminating_endpoint_cr [] = (Inr (demo_client, empty_binding), h1)"
    using d by (simp add: endpoint_Connect_def resolveTemplate_def Connect_def usage_Track_def terminating_env_def serving_env_def scripted_env_def
        terminating_endpoint_cr_def bound_endpoint_cr_def demo_endpoint_cr_def demo_meta_def set_endpoint_ID_def update_annotations_def
        providerCredentials_def get_ProviderConfig_def loadCredential_def get_Secret_def RequirePurpose_def demo_secret_def New_def
        ContainsAny_def Let_def demo_client_def DefaultBaseURL_def)
  then obtain h1 where c: "endpoint_Connect terminating_env xp_plain terminating_endpoint_cr [] = (Inr (demo_client, empty_binding), h1)" ..
  have "doJSON terminating_env k m p i dec out h = doJSON serving_env k m p i dec out h" for k m p i and dec :: "rp_endpoint decoder option" and out h
    by (rule doJSON_cong) (simp_all add: terminating_env_def)
  then have "GetEndpoint terminating_env demo_client ''ep1'' h1 = GetEndpoint serving_env demo_client ''ep1'' h1"
    by (simp add: GetEndpoint_def split: sum.split)
  then obtain h2 where g: "GetEndpoint terminating_env demo_client (GetExternalName xp_plain terminating_endpoint_cr) h1 = (Inr demo_endpoint, h2)"
    using GetEndpoint_serving n by auto
  from endpoint_terminating_blocked [OF d c _ _ g] a c show ?thesis by auto
qed

lemma endpointInput_FlashBoot: "endpointInput cr tid = Inr i \<Longrightarrow> ei_FlashBoot i = False"
  by (auto simp: endpointInput_def Let_def split: sum.splits)

lemma sint_int32_of_int: "- (2 ^ 31) \<le> i \<Longrightarrow> i < 2 ^ 31 \<Longrightarrow> sint (word_of_int i :: int32) = i"
  by (simp add: signed_of_int signed_take_bit_int_eq_self)

lemma sint_int32_of_nat: "n < 2 ^ 31 \<Longrightarrow> sint (word_of_nat n :: int32) = int n"
  using sint_int32_of_int [of "int n"] by (simp add: zless_nat_eq_int_zless [symmetric])

lemma flashBootDisabled_write: "flashBootDisabled_of prev got v True now \<longleftrightarrow> re_FlashBoot got \<noteq> Some True"
  by (cases "re_FlashBoot got") (simp_all add: flashBootDisabled_of_def)

lemma endpoint_setObservation_fields:
  assumes "endpoint_setObservation E cr1 got w tb a h1 = (p, cr2, h2)" "endpoint_wf got"
  shows "eo_ID (ec_AtProvider cr2) = re_ID got \<and> eo_Version (ec_AtProvider cr2) = re_Version got
      \<and> eo_FlashBootDisabled (ec_AtProvider cr2) = fst p
      \<and> eo_FlashBootEvidenceVersion (ec_AtProvider cr2) = (if fst p then re_Version got else None)
      \<and> eo_WorkerSecurityValidated (ec_AtProvider cr2) = a
      \<and> (snd p \<longrightarrow> eo_TemplateResourceUID (ec_AtProvider cr2) = tb_uid tb \<and> eo_TemplateResourceGeneration (ec_AtProvider cr2) = tb_generation tb
           \<and> eo_TemplateImageDigest (ec_AtProvider cr2) = tb_image tb)
      \<and> (w \<and> re_FlashBoot got \<noteq> Some True \<longrightarrow> fst p)"
  using assms by (auto simp: endpoint_setObservation_def time_Now_def observe_endpoint_def Let_def flashBootDisabled_write endpoint_wf_def
      split: option.splits)

lemma endpointInput_set_ID: "endpointInput (set_endpoint_ID rid cr) tid = endpointInput cr tid"
  by (simp add: endpointInput_def endpoint_effectiveName_def)

lemma endpoint_Observe_pending_ready:
  assumes "endpoint_Observe_pending E x c tb cr n h = (Inr ob, cr', h')" "xo_ResourceUpToDate ob"
  obtains got i u h1 h2 where "FindEndpointByName E c n h = (Inr got, h1)" "endpoint_Observe_recover E x c tb cr n got h1 = (Inr ob, cr', h')"
    "endpointInput cr (tb_id tb) = Inr i" "UpdateEndpoint E c (re_ID got) (i\<lparr>ei_Name := n\<rparr>) h1 = (Inr u, h2)"
    "endpoint_proven (i\<lparr>ei_Name := n\<rparr>) u tb cr" "i\<lparr>ei_Name := n\<rparr> = i" "ei_FlashBoot i = False"
proof -
  obtain f h1 where f: "FindEndpointByName E c n h = (f, h1)" by fastforce
  from assms f obtain got where g: "endpoint_effectiveName cr = Inr n" "endpoint_Observe_recover E x c tb cr n got h1 = (Inr ob, cr', h')" "f = Inr got"
    by (auto simp: endpoint_Observe_pending_def split: sum.splits if_splits prod.splits)
  then obtain i u h2 where u: "endpointInput cr (tb_id tb) = Inr i" "UpdateEndpoint E c (re_ID got) (i\<lparr>ei_Name := n\<rparr>) h1 = (Inr u, h2)"
    "endpoint_proven (i\<lparr>ei_Name := n\<rparr>) u tb cr"
    by (auto simp: endpoint_Observe_recover_def Let_def split: sum.splits if_splits prod.splits)
  have "i\<lparr>ei_Name := n\<rparr> = i" "ei_FlashBoot i = False"
    using endpointInput_name [OF u(1)] g(1) endpointInput_FlashBoot [OF u(1)] by auto
  with that g u f show thesis by blast
qed

text \<open>The evidence behind an up-to-date observation, in both branches of Observe.\<close>

definition observed_ready :: "env \<Rightarrow> xp \<Rightarrow> client \<Rightarrow> template_binding \<Rightarrow> endpoint_cr \<Rightarrow> trace \<Rightarrow> external_observation \<Rightarrow> endpoint_cr \<Rightarrow> bool" where
  "observed_ready E x c tb cr h ob cr' \<longleftrightarrow> mg_ObservedGeneration cr' = om_Generation (mg_Meta cr) \<and>
    (\<exists>desired got. endpointInput cr (tb_id tb) = Inr desired \<and> endpoint_wf got
       \<and> (if xo_ResourceLateInitialized ob
          then \<exists>found h1 h2. FindEndpointByName E c (ei_Name desired) h = (Inr found, h1)
                 \<and> UpdateEndpoint E c (re_ID found) desired h1 = (Inr got, h2)
          else \<exists>h1. GetEndpoint E c (GetExternalName x cr) h = (Inr got, h1))
       \<and> endpointMatchesInput desired got \<and> endpointTemplateMatches got tb
       \<and> endpointWorkersMatch desired got tb (ep_MaxWorkerCostMilliUSDPerHour (ec_ForProvider cr))
       \<and> GetExternalName x cr' = re_ID got \<and> eo_ID (ec_AtProvider cr') = re_ID got \<and> eo_Version (ec_AtProvider cr') = re_Version got
       \<and> eo_FlashBootDisabled (ec_AtProvider cr') \<and> eo_FlashBootEvidenceVersion (ec_AtProvider cr') = re_Version got
       \<and> eo_WorkerSecurityValidated (ec_AtProvider cr') = (elems (re_Workers got) \<noteq> [])
       \<and> (xo_ResourceLateInitialized ob \<or>
            eo_TemplateResourceUID (ec_AtProvider cr') = tb_uid tb \<and> eo_TemplateResourceGeneration (ec_AtProvider cr') = tb_generation tb
            \<and> eo_TemplateImageDigest (ec_AtProvider cr') = tb_image tb))"

lemma endpoint_Observe_pending_evidence:
  assumes "endpoint_Observe_pending E x c tb cr n h = (Inr ob, cr', h')" "xp_laws x" "xo_ResourceUpToDate ob"
  shows "observed_ready E x c tb cr h ob cr'"
proof -
  from endpoint_Observe_pending_ready [OF assms(1,3)] obtain got i u h1 h2
    where f: "FindEndpointByName E c n h = (Inr got, h1)" and g: "endpoint_Observe_recover E x c tb cr n got h1 = (Inr ob, cr', h')"
      and u: "endpointInput cr (tb_id tb) = Inr i" "UpdateEndpoint E c (re_ID got) (i\<lparr>ei_Name := n\<rparr>) h1 = (Inr u, h2)"
        "endpoint_proven (i\<lparr>ei_Name := n\<rparr>) u tb cr"
      and i: "i\<lparr>ei_Name := n\<rparr> = i" "ei_FlashBoot i = False" .
  have wf: "endpoint_wf u" using endpoints.update_ok [OF u(2)] by simp
  obtain cr1 h3 where b: "endpoint_bindExternalID E x cr (re_ID u) h2 = (cr1, h3)" by fastforce
  obtain p cr2 h4 where o: "endpoint_setObservation E cr1 u True tb (length (elems (re_Workers u)) > 0) h3 = (p, cr2, h4)"
    by (metis prod_cases3)
  have e: "ob = observation True True True" "cr' = SetConditions x [Available] (cr2\<lparr>mg_ObservedGeneration := om_Generation (mg_Meta cr2)\<rparr>)"
    using g u b o by (auto simp: endpoint_Observe_recover_def Let_def split: if_splits)
  have m: "endpointMatchesInput i u" "endpointTemplateMatches u tb"
    "endpointWorkersMatch i u tb (ep_MaxWorkerCostMilliUSDPerHour (ec_ForProvider cr))"
    using u(3) i(1) by (simp_all add: endpoint_proven_def)
  have "re_FlashBoot u \<noteq> Some True"
    using m(1) i(2) by (auto simp: endpointMatchesInput_def)
  moreover have "ei_Name i = n" using arg_cong [OF i(1), of ei_Name] by simp
  with f u(2) i(1) have "FindEndpointByName E c (ei_Name i) h = (Inr got, h1)" "UpdateEndpoint E c (re_ID got) i h1 = (Inr u, h2)" by simp_all
  ultimately show ?thesis
    using endpoint_setObservation_fields [OF o wf] endpoint_bind_observe [OF b o] e m wf u(1) assms(2)
    unfolding observed_ready_def by (intro conjI exI [of _ i] exI [of _ u]) auto
qed

lemma endpoint_Observe_bound_evidence:
  assumes "endpoint_Observe_bound E x c tb cr h = (Inr ob, cr', h')" "xo_ResourceUpToDate ob"
  shows "observed_ready E x c tb cr h ob cr'"
proof -
  let ?id = "GetExternalName x cr"
  from assms obtain got h1 cr0 where g: "GetEndpoint E c ?id h = (Inr got, h1)"
    "endpoint_Observe_got E x tb cr0 got h1 = (Inr ob, cr', h')" "cr0 = cr \<or> cr0 = set_endpoint_ID ?id cr"
    by (auto simp: endpoint_Observe_bound_def Let_def split: if_splits sum.splits prod.splits)
  from endpoints.get_ok [OF g(1)] have wf: "re_ID got = ?id" "endpoint_wf got" by auto
  have c0: "endpointInput cr0 (tb_id tb) = endpointInput cr (tb_id tb)" "ec_ForProvider cr0 = ec_ForProvider cr" "GetExternalName x cr0 = ?id"
    "mg_Meta cr0 = mg_Meta cr"
    using g(3) endpointInput_set_ID by auto
  obtain p cr1 h2 where o: "endpoint_setObservation E cr0 got False tb (length (elems (re_Workers got)) > 0) h1 = (p, cr1, h2)"
    by (metis prod_cases3)
  from g(2) assms(2) o obtain i where i: "endpointInput cr0 (tb_id tb) = Inr i" "endpointTemplateMatches got tb"
    "endpointWorkersMatch i got tb (ep_MaxWorkerCostMilliUSDPerHour (ec_ForProvider cr0))" "endpointMatchesInput i got" "fst p" "snd p"
    "cr' = SetConditions x [Available] (cr1\<lparr>mg_ObservedGeneration := om_Generation (mg_Meta cr1)\<rparr>)" "\<not> xo_ResourceLateInitialized ob"
    by (auto simp: endpoint_Observe_got_def split: sum.splits option.splits if_splits prod.splits)
  from g(1) endpoint_setObservation_fields [OF o wf(2)] endpoint_setObservation_frame [OF o] i c0 wf show ?thesis
    unfolding observed_ready_def by (intro conjI exI [of _ i] exI [of _ got]) auto
qed

text \<open>
  C4: what a Ready Endpoint rests on. When Observe reports an Endpoint of a live object as up to date,
  it has recorded the generation it judged, and the Endpoint that its first call, the GET under the
  external name, has returned (or, in the recovery of an ambiguous creation, the Endpoint that the
  PATCH of the one found under the object's own name has returned) matches the specification, whose bound Template matches the resolved Template and all of whose workers
  satisfy the bounded contract; the status and the external name hold its identifier, the status
  holds its rollout version, FlashBoot is recorded as disabled for exactly that version, and the
  worker evidence is recorded exactly when there is a worker. For an Endpoint that is not recovered
  from an ambiguous creation the recorded Template revision is the resolved one.
\<close>

theorem endpoint_Observe_ready:
  assumes "endpoint_Observe E x c tb cr h = (Inr ob, cr', h')" "xp_laws x" "xo_ResourceUpToDate ob"
  shows "mg_ObservedGeneration cr' = om_Generation (mg_Meta cr) \<and>
    (\<exists>desired got. endpointInput cr (tb_id tb) = Inr desired \<and> endpoint_wf got
       \<and> (if xo_ResourceLateInitialized ob
          then \<exists>found h1 h2. FindEndpointByName E c (ei_Name desired) h = (Inr found, h1)
                 \<and> UpdateEndpoint E c (re_ID found) desired h1 = (Inr got, h2)
          else \<exists>h1. GetEndpoint E c (GetExternalName x cr) h = (Inr got, h1))
       \<and> endpointMatchesInput desired got \<and> endpointTemplateMatches got tb
       \<and> endpointWorkersMatch desired got tb (ep_MaxWorkerCostMilliUSDPerHour (ec_ForProvider cr))
       \<and> GetExternalName x cr' = re_ID got \<and> eo_ID (ec_AtProvider cr') = re_ID got \<and> eo_Version (ec_AtProvider cr') = re_Version got
       \<and> eo_FlashBootDisabled (ec_AtProvider cr') \<and> eo_FlashBootEvidenceVersion (ec_AtProvider cr') = re_Version got
       \<and> eo_WorkerSecurityValidated (ec_AtProvider cr') = (elems (re_Workers got) \<noteq> [])
       \<and> (xo_ResourceLateInitialized ob \<or>
            eo_TemplateResourceUID (ec_AtProvider cr') = tb_uid tb \<and> eo_TemplateResourceGeneration (ec_AtProvider cr') = tb_generation tb
            \<and> eo_TemplateImageDigest (ec_AtProvider cr') = tb_image tb))"
proof -
  consider n where "endpoint_Observe_pending E x c tb cr n h = (Inr ob, cr', h')"
    | "endpoint_Observe_bound E x c tb cr h = (Inr ob, cr', h')"
    using assms(1) by (auto simp: endpoint_Observe_def split: if_splits sum.splits)
  then have "observed_ready E x c tb cr h ob cr'"
    by cases (use assms(2,3) endpoint_Observe_pending_evidence endpoint_Observe_bound_evidence in blast)+
  then show ?thesis by (simp only: observed_ready_def)
qed

text \<open>An Endpoint that was created with the demo binding, and the peer that reports it.\<close>

definition ready_endpoint_cr :: endpoint_cr where
  "ready_endpoint_cr = bound_endpoint_cr\<lparr>ec_AtProvider := (ec_AtProvider bound_endpoint_cr)
     \<lparr>eo_TemplateResourceUID := ''u1'', eo_TemplateResourceGeneration := 1, eo_TemplateImageDigest := ''img@sha256:aa''\<rparr>\<rparr>"

definition ready_endpoint_text :: string where
  "ready_endpoint_text = unquoted
     ''{~id~:~ep1~,~name~:~demo-xp-a1-b2~,~templateId~:~t1~,~computeType~:~GPU~,~gpuCount~:1,~gpuTypeIds~:[~NVIDIA L4~],~allowedCudaVersions~:[],~dataCenterIds~:~EU-RO-1~,~workersMin~:1,~workersMax~:1,~idleTimeout~:5,~scalerType~:~QUEUE_DELAY~,~scalerValue~:4,~executionTimeoutMs~:100,~flashboot~:false,~networkVolumeId~:null,~networkVolumeIds~:[],~minCudaVersion~:~~,~env~:{},~version~:3,~workers~:[],~template~:{~id~:~t1~,~name~:~tpl~,~category~:~NVIDIA~,~imageName~:~img@sha256:aa~,~isPublic~:false,~isRunpod~:false,~isServerless~:true,~containerDiskInGb~:50,~dockerEntrypoint~:[],~dockerStartCmd~:[],~ports~:[~8000/http~],~readme~:~~,~volumeInGb~:0,~volumeMountPath~:~~,~env~:{},~containerRegistryAuthId~:null}}''"

definition ready_template_json :: json where
  "ready_template_json = JObj
     [(''id'', JStr ''t1''), (''name'', JStr ''tpl''), (''category'', JStr ''NVIDIA''), (''imageName'', JStr ''img@sha256:aa''),
      (''isPublic'', JBool False), (''isRunpod'', JBool False), (''isServerless'', JBool True), (''containerDiskInGb'', JNum ''50''),
      (''dockerEntrypoint'', JArr []), (''dockerStartCmd'', JArr []), (''ports'', JArr [JStr ''8000/http'']), (''readme'', JStr []),
      (''volumeInGb'', JNum ''0''), (''volumeMountPath'', JStr []), (''env'', JObj []), (''containerRegistryAuthId'', JNull)]"

definition ready_endpoint_json :: json where
  "ready_endpoint_json = JObj
     [(''id'', JStr ''ep1''), (''name'', JStr ''demo-xp-a1-b2''), (''templateId'', JStr ''t1''), (''computeType'', JStr ''GPU''),
      (''gpuCount'', JNum ''1''), (''gpuTypeIds'', JArr [JStr ''NVIDIA L4'']), (''allowedCudaVersions'', JArr []),
      (''dataCenterIds'', JStr ''EU-RO-1''), (''workersMin'', JNum ''1''), (''workersMax'', JNum ''1''), (''idleTimeout'', JNum ''5''),
      (''scalerType'', JStr ''QUEUE_DELAY''), (''scalerValue'', JNum ''4''), (''executionTimeoutMs'', JNum ''100''),
      (''flashboot'', JBool False), (''networkVolumeId'', JNull), (''networkVolumeIds'', JArr []), (''minCudaVersion'', JStr []),
      (''env'', JObj []), (''version'', JNum ''3''), (''workers'', JArr []), (''template'', ready_template_json)]"

definition ready_template :: rp_template where
  "ready_template = zero_template\<lparr>rt_ID := ''t1'', rt_Name := ''tpl'', rt_Category := ''NVIDIA'', rt_ImageName := ''img@sha256:aa'',
     rt_IsPublic := Some False, rt_IsRunpod := Some False, rt_IsServerless := Some True, rt_ContainerDiskInGB := Some 50,
     rt_DockerEntrypoint := Some [], rt_DockerStartCmd := Some [], rt_Ports := Some [''8000/http''],
     rt_Readme := \<lparr>ns_Present = True, ns_Null = False, ns_Value = []\<rparr>, rt_VolumeInGB := Some 0,
     rt_VolumeMountPath := \<lparr>ns_Present = True, ns_Null = False, ns_Value = []\<rparr>, rt_Env := Some [],
     rt_ContainerRegistryAuthID := \<lparr>ns_Present = True, ns_Null = True, ns_Value = []\<rparr>\<rparr>"

definition ready_endpoint :: rp_endpoint where
  "ready_endpoint = zero_endpoint\<lparr>re_ID := ''ep1'', re_Name := ''demo-xp-a1-b2'', re_TemplateID := ''t1'', re_ComputeType := ''GPU'',
     re_GPUCount := 1, re_GPUTypeIDs := Some [''NVIDIA L4''], re_AllowedCUDAVersions := Some [], re_DataCenterIDs := Some [''EU-RO-1''],
     re_WorkersMin := Some 1, re_WorkersMax := Some 1, re_IdleTimeout := 5, re_ScalerType := ''QUEUE_DELAY'', re_ScalerValue := 4,
     re_ExecutionTimeoutMS := 100, re_FlashBoot := Some False, re_NetworkVolumeID := \<lparr>ns_Present = True, ns_Null = True, ns_Value = []\<rparr>,
     re_NetworkVolumeIDs := Some [], re_MinCUDAVersion := \<lparr>ns_Present = True, ns_Null = False, ns_Value = []\<rparr>, re_Env := Some [],
     re_Version := Some 3, re_Workers := Some [], re_Template := Some ready_template\<rparr>"

definition ready_peer :: env where
  "ready_peer = scripted_env (\<lambda>_. plain_response 200 ready_endpoint_text) 1"

lemma ready_parse: "json_parse ready_endpoint_text = Some ready_endpoint_json"
  by code_simp

lemma ready_decode: "Endpoint_UnmarshalJSON ready_endpoint_json zero_endpoint = Inr ready_endpoint"
  by code_simp

lemma ready_wf: "int (length ready_endpoint_text) \<le> maxBodyBytes" "TrimSpace ready_endpoint_text \<noteq> []" "endpoint_wf ready_endpoint"
proof -
  show "int (length ready_endpoint_text) \<le> maxBodyBytes" by (simp add: ready_endpoint_text_def unquoted_def maxBodyBytes_def)
  show "TrimSpace ready_endpoint_text \<noteq> []" by code_simp
  show "endpoint_wf ready_endpoint" unfolding validateEndpointObservation_None [symmetric] by code_simp
qed

lemma GetEndpoint_ready:
  "\<exists>h'. GetEndpoint ready_peer demo_client ''ep1'' h = (Inr ready_endpoint, h')"
proof -
  have v: "valid_id ''ep1''" unfolding ValidateRunPodID_None [symmetric] by code_simp
  show ?thesis
    using ready_parse ready_decode ready_wf
    by (auto simp: v GetEndpoint_def doJSON_def maxAttempts_Suc Let_def ready_peer_def scripted_env_def plain_response_def
        handle_response_complete handle_body_def retryable_def) (simp_all add: ready_endpoint_def)
qed

lemma endpoint_Observe_got_ready:
  "fst (endpoint_Observe_got ready_peer xp_plain demo_binding ready_endpoint_cr ready_endpoint []) = Inr (observation True True False)"
  by code_simp

lemma ready_endpoint_cr_simps:
  "GetExternalName xp_plain ready_endpoint_cr = ''ep1''" "eo_ID (ec_AtProvider ready_endpoint_cr) = ''ep1''"
  "annotations ready_endpoint_cr = annotations bound_endpoint_cr" "deleting ready_endpoint_cr = deleting bound_endpoint_cr"
  by (simp_all add: ready_endpoint_cr_def)

lemma endpoint_Observe_ready_peer:
  "fst (endpoint_Observe ready_peer xp_plain demo_client demo_binding ready_endpoint_cr []) = Inr (observation True True False)"
proof -
  have v: "valid_id ''ep1''" unfolding ValidateRunPodID_None [symmetric] by code_simp
  have "map_get (annotations bound_endpoint_cr) ambiguousAbsenceConfirmedAnnotation = []"
    by code_simp
  moreover have "fst (endpoint_Observe_got ready_peer x tb cr got h) = fst (endpoint_Observe_got ready_peer x tb cr got [])" for x tb cr got h
    by (simp add: endpoint_Observe_got_def endpoint_setObservation_def time_Now_def ready_peer_def scripted_env_def
        split: sum.split option.split)
  with endpoint_Observe_got_ready have "fst (endpoint_Observe_got ready_peer xp_plain demo_binding ready_endpoint_cr ready_endpoint h) =
      Inr (observation True True False)" for h by metis
  ultimately show ?thesis using v GetEndpoint_ready [of "[]"]
    by (auto simp: endpoint_Observe_def endpoint_Observe_bound_def ready_endpoint_cr_simps)
qed

theorem endpoint_Observe_ready_witness:
  "\<exists>cr' h'. endpoint_Observe ready_peer xp_plain demo_client demo_binding ready_endpoint_cr [] = (Inr (observation True True False), cr', h')
     \<and> mg_ObservedGeneration cr' = 1 \<and> eo_FlashBootDisabled (ec_AtProvider cr') \<and> eo_TemplateResourceUID (ec_AtProvider cr') = ''u1''"
proof -
  obtain r cr' h' where o: "endpoint_Observe ready_peer xp_plain demo_client demo_binding ready_endpoint_cr [] = (r, cr', h')"
    by (cases "endpoint_Observe ready_peer xp_plain demo_client demo_binding ready_endpoint_cr []") auto
  with endpoint_Observe_ready_peer have
    r: "endpoint_Observe ready_peer xp_plain demo_client demo_binding ready_endpoint_cr [] = (Inr (observation True True False), cr', h')" by simp
  from endpoint_Observe_ready [OF r xp_laws_plain] r show ?thesis
    by (auto simp: ready_endpoint_cr_def bound_endpoint_cr_def demo_endpoint_cr_def demo_meta_def set_endpoint_ID_def update_annotations_def
        demo_binding_def)
qed

text \<open>
  C40: the cost and the number of workers of a proven Endpoint are bounded. With a cost limit of m
  thousandths of a dollar per hour (from 1 to 10000), each of the four prices of each worker is a
  finite number between zero and m/1000 dollars, up to one rounding of the quotient to a float64; and
  unless the list has two thousand million workers there are at most as many as the specification
  allows.
\<close>

theorem endpointWorkersMatch_bounds:
  assumes "endpointWorkersMatch want got tb m" "0 < sint m" "sint m \<le> 10000" "re_Workers got = Some workers"
  shows "(length workers < 2 ^ 31 \<longrightarrow> int (length workers) \<le> sint (ei_WorkersMax want))
    \<and> (\<forall>w \<in> set workers. \<exists>mc. ew_Machine w = Some mc \<and>
         (\<forall>price \<in> {ew_CostPerHr w, ew_AdjustedCostPerHr w, wm_CostPerHr mc, wm_CurrentPricePerGPU mc}.
            \<exists>q. nd_Value price = Fin q \<and> 0 \<le> q \<and> q \<le> of_int (sint m) / 1000 * (1 + 1 / 2 ^ 53)))"
proof -
  let ?max = "float_div (Fin (of_int (sint m))) (Fin 1000)" and ?count = "word_of_nat (length workers) :: int32"
  from assms(1,4) have n: "sint ?count \<le> sint (ei_WorkersMax want)" and ws: "list_all (workerMatches want got tb ?max) workers"
    by (auto simp: endpointWorkersMatch_def Let_def split: option.splits if_splits)
  have cost: "\<exists>q. nd_Value price = Fin q \<and> 0 \<le> q \<and> q \<le> of_int (sint m) / 1000 * (1 + 1 / 2 ^ 53)" if "boundedCost price ?max" for price
  proof -
    from that obtain q where q: "nd_Value price = Fin q" "0 \<le> q" "float_le (Fin q) ?max"
      by (cases "nd_Value price") (auto simp: boundedCost_def IsNaN_def IsInf_def)
    with float_le_thousandths [OF assms(2,3) q(3)] show ?thesis by auto
  qed
  have "\<exists>mc. ew_Machine w = Some mc \<and> (\<forall>price \<in> {ew_CostPerHr w, ew_AdjustedCostPerHr w, wm_CostPerHr mc, wm_CurrentPricePerGPU mc}.
      boundedCost price ?max)" if "workerMatches want got tb ?max w" for w
    using that by (cases "ew_Machine w") (simp_all add: workerMatches_def)
  moreover have "int (length workers) \<le> sint (ei_WorkersMax want)" if "length workers < 2 ^ 31"
  proof -
    from sint_int32_of_nat [OF that] n show ?thesis by simp
  qed
  moreover from ws have "\<forall>w \<in> set workers. workerMatches want got tb ?max w"
    by (simp only: list_all_iff)
  ultimately show ?thesis by (meson cost)
qed

definition demo_worker :: endpoint_worker where
  "demo_worker = zero_worker
     \<lparr>ew_ID := \<lparr>ns_Present = True, ns_Null = False, ns_Value = ''w1''\<rparr>, ew_EndpointID := \<lparr>ns_Present = True, ns_Null = True, ns_Value = []\<rparr>,
      ew_TemplateID := \<lparr>ns_Present = True, ns_Null = True, ns_Value = []\<rparr>,
      ew_AdjustedCostPerHr := \<lparr>nd_Present = True, nd_Null = False, nd_Value = Fin 1\<rparr>,
      ew_CostPerHr := \<lparr>nd_Present = True, nd_Null = False, nd_Value = Fin 1\<rparr>,
      ew_DesiredStatus := \<lparr>ns_Present = True, ns_Null = False, ns_Value = ''RUNNING''\<rparr>, ew_Interruptible := Some False,
      ew_PublicIP := \<lparr>ns_Present = True, ns_Null = True, ns_Value = []\<rparr>, ew_PortMappings := Some (JObj []), ew_SavingsPlans := Some JNull,
      ew_SLSVersion := Some 3, ew_Image := \<lparr>ns_Present = True, ns_Null = False, ns_Value = ''img@sha256:aa''\<rparr>,
      ew_ContainerDiskInGB := Some 50, ew_ContainerRegistryAuthID := \<lparr>ns_Present = True, ns_Null = True, ns_Value = []\<rparr>,
      ew_DockerEntrypoint := Some [], ew_DockerStartCmd := Some [], ew_Ports := Some [''8000/http''], ew_Env := Some [],
      ew_VolumeInGB := Some 0, ew_VolumeMountPath := \<lparr>ns_Present = True, ns_Null = True, ns_Value = []\<rparr>, ew_VolumeEncrypted := Some False,
      ew_NetworkVolume := Some JNull, ew_GPU := Some \<lparr>wg_Count = Some 1\<rparr>,
      ew_Machine := Some \<lparr>wm_GPUTypeID = Some ''NVIDIA L4'', wm_DataCenterID = Some ''EU-RO-1'', wm_SecureCloud = Some True,
        wm_CostPerHr = \<lparr>nd_Present = True, nd_Null = False, nd_Value = Fin 2\<rparr>,
        wm_CurrentPricePerGPU = \<lparr>nd_Present = True, nd_Null = False, nd_Value = Fin 1\<rparr>\<rparr>,
      ew_Locked := Some False\<rparr>"

theorem endpointWorkersMatch_bounds_witness:
  "endpointWorkersMatch demo_endpoint_input (demo_endpoint\<lparr>re_Workers := Some [demo_worker]\<rparr>) demo_binding 2000
     \<and> (\<exists>mc. ew_Machine demo_worker = Some mc \<and> (\<exists>q. nd_Value (wm_CostPerHr mc) = Fin q \<and> 0 \<le> q \<and> q \<le> 2 * (1 + 1 / 2 ^ 53)))"
proof -
  have m: "endpointWorkersMatch demo_endpoint_input (demo_endpoint\<lparr>re_Workers := Some [demo_worker]\<rparr>) demo_binding 2000" by code_simp
  from endpointWorkersMatch_bounds [OF m, of "[demo_worker]"] m show ?thesis by auto
qed

end
