(* ===== verification/Janitor.thy ===== *)
theory Janitor
  imports EndpointController
begin

text \<open>
  \<open>internal/controller/janitor/janitor.go\<close>: the two reconcilers that enforce the lifetimes. A
  reconciliation returns the delay after which it is to run again (0: not requested) or an error,
  and appends what it does to the Kubernetes API to the trace. The cached client and the direct
  reader are both the environment's: a stale cache is one of its behaviours. The theorems give the
  order of the cleanup: routes first, then the Endpoint, then the Template.
\<close>

section \<open>Constants and helpers\<close>

definition cleanupPoll :: duration where
  "cleanupPoll = 2 * Second"

definition lifetimeFinalizer :: string where
  "lifetimeFinalizer = ''janitor.runpod.crossplane.io/lifetime''"

definition templateReapAnnotation :: string where
  "templateReapAnnotation = ''janitor.runpod.crossplane.io/delete-when-unreferenced''"

fun contains :: "string list \<Rightarrow> string \<Rightarrow> bool" where
  "contains [] target = False"
| "contains (v # vs) target = (if v = target then True else contains vs target)"

fun remove :: "string list \<Rightarrow> string \<Rightarrow> string list" where
  "remove [] target = []"
| "remove (v # vs) target = (if v = target then vs else v # remove vs target)"

definition shouldDeleteTemplate :: "bool ptr \<Rightarrow> bool" where
  "shouldDeleteTemplate v \<longleftrightarrow> v = None \<or> the v"

definition set_finalizers :: "string list \<Rightarrow> endpoint_cr \<Rightarrow> endpoint_cr" where
  "set_finalizers fs ep = ep\<lparr>mg_Meta := (mg_Meta ep)\<lparr>om_Finalizers := fs\<rparr>\<rparr>"

text \<open>A write whose not-found error is ignored.\<close>

definition kube_Write_ignoring_NotFound :: "env \<Rightarrow> event \<Rightarrow> trace \<Rightarrow> error ptr \<times> trace" where
  "kube_Write_ignoring_NotFound E ev h =
     (case kube_Write E ev h of
        (None, h1) \<Rightarrow> (None, h1)
      | (Some err, h1) \<Rightarrow> (if IsNotFound err then None else Some err, h1))"

section \<open>The lifetime reconciler\<close>

definition check_refers :: "string \<Rightarrow> endpoint_check \<Rightarrow> bool" where
  "check_refers name k \<longleftrightarrow> (case cp_EndpointIDRef (ck_ForProvider k) of None \<Rightarrow> False | Some ref \<Rightarrow> ref_Name ref = name)"

fun deleteChecks_loop :: "env \<Rightarrow> string \<Rightarrow> endpoint_check list \<Rightarrow> bool \<Rightarrow> trace \<Rightarrow> bool result \<times> trace" where
  "deleteChecks_loop E name [] found h = (Inr found, h)"
| "deleteChecks_loop E name (k # ks) found h =
     (if check_refers name k
      then (case kube_Write_ignoring_NotFound E (EvDelete KEndpointCheck (om_Namespace (ck_Meta k)) (om_Name (ck_Meta k))) h of
              (Some err, h1) \<Rightarrow> (Inl err, h1)
            | (None, h1) \<Rightarrow> deleteChecks_loop E name ks True h1)
      else deleteChecks_loop E name ks found h)"

definition deleteChecks :: "env \<Rightarrow> endpoint_cr \<Rightarrow> trace \<Rightarrow> bool result \<times> trace" where
  "deleteChecks E ep h =
     (case list_EndpointChecks E (om_Namespace (mg_Meta ep)) h of
        (Inl err, h1) \<Rightarrow> (Inl err, h1)
      | (Inr checks, h1) \<Rightarrow> deleteChecks_loop E (om_Name (mg_Meta ep)) checks False h1)"

definition reap_marker :: "endpoint_cr \<Rightarrow> string" where
  "reap_marker ep =
     (if om_UID (mg_Meta ep) = [] then om_Namespace (mg_Meta ep) @ ''/'' @ om_Name (mg_Meta ep) else om_UID (mg_Meta ep))"

definition markTemplateForReaping :: "env \<Rightarrow> endpoint_cr \<Rightarrow> reference \<Rightarrow> trace \<Rightarrow> error ptr \<times> trace" where
  "markTemplateForReaping E ep ref h =
     (case get_Template E (om_Namespace (mg_Meta ep)) (ref_Name ref) h of
        (Inl err, h1) \<Rightarrow> (if IsNotFound err then None else Some err, h1)
      | (Inr template, h1) \<Rightarrow>
          if annotations template templateReapAnnotation \<noteq> None then (None, h1)
          else kube_Write E (EvUpdateTemplate (update_annotations (\<lambda>m. m(templateReapAnnotation \<mapsto> reap_marker ep)) template)) h1)"

text \<open>The last part of Reconcile: delete the Endpoint, or release it once it is terminating.\<close>

definition janitor_release :: "env \<Rightarrow> endpoint_cr \<Rightarrow> trace \<Rightarrow> duration result \<times> trace" where
  "janitor_release E ep h =
     (if \<not> deleting ep then
        (case kube_Write_ignoring_NotFound E (EvDelete KEndpoint (om_Namespace (mg_Meta ep)) (om_Name (mg_Meta ep))) h of
           (Some err, h1) \<Rightarrow> (Inl err, h1)
         | (None, h1) \<Rightarrow> (Inr cleanupPoll, h1))
      else if contains (om_Finalizers (mg_Meta ep)) lifetimeFinalizer then
        (case kube_Write_ignoring_NotFound E
                (EvUpdateEndpoint (set_finalizers (remove (om_Finalizers (mg_Meta ep)) lifetimeFinalizer) ep)) h of
           (Some err, h1) \<Rightarrow> (Inl err, h1)
         | (None, h1) \<Rightarrow> (Inr 0, h1))
      else (Inr 0, h))"

definition janitor_cleanup :: "env \<Rightarrow> endpoint_cr \<Rightarrow> bool \<Rightarrow> trace \<Rightarrow> duration result \<times> trace" where
  "janitor_cleanup E ep expired h =
     (case deleteChecks E ep h of
        (Inl err, h1) \<Rightarrow> (Inl err, h1)
      | (Inr checksRemain, h1) \<Rightarrow>
          if checksRemain then (Inr cleanupPoll, h1)
          else (case (if expired \<and> shouldDeleteTemplate (ep_DeleteReferencedTemplateOnExpiry (ec_ForProvider ep))
                      then ep_TemplateIDRef (ec_ForProvider ep) else None) of
                  None \<Rightarrow> janitor_release E ep h1
                | Some ref \<Rightarrow>
                    (case markTemplateForReaping E ep ref h1 of
                       (Some err, h2) \<Rightarrow> (Inl err, h2)
                     | (None, h2) \<Rightarrow> janitor_release E ep h2)))"

definition expires_at :: "endpoint_cr \<Rightarrow> gotime" where
  "expires_at ep = AddDuration (om_CreationTimestamp (mg_Meta ep)) (secondsDuration (ep_MaxLifetimeSeconds (ec_ForProvider ep)))"

definition janitor_Reconcile :: "env \<Rightarrow> string \<Rightarrow> string \<Rightarrow> trace \<Rightarrow> duration result \<times> trace" where
  "janitor_Reconcile E ns name h =
     (case get_Endpoint E ns name h of
        (Inl err, h1) \<Rightarrow> (if IsNotFound err then Inr 0 else Inl err, h1)
      | (Inr ep, h1) \<Rightarrow>
          if \<not> deleting ep \<and> \<not> contains (om_Finalizers (mg_Meta ep)) lifetimeFinalizer then
            (case kube_Write E (EvUpdateEndpoint (set_finalizers (om_Finalizers (mg_Meta ep) @ [lifetimeFinalizer]) ep)) h1 of
               (Some err, h2) \<Rightarrow> (Inl err, h2)
             | (None, h2) \<Rightarrow> (Inr 0, h2))
          else (case time_Now E h1 of
             (now, h2) \<Rightarrow>
               (let expiresAt = expires_at ep; expired = (\<not> Before now expiresAt); remaining = SubTime expiresAt now
                in if \<not> deleting ep \<and> 0 < sint remaining then (Inr remaining, h2)
                   else janitor_cleanup E ep expired h2)))"

section \<open>The Template reaper\<close>

fun refers_to_template_name :: "string \<Rightarrow> endpoint_cr list \<Rightarrow> bool" where
  "refers_to_template_name name [] = False"
| "refers_to_template_name name (e # es) =
     (case ep_TemplateIDRef (ec_ForProvider e) of
        None \<Rightarrow> refers_to_template_name name es
      | Some ref \<Rightarrow> if ref_Name ref = name then True else refers_to_template_name name es)"

definition reaper_delete :: "env \<Rightarrow> template_cr \<Rightarrow> trace \<Rightarrow> duration result \<times> trace" where
  "reaper_delete E template h =
     (case list_Endpoints E (om_Namespace (mg_Meta template)) h of
        (Inl err, h1) \<Rightarrow> (Inl err, h1)
      | (Inr items, h1) \<Rightarrow>
          if refers_to_template_name (om_Name (mg_Meta template)) items then (Inr cleanupPoll, h1)
          else (case kube_Write_ignoring_NotFound E (EvDelete KTemplate (om_Namespace (mg_Meta template)) (om_Name (mg_Meta template))) h1 of
                  (Some err, h2) \<Rightarrow> (Inl err, h2)
                | (None, h2) \<Rightarrow> (Inr 0, h2)))"

text \<open>
  The clock is read twice for a Template with a lifetime: the source reads \<open>time.Now\<close> and then the
  reconciler's own clock, which Setup sets to the same function.
\<close>

definition templateReconciler_Reconcile :: "env \<Rightarrow> string \<Rightarrow> string \<Rightarrow> trace \<Rightarrow> duration result \<times> trace" where
  "templateReconciler_Reconcile E ns name h =
     (case get_Template E ns name h of
        (Inl err, h1) \<Rightarrow> (if IsNotFound err then Inr 0 else Inl err, h1)
      | (Inr template, h1) \<Rightarrow>
          if deleting template then (Inr 0, h1)
          else (let reapRequested = (map_get (annotations template) templateReapAnnotation \<noteq> []);
                    created = om_CreationTimestamp (mg_Meta template);
                    lifetime = tp_MaxLifetimeSeconds (tc_ForProvider template)
                in if 0 < sint lifetime \<and> \<not> IsZero created then
                     (case time_Now E (snd (time_Now E h1)) of
                        (now, h2) \<Rightarrow>
                          (let expiresAt = AddDuration created (secondsDuration lifetime)
                           in if Before now expiresAt \<and> \<not> reapRequested then (Inr (SubTime expiresAt now), h2)
                              else if reapRequested \<or> \<not> Before now expiresAt then reaper_delete E template h2
                              else (Inr 0, h2)))
                   else if reapRequested then reaper_delete E template h1
                   else (Inr 0, h1)))"

section \<open>Helper lemmas\<close>

lemma map_sum_id_Inr [simp]: "map_sum f id x = Inr y \<longleftrightarrow> x = Inr y"
  by (cases x) auto

lemma contains_iff [simp]: "contains vs target \<longleftrightarrow> target \<in> set vs"
  by (induction vs) auto

lemma remove_remove1: "remove vs target = remove1 target vs"
  by (induction vs) auto

lemma refers_to_template_name_iff:
  "refers_to_template_name name es \<longleftrightarrow> (\<exists>e \<in> set es. \<exists>ref. ep_TemplateIDRef (ec_ForProvider e) = Some ref \<and> ref_Name ref = name)"
  by (induction es) (auto split: option.splits)

text \<open>The change an event makes to the Kubernetes API: everything but reads and the clock.\<close>

fun kube_change :: "event \<Rightarrow> bool" where
  "kube_change (EvUpdateTemplate _) = True"
| "kube_change (EvUpdateEndpoint _) = True"
| "kube_change (EvUpdateCheck _) = True"
| "kube_change (EvStatusUpdateCheck _) = True"
| "kube_change (EvPatchEndpoint _ _) = True"
| "kube_change (EvDelete _ _ _) = True"
| "kube_change _ = False"

definition kube_changes :: "trace \<Rightarrow> event list" where
  "kube_changes h = filter kube_change h"

lemma kube_changes_simps [simp]:
  "kube_changes [] = []" "kube_changes (h @ h') = kube_changes h @ kube_changes h'"
  "kube_changes (e # h) = (if kube_change e then e # kube_changes h else kube_changes h)"
  by (simp_all add: kube_changes_def)

lemma kube_Write_ignoring_changes:
  "kube_Write_ignoring_NotFound E ev h = (r, h') \<Longrightarrow> h' = h @ [ev]"
  by (auto simp: kube_Write_ignoring_NotFound_def kube_Write_def split: option.splits)

definition check_deletes :: "endpoint_check list \<Rightarrow> event list" where
  "check_deletes ks = map (\<lambda>k. EvDelete KEndpointCheck (om_Namespace (ck_Meta k)) (om_Name (ck_Meta k))) ks"

lemma check_deletes_simps [simp]:
  "check_deletes [] = []"
  "check_deletes (k # ks) = EvDelete KEndpointCheck (om_Namespace (ck_Meta k)) (om_Name (ck_Meta k)) # check_deletes ks"
  by (simp_all add: check_deletes_def)

lemma deleteChecks_loop_effect:
  assumes "deleteChecks_loop E name ks found h = (r, h')"
  shows "(\<exists>n. h' = h @ check_deletes (take n (filter (check_refers name) ks)))
    \<and> (\<forall>b. r = Inr b \<longrightarrow> h' = h @ check_deletes (filter (check_refers name) ks) \<and> (b \<longleftrightarrow> found \<or> (\<exists>k \<in> set ks. check_refers name k)))"
  using assms
proof (induction E name ks found h arbitrary: r h' rule: deleteChecks_loop.induct)
  case (1 E name found h)
  then show ?case by auto
next
  case (2 E name k ks found h)
  show ?case
  proof (cases "check_refers name k")
    case False
    with "2.prems" have d: "deleteChecks_loop E name ks found h = (r, h')" by simp
    with "2.IH"(2) [of r h'] False show ?thesis by simp
  next
    case True
    let ?ev = "EvDelete KEndpointCheck (om_Namespace (ck_Meta k)) (om_Name (ck_Meta k))"
    obtain e h1 where w: "kube_Write_ignoring_NotFound E ?ev h = (e, h1)" by fastforce
    then have h1: "h1 = h @ [?ev]" by (rule kube_Write_ignoring_changes)
    show ?thesis
    proof (cases e)
      case (Some err)
      with "2.prems" w True have "r = Inl err" "h' = h1" by simp_all
      with h1 True show ?thesis by (auto intro: exI [of _ 1])
    next
      case None
      with "2.prems" w True have "deleteChecks_loop E name ks True h1 = (r, h')" by simp
      with "2.IH"(1) [of None h1 r h'] w None True h1 obtain n where
        "h' = h1 @ check_deletes (take n (filter (check_refers name) ks))"
        "\<forall>b. r = Inr b \<longrightarrow> h' = h1 @ check_deletes (filter (check_refers name) ks) \<and> b"
        by auto
      with h1 True show ?thesis by (auto intro: exI [of _ "Suc n"])
    qed
  qed
qed

lemma markTemplateForReaping_effect:
  assumes "markTemplateForReaping E ep ref h = (r, h')"
  shows "kube_changes h' = kube_changes h \<or> (\<exists>t. kube_changes h' = kube_changes h @ [EvUpdateTemplate t])"
  using assms by (auto simp: markTemplateForReaping_def world_defs split: sum.splits if_splits)

definition release_writes :: "endpoint_cr \<Rightarrow> event list" where
  "release_writes ep =
     (if \<not> deleting ep then [EvDelete KEndpoint (om_Namespace (mg_Meta ep)) (om_Name (mg_Meta ep))]
      else if lifetimeFinalizer \<in> set (om_Finalizers (mg_Meta ep))
      then [EvUpdateEndpoint (set_finalizers (remove1 lifetimeFinalizer (om_Finalizers (mg_Meta ep))) ep)] else [])"

lemma janitor_release_effect:
  assumes "janitor_release E ep h = (r, h')"
  shows "h' = h @ release_writes ep" "r = Inr d \<Longrightarrow> d = (if deleting ep then 0 else cleanupPoll)"
  using assms
  by (auto simp: janitor_release_def release_writes_def remove_remove1 dest: kube_Write_ignoring_changes split: if_splits option.splits prod.splits)

lemma release_writes_changes [simp]: "kube_changes (release_writes ep) = release_writes ep"
  by (simp add: release_writes_def)

lemma check_deletes_changes [simp]: "kube_changes (check_deletes ks) = check_deletes ks"
  by (induction ks) simp_all

text \<open>
  What the cleanup of an Endpoint may change, given the checks listed: while one of them refers to
  the Endpoint, such checks are deleted and nothing else happens; otherwise the Template is marked
  (after the deadline only) and then the Endpoint is deleted or released.
\<close>

definition cleanup_writes :: "endpoint_cr \<Rightarrow> bool \<Rightarrow> endpoint_check list \<Rightarrow> event list \<Rightarrow> bool" where
  "cleanup_writes ep expired ks ws \<longleftrightarrow>
     (let refers = check_refers (om_Name (mg_Meta ep))
      in if \<exists>k \<in> set ks. refers k then \<exists>n. ws = check_deletes (take n (filter refers ks))
         else \<exists>mark rest. ws = mark @ rest \<and> (mark = [] \<or> expired \<and> (\<exists>t. mark = [EvUpdateTemplate t])) \<and> (rest = [] \<or> rest = release_writes ep))"

lemma cleanup_writes_released:
  assumes "\<not> (\<exists>k \<in> set ks. check_refers (om_Name (mg_Meta ep)) k)"
  shows "cleanup_writes ep expired ks []" "cleanup_writes ep expired ks (release_writes ep)"
    "expired \<Longrightarrow> cleanup_writes ep expired ks [EvUpdateTemplate t]"
    "expired \<Longrightarrow> cleanup_writes ep expired ks (EvUpdateTemplate t # release_writes ep)"
proof -
  have c: "cleanup_writes ep expired ks (mark @ rest)"
    if "mark = [] \<or> expired \<and> (\<exists>t. mark = [EvUpdateTemplate t])" "rest = [] \<or> rest = release_writes ep" for mark rest
    using assms that by (auto simp: cleanup_writes_def Let_def)
  show "cleanup_writes ep expired ks []" "cleanup_writes ep expired ks (release_writes ep)"
    using c [of "[]" "[]"] c [of "[]" "release_writes ep"] by simp_all
  show "expired \<Longrightarrow> cleanup_writes ep expired ks [EvUpdateTemplate t]"
    "expired \<Longrightarrow> cleanup_writes ep expired ks (EvUpdateTemplate t # release_writes ep)"
    using c [of "[EvUpdateTemplate t]" "[]"] c [of "[EvUpdateTemplate t]" "release_writes ep"] by simp_all
qed

lemma janitor_cleanup_effect:
  assumes "janitor_cleanup E ep expired h = (r, h')"
  shows "kube_changes h' = kube_changes h \<or>
    (\<exists>ks ws. env_ListChecks E h (om_Namespace (mg_Meta ep)) = Inr ks \<and> kube_changes h' = kube_changes h @ ws \<and> cleanup_writes ep expired ks ws)"
proof (cases "env_ListChecks E h (om_Namespace (mg_Meta ep))")
  case (Inl e)
  with assms show ?thesis by (auto simp: janitor_cleanup_def deleteChecks_def list_EndpointChecks_def)
next
  case (Inr ks)
  let ?name = "om_Name (mg_Meta ep)" and ?h0 = "h @ [EvList KEndpointCheck (om_Namespace (mg_Meta ep))]"
  obtain q h1 where d: "deleteChecks_loop E ?name ks False ?h0 = (q, h1)" by fastforce
  with Inr have dc: "deleteChecks E ep h = (q, h1)" by (simp add: deleteChecks_def list_EndpointChecks_def)
  from deleteChecks_loop_effect [OF d] obtain n where
    e: "h1 = ?h0 @ check_deletes (take n (filter (check_refers ?name) ks))"
      "\<And>b. q = Inr b \<Longrightarrow> b \<longleftrightarrow> (\<exists>k \<in> set ks. check_refers ?name k)" by auto
  have none: "kube_changes h1 = kube_changes h" if "\<not> (\<exists>k \<in> set ks. check_refers ?name k)"
    using that e(1) by (simp add: filter_False)
  show ?thesis
  proof (cases "q = Inr False")
    case False
    with assms dc have "h' = h1" by (auto simp: janitor_cleanup_def split: sum.splits if_splits)
    with Inr e(1) none show ?thesis
      by (cases "\<exists>k \<in> set ks. check_refers ?name k") (auto simp: cleanup_writes_def Let_def)
  next
    case True
    with e(2) have no: "\<not> (\<exists>k \<in> set ks. check_refers ?name k)" by blast
    from assms dc True consider
      (plain) "janitor_release E ep h1 = (r, h')"
      | (mark) ref m h2 where "expired" "markTemplateForReaping E ep ref h1 = (m, h2)" "h' = h2 \<or> janitor_release E ep h2 = (r, h')"
      by (auto simp: janitor_cleanup_def split: option.splits if_splits prod.splits)
    then show ?thesis
    proof cases
      case plain
      then have "kube_changes h' = kube_changes h @ release_writes ep" using janitor_release_effect(1) [OF plain] none [OF no] by simp
      with Inr cleanup_writes_released(2) [OF no] show ?thesis by blast
    next
      case mark
      have "h' = h2 \<or> h' = h2 @ release_writes ep" using mark(3) janitor_release_effect(1) by blast
      with markTemplateForReaping_effect [OF mark(2)] none [OF no] Inr cleanup_writes_released [OF no] mark(1) show ?thesis
        by fastforce
    qed
  qed
qed

lemma expired_iff: "0 < sint (SubTime u now) \<longleftrightarrow> Before now u"
  by (simp add: SubTime_pos_iff Before_def)

text \<open>
  C12: the order of the cleanup. What one reconciliation of the janitor changes is one of these: it
  adds its finalizer to a live Endpoint that lacks it; or, for an Endpoint that is terminating or
  whose lifetime has elapsed, it deletes EndpointChecks that refer to the Endpoint while there are
  any, and only when the API server lists none it marks the Template (after the deadline only) and
  then deletes the Endpoint or, when it is terminating, removes its own finalizer.
\<close>

theorem janitor_cleanup_order:
  assumes "janitor_Reconcile E ns name h = (r, h')"
  shows "kube_changes h' = kube_changes h \<or>
    (\<exists>ep ws. env_GetEndpoint E h ns name = Inr ep \<and> kube_changes h' = kube_changes h @ ws \<and>
       (let live = \<not> deleting ep; h1 = h @ [EvGet KEndpoint ns name]; elapsed = (expires_at ep \<le> env_Now E h1)
        in if live \<and> lifetimeFinalizer \<notin> set (om_Finalizers (mg_Meta ep))
           then ws = [EvUpdateEndpoint (set_finalizers (om_Finalizers (mg_Meta ep) @ [lifetimeFinalizer]) ep)]
           else (live \<longrightarrow> elapsed) \<and>
             (\<exists>ks. env_ListChecks E (h1 @ [EvClock]) (om_Namespace (mg_Meta ep)) = Inr ks \<and> cleanup_writes ep elapsed ks ws)))"
proof (cases "env_GetEndpoint E h ns name")
  case (Inl e)
  with assms show ?thesis by (auto simp: janitor_Reconcile_def get_Endpoint_def)
next
  case (Inr ep)
  let ?h1 = "h @ [EvGet KEndpoint ns name]"
  show ?thesis
  proof (cases "\<not> deleting ep \<and> lifetimeFinalizer \<notin> set (om_Finalizers (mg_Meta ep))")
    case True
    with assms Inr show ?thesis
      by (auto simp: janitor_Reconcile_def get_Endpoint_def kube_Write_def Let_def split: option.splits)
  next
    case False
    with assms Inr consider "kube_changes h' = kube_changes h"
      | (cleanup) "deleting ep \<or> expires_at ep \<le> env_Now E ?h1" "janitor_cleanup E ep (expires_at ep \<le> env_Now E ?h1) (?h1 @ [EvClock]) = (r, h')"
      by (auto simp: janitor_Reconcile_def get_Endpoint_def time_Now_def Let_def expired_iff Before_def not_less split: if_splits)
    then show ?thesis
    proof cases
      case cleanup
      with janitor_cleanup_effect [OF cleanup(2)] Inr False show ?thesis by (auto simp: Let_def)
    qed simp
  qed
qed

text \<open>An expired Endpoint with the janitor's finalizer, and the API server that knows it.\<close>

definition locked_endpoint_cr :: endpoint_cr where
  "locked_endpoint_cr = set_finalizers [lifetimeFinalizer] bound_endpoint_cr"

definition expired_env :: "endpoint_check list \<Rightarrow> env" where
  "expired_env ks = (scripted_env (\<lambda>_. plain_response 404 []) 4000000000000)
     \<lparr>env_GetEndpoint := (\<lambda>_ _ _. Inr locked_endpoint_cr), env_ListChecks := (\<lambda>_ _. Inr ks)\<rparr>"

lemma bound_endpoint_live [simp]: "\<not> deleting bound_endpoint_cr"
  by (simp add: deleting_def bound_endpoint_cr_def demo_endpoint_cr_def demo_meta_def set_endpoint_ID_def update_annotations_def)

lemma locked_endpoint_simps [simp]:
  "om_Finalizers (mg_Meta locked_endpoint_cr) = [lifetimeFinalizer]" "\<not> deleting locked_endpoint_cr"
  "om_Namespace (mg_Meta locked_endpoint_cr) = ''team''" "om_Name (mg_Meta locked_endpoint_cr) = ''demo''"
  "expires_at locked_endpoint_cr = 3600000000000" "ep_TemplateIDRef (ec_ForProvider locked_endpoint_cr) = Some \<lparr>ref_Name = ''tpl''\<rparr>"
  "shouldDeleteTemplate (ep_DeleteReferencedTemplateOnExpiry (ec_ForProvider locked_endpoint_cr))"
  by (simp_all add: locked_endpoint_cr_def set_finalizers_def deleting_def bound_endpoint_cr_def demo_endpoint_cr_def demo_meta_def
      set_endpoint_ID_def update_annotations_def expires_at_def AddDuration_def shouldDeleteTemplate_def)

lemma expired_env_simps [simp]:
  "env_GetEndpoint (expired_env ks) h ns n = Inr locked_endpoint_cr" "env_ListChecks (expired_env ks) h ns = Inr ks"
  "env_Now (expired_env ks) h = 4000000000000" "env_GetTemplate (expired_env ks) h ns n = Inl (True, ''not found'')"
  "env_Write (expired_env ks) h ev = None"
  by (simp_all add: expired_env_def scripted_env_def)

lemma expired_env_run:
  "janitor_Reconcile (expired_env []) ''team'' ''demo'' [] =
     (Inr cleanupPoll, [EvGet KEndpoint ''team'' ''demo'', EvClock, EvList KEndpointCheck ''team''] @
       [EvGet KTemplate ''team'' ''tpl'', EvDelete KEndpoint ''team'' ''demo''])"
  by (simp add: janitor_Reconcile_def world_defs Let_def expired_iff Before_def janitor_cleanup_def
      deleteChecks_def markTemplateForReaping_def kube_err_def IsNotFound_def janitor_release_def kube_Write_ignoring_NotFound_def)

theorem janitor_cleanup_order_witness:
  "\<exists>ws. kube_changes (snd (janitor_Reconcile (expired_env []) ''team'' ''demo'' [])) = ws
     \<and> EvDelete KEndpoint ''team'' ''demo'' \<in> set ws \<and> cleanup_writes locked_endpoint_cr True [] ws"
  using janitor_cleanup_order [OF expired_env_run]
  by (auto simp: expired_env_run Let_def)

text \<open>
  C20: the lifetime is enforced. Once the lifetime of a live Endpoint with the janitor's finalizer
  has elapsed, a reconciliation that returns without an error asks to be run again after two
  seconds, and it has deleted every EndpointCheck of the namespace that refers to the Endpoint or,
  if there was none, the Endpoint itself.
\<close>

theorem janitor_enforces_lifetime:
  assumes "janitor_Reconcile E ns name h = (Inr d, h')" "env_GetEndpoint E h ns name = Inr ep" "\<not> deleting ep"
    and "lifetimeFinalizer \<in> set (om_Finalizers (mg_Meta ep))" "expires_at ep \<le> env_Now E (h @ [EvGet KEndpoint ns name])"
  shows "d = cleanupPoll \<and> (\<exists>ks ws. kube_changes h' = kube_changes h @ ws \<and>
     env_ListChecks E (h @ [EvGet KEndpoint ns name, EvClock]) (om_Namespace (mg_Meta ep)) = Inr ks \<and>
     (let refers = check_refers (om_Name (mg_Meta ep))
      in if \<exists>k \<in> set ks. refers k then ws = check_deletes (filter refers ks)
         else ws \<noteq> [] \<and> List.last ws = EvDelete KEndpoint (om_Namespace (mg_Meta ep)) (om_Name (mg_Meta ep))))"
proof -
  let ?h1 = "h @ [EvGet KEndpoint ns name, EvClock]" and ?name = "om_Name (mg_Meta ep)"
  from assms have "janitor_cleanup E ep True ?h1 = (Inr d, h')"
    by (simp add: janitor_Reconcile_def get_Endpoint_def time_Now_def Let_def expired_iff Before_def)
  then obtain b h2 where b: "deleteChecks E ep ?h1 = (Inr b, h2)"
    by (auto simp: janitor_cleanup_def split: sum.splits prod.splits)
  then obtain ks where l: "env_ListChecks E ?h1 (om_Namespace (mg_Meta ep)) = Inr ks"
    and ks: "deleteChecks_loop E ?name ks False (?h1 @ [EvList KEndpointCheck (om_Namespace (mg_Meta ep))]) = (Inr b, h2)"
    by (auto simp: deleteChecks_def list_EndpointChecks_def split: sum.splits)
  from deleteChecks_loop_effect [OF ks] have e: "b \<longleftrightarrow> (\<exists>k \<in> set ks. check_refers ?name k)"
    "kube_changes h2 = kube_changes h @ check_deletes (filter (check_refers ?name) ks)" by auto
  show ?thesis
  proof (cases b)
    case True
    with b \<open>janitor_cleanup E ep True ?h1 = (Inr d, h')\<close> have "d = cleanupPoll" "h' = h2" by (simp_all add: janitor_cleanup_def)
    with True e l show ?thesis by (auto simp: Let_def)
  next
    case False
    with b \<open>janitor_cleanup E ep True ?h1 = (Inr d, h')\<close> obtain h3 where
      r: "janitor_release E ep h3 = (Inr d, h')" "kube_changes h3 = kube_changes h2 \<or> (\<exists>t. kube_changes h3 = kube_changes h2 @ [EvUpdateTemplate t])"
      by (auto simp: janitor_cleanup_def dest: markTemplateForReaping_effect split: option.splits if_splits prod.splits)
    from False e have "kube_changes h2 = kube_changes h" by (simp add: filter_False)
    with r(2) obtain mark where "kube_changes h3 = kube_changes h @ mark" by auto
    with janitor_release_effect [OF r(1)] assms(3) have
      "d = cleanupPoll" "kube_changes h' = kube_changes h @ mark @ [EvDelete KEndpoint (om_Namespace (mg_Meta ep)) ?name]"
      by (simp_all add: release_writes_def)
    with False e l show ?thesis by (intro conjI exI [of _ ks] exI) (auto simp: Let_def)
  qed
qed

theorem janitor_enforces_lifetime_witness:
  "\<exists>h'. janitor_Reconcile (expired_env []) ''team'' ''demo'' [] = (Inr cleanupPoll, h') \<and> kube_changes h' \<noteq> []"
proof -
  obtain h' where r: "janitor_Reconcile (expired_env []) ''team'' ''demo'' [] = (Inr cleanupPoll, h')" using expired_env_run by blast
  have "env_GetEndpoint (expired_env []) [] ''team'' ''demo'' = Inr locked_endpoint_cr"
    "expires_at locked_endpoint_cr \<le> env_Now (expired_env []) ([] @ [EvGet KEndpoint ''team'' ''demo''])"
    by simp_all
  from janitor_enforces_lifetime [OF r this(1) _ _ this(2)] r show ?thesis
    by (auto simp: Let_def filter_empty_conv check_deletes_def split: if_splits)
qed

text \<open>
  C33: when a Template is reaped. The reaper's only change is the deletion of a live Template that
  carries the reap annotation or whose own lifetime has elapsed, after the API server listed no
  Endpoint of the namespace that refers to it.
\<close>

theorem reaper_deletes_unreferenced:
  assumes "templateReconciler_Reconcile E ns name h = (r, h')"
  shows "kube_changes h' = kube_changes h \<or>
    (\<exists>t. env_GetTemplate E h ns name = Inr t \<and> \<not> deleting t
       \<and> kube_changes h' = kube_changes h @ [EvDelete KTemplate (om_Namespace (mg_Meta t)) (om_Name (mg_Meta t))]
       \<and> (map_get (annotations t) templateReapAnnotation \<noteq> [] \<or>
            om_CreationTimestamp (mg_Meta t) + sint (tp_MaxLifetimeSeconds (tc_ForProvider t)) * 10 ^ 9
              \<le> env_Now E (h @ [EvGet KTemplate ns name, EvClock]))
       \<and> (\<exists>h1 items. env_ListEndpoints E h1 (om_Namespace (mg_Meta t)) = Inr items
            \<and> (\<forall>e \<in> set items. \<forall>ref. ep_TemplateIDRef (ec_ForProvider e) = Some ref \<longrightarrow> ref_Name ref \<noteq> om_Name (mg_Meta t))))"
proof (cases "env_GetTemplate E h ns name")
  case (Inl e)
  with assms show ?thesis by (auto simp: templateReconciler_Reconcile_def get_Template_def)
next
  case (Inr t)
  have del: "kube_changes h2 = kube_changes h1 \<or> kube_changes h2 = kube_changes h1 @ [EvDelete KTemplate (om_Namespace (mg_Meta t)) (om_Name (mg_Meta t))]
      \<and> (\<exists>items. env_ListEndpoints E h1 (om_Namespace (mg_Meta t)) = Inr items
            \<and> (\<forall>e \<in> set items. \<forall>ref. ep_TemplateIDRef (ec_ForProvider e) = Some ref \<longrightarrow> ref_Name ref \<noteq> om_Name (mg_Meta t)))"
    if "reaper_delete E t h1 = (q, h2)" for h1 q h2
    using that by (auto simp: reaper_delete_def list_Endpoints_def refers_to_template_name_iff dest!: kube_Write_ignoring_changes
        split: sum.splits if_splits option.splits prod.splits)
  from assms Inr consider "kube_changes h' = kube_changes h"
    | (reap) h1 where "\<not> deleting t" "reaper_delete E t h1 = (r, h')" "kube_changes h1 = kube_changes h"
      "map_get (annotations t) templateReapAnnotation \<noteq> [] \<or>
         om_CreationTimestamp (mg_Meta t) + sint (tp_MaxLifetimeSeconds (tc_ForProvider t)) * 10 ^ 9 \<le> env_Now E (h @ [EvGet KTemplate ns name, EvClock])"
    by (auto simp: templateReconciler_Reconcile_def get_Template_def time_Now_def Let_def AddDuration_def Before_def not_less split: if_splits)
  then show ?thesis
  proof cases
    case reap
    with del [OF reap(2)] Inr show ?thesis by auto
  qed simp
qed

definition reap_env :: env where
  "reap_env = (scripted_env (\<lambda>_. plain_response 404 []) 1)
     \<lparr>env_GetTemplate := (\<lambda>_ _ _. Inr (update_annotations (\<lambda>m. m(templateReapAnnotation \<mapsto> ''u1'')) demo_template_cr))\<rparr>"

theorem reaper_deletes_unreferenced_witness:
  "\<exists>r h'. templateReconciler_Reconcile reap_env ''team'' ''demo'' [] = (r, h') \<and> kube_changes h' = [EvDelete KTemplate ''team'' ''demo'']"
proof -
  obtain r h' where r: "templateReconciler_Reconcile reap_env ''team'' ''demo'' [] = (r, h')" by fastforce
  then have "kube_changes h' \<noteq> []"
    by (auto simp: templateReconciler_Reconcile_def reap_env_def scripted_env_def world_defs Let_def reaper_delete_def
        kube_Write_ignoring_NotFound_def demo_template_cr_def demo_meta_def annotations_def update_annotations_def deleting_def IsZero_def)
  with reaper_deletes_unreferenced [OF r] r show ?thesis
    by (auto simp: reap_env_def update_annotations_def demo_template_cr_def demo_meta_def)
qed

end
