(* ===== verification/Inference.thy ===== *)
theory Inference
  imports RunpodClient
begin

text \<open>
  \<open>internal/inference/client.go\<close>: the client that verifies an Endpoint through RunPod's inference
  API. It has its own type, token and base URL; nothing of the management client's state is
  reachable from it. A call sends one request and never retries. The transport's timeouts and the
  redirect policy belong to the HTTP peer of the environment; the timeout argument is checked
  against its bounds.
\<close>

section \<open>The client\<close>

definition maxResponseBytes :: int where
  "maxResponseBytes = 2 ^ 20"

text \<open>The regular expression \<open>^[A-Za-z0-9_-]{1,128}$\<close>.\<close>

definition safeToolCallID :: "string \<Rightarrow> bool" where
  "safeToolCallID s \<longleftrightarrow> s \<noteq> [] \<and> length s \<le> 128 \<and> list_all (\<lambda>c. is_alnum c \<or> c = CHR ''_'' \<or> c = CHR ''-'') s"

record inference_result =
  ir_Healthy :: bool
  ir_ModelVerified :: bool
  ir_ToolCallVerified :: bool

record inference_client =
  ic_endpointID :: string
  ic_token :: string
  ic_baseURL :: string

definition inferenceBaseURL :: string where
  "inferenceBaseURL = ''https://api.runpod.ai''"

definition inference_New :: "string \<Rightarrow> string \<Rightarrow> duration \<Rightarrow> (inference_client \<Rightarrow> inference_client result) list \<Rightarrow> inference_client result" where
  "inference_New endpointID rawToken timeout opts =
     (let token = rawToken
      in if ValidateRunPodID endpointID \<noteq> None then Inl (Err ''invalid RunPod endpoint ID'')
         else if token = [] \<or> token \<noteq> TrimSpace token \<or> length token > 4096 \<or> ContainsAny token [CHR 0x0D, CHR 0x0A]
         then Inl (Err ''inference token is empty or malformed'')
         else if sint timeout \<le> 0 \<or> dur_less (10 * Minute) timeout
         then Inl (Err ''inference timeout must be between one second and ten minutes'')
         else apply_options opts \<lparr>ic_endpointID = endpointID, ic_token = token, ic_baseURL = inferenceBaseURL\<rparr>)"

section \<open>One request\<close>

definition endpointPath :: "inference_client \<Rightarrow> string \<Rightarrow> string" where
  "endpointPath c suffix = ''/v2/'' @ PathEscape (ic_endpointID c) @ suffix"

definition openAIPath :: "inference_client \<Rightarrow> string \<Rightarrow> string" where
  "openAIPath c suffix = endpointPath c (''/openai/v1'' @ suffix)"

definition inference_request :: "inference_client \<Rightarrow> string \<Rightarrow> string \<Rightarrow> json option \<Rightarrow> http_request" where
  "inference_request c httpMethod path input =
     \<lparr>rq_Method = httpMethod, rq_URL = TrimRight (ic_baseURL c) (CHR ''/'') @ path,
      rq_Header = [(''Authorization'', ''Bearer '' @ ic_token c), (''Accept'', ''application/json'')] @
                  (if input = None then [] else [(''Content-Type'', ''application/json'')]),
      rq_Body = (case input of None \<Rightarrow> [] | Some v \<Rightarrow> json_text v)\<rparr>"

definition inference_response :: "'r decoder option \<Rightarrow> 'r \<Rightarrow> http_response \<Rightarrow> 'r result" where
  "inference_response dec out resp =
     (case ReadAll_limited (maxResponseBytes + 1) resp of
        (_, Some _) \<Rightarrow> Inl (Err ''invalid inference response size'')
      | (body, None) \<Rightarrow>
          if int (length body) > maxResponseBytes then Inl (Err ''invalid inference response size'')
          else if rs_StatusCode resp < 200 \<or> rs_StatusCode resp \<ge> 300
          then Inl (Err (''inference endpoint returned HTTP '' @ show_int (rs_StatusCode resp)))
          else (case dec of
                  None \<Rightarrow> Inr out
                | Some decode \<Rightarrow>
                    (case json_parse body of
                       None \<Rightarrow> Inl (Err ''inference endpoint returned invalid JSON'')
                     | Some v \<Rightarrow>
                         (case decode v out of
                            Inl _ \<Rightarrow> Inl (Err ''inference endpoint returned invalid JSON'')
                          | Inr decoded \<Rightarrow> Inr decoded))))"

definition inference_do :: "env \<Rightarrow> inference_client \<Rightarrow> string \<Rightarrow> string \<Rightarrow> json option \<Rightarrow> 'r decoder option \<Rightarrow> 'r \<Rightarrow> trace \<Rightarrow> 'r result \<times> trace" where
  "inference_do E c httpMethod path input dec out h =
     (let req = inference_request c httpMethod path input
      in case env_NewRequest E httpMethod (rq_URL req) of
           Some _ \<Rightarrow> (Inl (Err ''build inference request''), h)
         | None \<Rightarrow>
             (case env_Do E h req of
                DoErr _ \<Rightarrow> (Inl (Err ''inference endpoint was unreachable''), h @ [EvHTTP req])
              | Resp resp \<Rightarrow> (inference_response dec out resp, h @ [EvHTTP req])))"

definition CheckHealth :: "env \<Rightarrow> inference_client \<Rightarrow> trace \<Rightarrow> error ptr \<times> trace" where
  "CheckHealth E c h =
     (case inference_do E c MethodGet (endpointPath c ''/health'') None None () h of
        (Inl err, h1) \<Rightarrow> (Some err, h1)
      | (Inr _, h1) \<Rightarrow> (None, h1))"

section \<open>What the responses decode to\<close>

record model_entry =
  me_ID :: string

record models_response =
  mr_Data :: "model_entry slice"

record tool_function =
  tf_Name :: string
  tf_Arguments :: string

record tool_call =
  tcl_ID :: string
  tcl_Type :: string
  tcl_Function :: tool_function

record chat_message =
  cm_ToolCalls :: "tool_call slice"

record chat_choice =
  cc_FinishReason :: string
  cc_Message :: chat_message

record chat_response =
  cr_Choices :: "chat_choice slice"

definition zero_tool_call :: tool_call where
  "zero_tool_call = \<lparr>tcl_ID = [], tcl_Type = [], tcl_Function = \<lparr>tf_Name = [], tf_Arguments = []\<rparr>\<rparr>"

definition zero_choice :: chat_choice where
  "zero_choice = \<lparr>cc_FinishReason = [], cc_Message = \<lparr>cm_ToolCalls = None\<rparr>\<rparr>"

definition decode_models :: "models_response decoder" where
  "decode_models = decode_struct
     [(''DATA'', with_field (dec_slice \<lparr>me_ID = []\<rparr> (decode_struct [(''ID'', with_field dec_string me_ID me_ID_update)]))
         mr_Data mr_Data_update)]"

definition decode_tool_function :: "tool_function decoder" where
  "decode_tool_function = decode_struct
     [(''NAME'', with_field dec_string tf_Name tf_Name_update), (''ARGUMENTS'', with_field dec_string tf_Arguments tf_Arguments_update)]"

definition decode_tool_call :: "tool_call decoder" where
  "decode_tool_call = decode_struct
     [(''ID'', with_field dec_string tcl_ID tcl_ID_update), (''TYPE'', with_field dec_string tcl_Type tcl_Type_update),
      (''FUNCTION'', with_field decode_tool_function tcl_Function tcl_Function_update)]"

definition decode_choice :: "chat_choice decoder" where
  "decode_choice = decode_struct
     [(''FINISH_REASON'', with_field dec_string cc_FinishReason cc_FinishReason_update),
      (''MESSAGE'', with_field (decode_struct
         [(''TOOL_CALLS'', with_field (dec_slice zero_tool_call decode_tool_call) cm_ToolCalls cm_ToolCalls_update)]) cc_Message cc_Message_update)]"

definition decode_chat_response :: "chat_response decoder" where
  "decode_chat_response = decode_struct
     [(''CHOICES'', with_field (dec_slice zero_choice decode_choice) cr_Choices cr_Choices_update)]"

section \<open>The readiness probe\<close>

text \<open>The members of a Go map are printed in the order of their keys.\<close>

definition readiness_request :: "string \<Rightarrow> json" where
  "readiness_request expectedModelID = JObj
     [(''max_tokens'', JNum ''64''),
      (''messages'', JArr [JObj [(''content'', JStr ''Call readiness_probe with token ready.''), (''role'', JStr ''user'')]]),
      (''model'', JStr expectedModelID),
      (''temperature'', JNum ''0''),
      (''tool_choice'', JObj [(''function'', JObj [(''name'', JStr ''readiness_probe'')]), (''type'', JStr ''function'')]),
      (''tools'', JArr [JObj
         [(''function'', JObj
            [(''description'', JStr ''Return the fixed readiness token.''), (''name'', JStr ''readiness_probe''),
             (''parameters'', JObj
               [(''additionalProperties'', JBool False),
                (''properties'', JObj [(''token'', JObj [(''enum'', JArr [JStr ''ready'']), (''type'', JStr ''string'')])]),
                (''required'', JArr [JStr ''token'']), (''type'', JStr ''object'')])]),
          (''type'', JStr ''function'')]])]"

text \<open>
  The stream decoder of \<open>encoding/json\<close> over the tokens of the whole text. \<open>More\<close> looks at the next
  token; a text that does not scan to its end fails in one of the steps, the last of which demands
  the end of the input.
\<close>

definition More :: "token list \<Rightarrow> bool" where
  "More ts \<longleftrightarrow> (case ts of [] \<Rightarrow> False | t # _ \<Rightarrow> t \<noteq> TDelim (CHR '']'') \<and> t \<noteq> TDelim (CHR ''}''))"

definition exactReadinessArguments :: "string \<Rightarrow> bool" where
  "exactReadinessArguments raw =
     (if length raw = 0 \<or> int (length raw) > 1024 then False
      else (case lex LStart raw of
              None \<Rightarrow> False
            | Some [] \<Rightarrow> False
            | Some (start # ts) \<Rightarrow>
                if start \<noteq> TDelim (CHR ''{'') \<or> \<not> More ts then False
                else (case ts of
                        key # colon # value # rest \<Rightarrow>
                          if key \<noteq> TStr ''token'' then False
                          else if colon \<noteq> TDelim (CHR '':'') \<or> value \<noteq> TStr ''ready'' \<or> More rest then False
                          else (case rest of
                                  [] \<Rightarrow> False
                                | close # after \<Rightarrow> if close \<noteq> TDelim (CHR ''}'') then False else after = [])
                      | _ \<Rightarrow> False)))"

fun advertises :: "string \<Rightarrow> model_entry list \<Rightarrow> bool" where
  "advertises model [] = False"
| "advertises model (m # ms) = (if me_ID m = model then True else advertises model ms)"

definition readiness_call :: "chat_response \<Rightarrow> bool" where
  "readiness_call response =
     (case elems (cr_Choices response) of
        [choice] \<Rightarrow>
          cc_FinishReason choice = ''tool_calls'' \<and>
          (case elems (cm_ToolCalls (cc_Message choice)) of
             [call] \<Rightarrow>
               tcl_Type call = ''function'' \<and> safeToolCallID (tcl_ID call) \<and>
               tf_Name (tcl_Function call) = ''readiness_probe'' \<and> exactReadinessArguments (tf_Arguments (tcl_Function call))
           | _ \<Rightarrow> False)
      | _ \<Rightarrow> False)"

text \<open>\<open>Verify\<close> returns the flags it reached together with the error, as the source does.\<close>

definition Verify :: "env \<Rightarrow> inference_client \<Rightarrow> string \<Rightarrow> trace \<Rightarrow> (inference_result \<times> error ptr) \<times> trace" where
  "Verify E c expectedModelID h =
     (let none = \<lparr>ir_Healthy = False, ir_ModelVerified = False, ir_ToolCallVerified = False\<rparr>;
          healthy = none\<lparr>ir_Healthy := True\<rparr>; modelled = healthy\<lparr>ir_ModelVerified := True\<rparr>
      in if expectedModelID = [] then ((none, Some (Err ''expected model ID is required'')), h)
         else (case CheckHealth E c h of
            (Some err, h1) \<Rightarrow> ((none, Some (wrap_text ''authenticated health check failed'' err)), h1)
          | (None, h1) \<Rightarrow>
              (case inference_do E c MethodGet (openAIPath c ''/models'') None (Some decode_models) \<lparr>mr_Data = None\<rparr> h1 of
                 (Inl err, h2) \<Rightarrow> ((healthy, Some (wrap_text ''model identity check failed'' err)), h2)
               | (Inr models, h2) \<Rightarrow>
                   if \<not> advertises expectedModelID (elems (mr_Data models))
                   then ((healthy, Some (Err ''expected model ID was not advertised'')), h2)
                   else (case inference_do E c MethodPost (openAIPath c ''/chat/completions'') (Some (readiness_request expectedModelID))
                                (Some decode_chat_response) \<lparr>cr_Choices = None\<rparr> h2 of
                      (Inl err, h3) \<Rightarrow> ((modelled, Some (wrap_text ''tool-call check failed'' err)), h3)
                    | (Inr response, h3) \<Rightarrow>
                        if \<not> readiness_call response
                        then ((modelled, Some (Err ''model did not return the required readiness tool call'')), h3)
                        else ((modelled\<lparr>ir_ToolCallVerified := True\<rparr>, None), h3)))))"

section \<open>Properties\<close>

lemma advertises_iff: "advertises model ms \<longleftrightarrow> model \<in> me_ID ` set ms"
  by (induction ms) auto

lemma inference_do_trace:
  assumes "inference_do E c m p i dec out h = (r, h')"
  shows "h' = h @ (if env_NewRequest E m (rq_URL (inference_request c m p i)) = None then [EvHTTP (inference_request c m p i)] else [])"
    and "r = Inr x \<Longrightarrow> h' = h @ [EvHTTP (inference_request c m p i)]"
  using assms by (auto simp: inference_do_def Let_def split: option.splits http_result.splits)

lemma CheckHealth_trace:
  assumes "CheckHealth E c h = (r, h')"
  shows "h' = h \<or> h' = h @ [EvHTTP (inference_request c MethodGet (endpointPath c ''/health'') None)]"
    and "r = None \<Longrightarrow> h' = h @ [EvHTTP (inference_request c MethodGet (endpointPath c ''/health'') None)]"
  using assms
  by (auto simp: CheckHealth_def dest: inference_do_trace split: sum.splits prod.splits if_splits)

text \<open>
  The arguments of the readiness call are accepted exactly when they have at most 1024 bytes and
  parse to the object with the single member \<open>token\<close> and the value \<open>ready\<close>; repeated members,
  further members and trailing text are refused although the parser of the package keeps them.
\<close>

theorem exactReadinessArguments_iff:
  "exactReadinessArguments raw \<longleftrightarrow> int (length raw) \<le> 1024 \<and> json_parse raw = Some (JObj [(''token'', JStr ''ready'')])"
proof -
  let ?ts = "[TDelim (CHR ''{''), TStr ''token'', TDelim (CHR '':''), TStr ''ready'', TDelim (CHR ''}'')]"
  have "parse MVal [] ?ts = Some (JObj [(''token'', JStr ''ready'')])"
    by (simp add: parse_step_def open_value_def maxNestingDepth_def)
  then have p: "json_parse raw = Some (JObj [(''token'', JStr ''ready'')]) \<longleftrightarrow> lex LStart raw = Some ?ts"
    using json_parse_tokens [of raw "JObj [(''token'', JStr ''ready'')]"] by (auto simp: json_parse_def)
  have "exactReadinessArguments raw \<longleftrightarrow> raw \<noteq> [] \<and> int (length raw) \<le> 1024 \<and> lex LStart raw = Some ?ts"
    by (auto simp: exactReadinessArguments_def More_def split: option.splits list.splits if_splits)
  moreover have "lex LStart [] \<noteq> Some ?ts" by simp
  ultimately show ?thesis using p by auto
qed

lemma inference_do_Inr:
  assumes "inference_do E c m p i dec out h = (Inr x, h')"
  shows "\<exists>resp. env_Do E h (inference_request c m p i) = Resp resp \<and> 200 \<le> rs_StatusCode resp \<and> rs_StatusCode resp < 300
    \<and> h' = h @ [EvHTTP (inference_request c m p i)]
    \<and> (\<forall>d. dec = Some d \<longrightarrow> (\<exists>v. json_parse (rs_Body resp) = Some v \<and> d v out = Inr x))"
proof -
  from assms obtain resp where r: "env_Do E h (inference_request c m p i) = Resp resp" "inference_response dec out resp = Inr x"
    "h' = h @ [EvHTTP (inference_request c m p i)]"
    by (auto simp: inference_do_def Let_def split: option.splits http_result.splits)
  moreover have "fst (ReadAll_limited (maxResponseBytes + 1) resp) = rs_Body resp"
    if "int (length (fst (ReadAll_limited (maxResponseBytes + 1) resp))) \<le> maxResponseBytes"
    using that by (auto simp: ReadAll_limited_def maxResponseBytes_def split: if_splits)
  ultimately show ?thesis
    by (auto simp: inference_response_def split: prod.splits option.splits if_splits sum.splits)
qed

text \<open>
  C34: what a successful verification rests on. Verify returns no error only after three requests in
  this order: an authenticated health request, a model list that contains the expected model and
  one completion, each answered with a 2xx status, where the completion is the single readiness
  call; all three flags are then set.
\<close>

theorem Verify_success:
  assumes "Verify E c model h = ((res, None), h')"
  shows "res = \<lparr>ir_Healthy = True, ir_ModelVerified = True, ir_ToolCallVerified = True\<rparr> \<and>
    (let q1 = inference_request c MethodGet (endpointPath c ''/health'') None;
         q2 = inference_request c MethodGet (openAIPath c ''/models'') None;
         q3 = inference_request c MethodPost (openAIPath c ''/chat/completions'') (Some (readiness_request model));
         ok = (\<lambda>resp. 200 \<le> rs_StatusCode resp \<and> rs_StatusCode resp < 300)
     in h' = h @ [EvHTTP q1, EvHTTP q2, EvHTTP q3] \<and>
        (\<exists>r1 r2 r3 v2 v3 models response.
           env_Do E h q1 = Resp r1 \<and> ok r1
           \<and> env_Do E (h @ [EvHTTP q1]) q2 = Resp r2 \<and> ok r2 \<and> json_parse (rs_Body r2) = Some v2
           \<and> decode_models v2 \<lparr>mr_Data = None\<rparr> = Inr models \<and> model \<in> me_ID ` set (elems (mr_Data models))
           \<and> env_Do E (h @ [EvHTTP q1, EvHTTP q2]) q3 = Resp r3 \<and> ok r3 \<and> json_parse (rs_Body r3) = Some v3
           \<and> decode_chat_response v3 \<lparr>cr_Choices = None\<rparr> = Inr response \<and> readiness_call response))"
proof -
  from assms obtain h1 h2 u models response where v:
    "inference_do E c MethodGet (endpointPath c ''/health'') None None () h = (Inr u, h1)"
    "inference_do E c MethodGet (openAIPath c ''/models'') None (Some decode_models) \<lparr>mr_Data = None\<rparr> h1 = (Inr models, h2)"
    "inference_do E c MethodPost (openAIPath c ''/chat/completions'') (Some (readiness_request model)) (Some decode_chat_response)
       \<lparr>cr_Choices = None\<rparr> h2 = (Inr response, h')"
    "advertises model (elems (mr_Data models))" "readiness_call response"
    "res = \<lparr>ir_Healthy = True, ir_ModelVerified = True, ir_ToolCallVerified = True\<rparr>"
    by (auto simp: Verify_def CheckHealth_def Let_def split: if_splits sum.splits prod.splits)
  from inference_do_Inr [OF v(1)] inference_do_Inr [OF v(2)] inference_do_Inr [OF v(3)] v(4-6) show ?thesis
    unfolding Let_def by (auto simp: advertises_iff)
qed

text \<open>A peer that passes the probe.\<close>

definition demo_inference_client :: inference_client where
  "demo_inference_client = \<lparr>ic_endpointID = ''ep1'', ic_token = ''tok'', ic_baseURL = inferenceBaseURL\<rparr>"

definition readiness_text :: string where
  "readiness_text =
     (let q = [CHR 0x5C, CHR 0x22]
      in unquoted ''{~choices~:[{~finish_reason~:~tool_calls~,~message~:{~tool_calls~:[{~id~:~c1~,~type~:~function~,~function~:{~name~:~readiness_probe~,~arguments~:~{''
         @ q @ ''token'' @ q @ '':'' @ q @ ''ready'' @ q @ unquoted ''}~}}]}}]}'')"

definition passing_peer :: env where
  "passing_peer = scripted_env
     (\<lambda>r. plain_response 200
        (if rq_Method r = MethodPost then readiness_text
         else if rq_URL r = ''https://api.runpod.ai/v2/ep1/openai/v1/models'' then unquoted ''{~data~:[{~id~:~m~}]}'' else [])) 1"

lemma Verify_evaluates:
  "case Verify passing_peer demo_inference_client ''m'' [] of
     (p, h) \<Rightarrow> p = (\<lparr>ir_Healthy = True, ir_ModelVerified = True, ir_ToolCallVerified = True\<rparr>, None) \<and> length h = 3"
  by code_simp

lemma Verify_passing:
  "fst (Verify passing_peer demo_inference_client ''m'' []) =
     (\<lparr>ir_Healthy = True, ir_ModelVerified = True, ir_ToolCallVerified = True\<rparr>, None)"
  using Verify_evaluates by (cases "Verify passing_peer demo_inference_client ''m'' []") simp

lemma Verify_passing_trace: "length (snd (Verify passing_peer demo_inference_client ''m'' [])) = 3"
  using Verify_evaluates by (cases "Verify passing_peer demo_inference_client ''m'' []") simp

theorem Verify_success_witness:
  "\<exists>res h'. Verify passing_peer demo_inference_client ''m'' [] = ((res, None), h') \<and> mutation_methods h' = [MethodPost] \<and> length h' = 3"
proof -
  obtain res h' where r: "Verify passing_peer demo_inference_client ''m'' [] = ((res, None), h')"
    using Verify_passing by (cases "Verify passing_peer demo_inference_client ''m'' []") auto
  from Verify_success [OF r] r show ?thesis
    by (auto simp: Let_def inference_request_def http_methods)
qed

text \<open>The requests a verification sends, whatever the peer answers.\<close>

lemma sends_at_most_once:
  "h' = h \<or> h' = h @ [EvHTTP q] \<Longrightarrow> \<exists>t. h' = h @ map EvHTTP t \<and> set t \<subseteq> {q} \<and> length t \<le> 1"
  by (elim disjE) (intro exI [of _ "[]"] exI [of _ "[q]"]; simp)+

lemma inference_do_sends:
  assumes "inference_do E c m p i dec out h = (r, h')"
  shows "\<exists>t. h' = h @ map EvHTTP t \<and> set t \<subseteq> {inference_request c m p i} \<and> length t \<le> 1"
  using inference_do_trace(1) [OF assms] by (intro sends_at_most_once) (simp split: if_splits)

lemma Verify_trace:
  fixes c :: inference_client
  assumes "Verify E c model h = ((res, err), h')"
  shows "\<exists>t. h' = h @ map EvHTTP t
    \<and> set t \<subseteq> {inference_request c MethodGet (endpointPath c ''/health'') None, inference_request c MethodGet (openAIPath c ''/models'') None,
        inference_request c MethodPost (openAIPath c ''/chat/completions'') (Some (readiness_request model))}
    \<and> length (filter (\<lambda>q. rq_Method q \<noteq> MethodGet) t) \<le> (if ir_ModelVerified res then 1 else 0)
    \<and> (ir_ToolCallVerified res \<longrightarrow> ir_ModelVerified res) \<and> (ir_ModelVerified res \<longrightarrow> ir_Healthy res)
    \<and> (err = None \<longleftrightarrow> ir_ToolCallVerified res)"
proof -
  let ?q1 = "inference_request c MethodGet (endpointPath c ''/health'') None"
  let ?q2 = "inference_request c MethodGet (openAIPath c ''/models'') None"
  let ?q3 = "inference_request c MethodPost (openAIPath c ''/chat/completions'') (Some (readiness_request model))"
  obtain e1 h1 where v1: "CheckHealth E c h = (e1, h1)" by fastforce
  obtain r2 h2 where v2: "inference_do E c MethodGet (openAIPath c ''/models'') None (Some decode_models) \<lparr>mr_Data = None\<rparr> h1 = (r2, h2)" by fastforce
  obtain r3 h3 where v3: "inference_do E c MethodPost (openAIPath c ''/chat/completions'') (Some (readiness_request model))
      (Some decode_chat_response) \<lparr>cr_Choices = None\<rparr> h2 = (r3, h3)" by fastforce
  from sends_at_most_once [OF CheckHealth_trace(1) [OF v1]] obtain t1 where t1: "h1 = h @ map EvHTTP t1" "set t1 \<subseteq> {?q1}" by blast
  from inference_do_sends [OF v2] obtain t2 where t2: "h2 = h1 @ map EvHTTP t2" "set t2 \<subseteq> {?q2}" by blast
  from inference_do_sends [OF v3] obtain t3 where t3: "h3 = h2 @ map EvHTTP t3" "set t3 \<subseteq> {?q3}" "length t3 \<le> 1" by blast
  have "rq_Method ?q1 = MethodGet" "rq_Method ?q2 = MethodGet" by (simp_all add: inference_request_def)
  with t1 t2 have g: "filter (\<lambda>q. rq_Method q \<noteq> MethodGet) t1 = []" "filter (\<lambda>q. rq_Method q \<noteq> MethodGet) t2 = []"
    by (auto simp: filter_empty_conv)
  let ?flags = "\<lambda>a b d. \<lparr>ir_Healthy = a, ir_ModelVerified = b, ir_ToolCallVerified = d\<rparr>"
  from assms v1 v2 v3 consider
    (gets) "h' = h @ map EvHTTP [] \<or> h' = h @ map EvHTTP t1 \<or> h' = h @ map EvHTTP (t1 @ t2)" "\<exists>a. res = ?flags a False False" "err \<noteq> None"
    | (post) "h' = h3" "\<exists>d. res = ?flags True True d \<and> (err = None \<longleftrightarrow> d)"
    using t1(1) t2(1) by (auto simp: Verify_def Let_def split: if_splits option.splits sum.splits)
  then show ?thesis
  proof cases
    case gets
    then obtain t where "h' = h @ map EvHTTP t" "t = [] \<or> t = t1 \<or> t = t1 @ t2" by blast
    with gets(2,3) t1 t2 g show ?thesis by (intro exI [of _ t]) auto
  next
    case post
    have "length (filter (\<lambda>q. rq_Method q \<noteq> MethodGet) (t1 @ t2 @ t3)) \<le> 1"
      using order_trans [OF length_filter_le t3(3)] g by simp
    with post t1 t2 t3 show ?thesis by (intro exI [of _ "t1 @ t2 @ t3"]) auto
  qed
qed

text \<open>
  C35: the verification stays within its boundary. Whatever the peer answers, a client made by New for
  an Endpoint sends its token only to that Endpoint's path on api.runpod.ai; it submits at most one
  completion, and only after the health and the model check passed; the flags are reached in order,
  and the error is absent exactly when the readiness call was verified.
\<close>

theorem Verify_boundary:
  assumes "inference_New rid tok timeout [] = Inr c" "Verify E c model h = ((res, err), h')"
  shows "\<exists>t. h' = h @ map EvHTTP t
    \<and> (\<forall>q \<in> set t. \<exists>suffix. rq_URL (q :: http_request) = ''https://api.runpod.ai/v2/'' @ rid @ ''/'' @ suffix
         \<and> rq_Header q ! 0 = (''Authorization'', ''Bearer '' @ tok))
    \<and> length (filter (\<lambda>q. rq_Method q \<noteq> MethodGet) t) \<le> (if ir_ModelVerified res then 1 else 0)
    \<and> (ir_ToolCallVerified res \<longrightarrow> ir_ModelVerified res) \<and> (ir_ModelVerified res \<longrightarrow> ir_Healthy res)
    \<and> (err = None \<longleftrightarrow> ir_ToolCallVerified res)"
proof -
  from assms(1) have c: "ic_endpointID c = rid" "ic_token c = tok" "ic_baseURL c = inferenceBaseURL" "valid_id rid"
    by (auto simp: inference_New_def Let_def split: if_splits)
  then have esc: "PathEscape rid = rid" by (simp add: valid_id_PathEscape)
  have url: "TrimRight inferenceBaseURL (CHR ''/'') = ''https://api.runpod.ai''"
    by (simp add: TrimRight_def inferenceBaseURL_def)
  define ok where "ok q \<longleftrightarrow> (\<exists>suffix. rq_URL q = ''https://api.runpod.ai/v2/'' @ rid @ ''/'' @ suffix)
      \<and> rq_Header q ! 0 = (''Authorization'', ''Bearer '' @ tok)" for q :: http_request
  have "ok (inference_request c m (endpointPath c ''/health'') i)" "ok (inference_request c m (openAIPath c (CHR ''/'' # s)) i)" for m s i
    by (auto simp: ok_def inference_request_def endpointPath_def openAIPath_def c esc url)
  with Verify_trace [OF assms(2)] have "\<exists>t. h' = h @ map EvHTTP t \<and> (\<forall>q \<in> set t. ok q)
    \<and> length (filter (\<lambda>q. rq_Method q \<noteq> MethodGet) t) \<le> (if ir_ModelVerified res then 1 else 0)
    \<and> (ir_ToolCallVerified res \<longrightarrow> ir_ModelVerified res) \<and> (ir_ModelVerified res \<longrightarrow> ir_Healthy res)
    \<and> (err = None \<longleftrightarrow> ir_ToolCallVerified res)"
    by blast
  then show ?thesis unfolding ok_def by auto
qed

theorem Verify_boundary_witness:
  "\<exists>c res err h'. inference_New ''ep1'' ''tok'' (3 * Minute) [] = Inr c \<and> Verify passing_peer c ''m'' [] = ((res, err), h') \<and> err = None
     \<and> (\<exists>q. EvHTTP q \<in> set h' \<and> rq_Header q ! 0 = (''Authorization'', ''Bearer tok''))"
proof -
  have n: "inference_New ''ep1'' ''tok'' (3 * Minute) [] = Inr demo_inference_client" by code_simp
  obtain res h' where r: "Verify passing_peer demo_inference_client ''m'' [] = ((res, None), h')"
    using Verify_passing by (cases "Verify passing_peer demo_inference_client ''m'' []") auto
  have "h' \<noteq> []" using Verify_passing_trace r by auto
  with Verify_boundary [OF n r] n r show ?thesis by (force simp: neq_Nil_conv)
qed

end
