(* ===== verification/EndpointCheck.thy ===== *)
theory EndpointCheck
  imports Janitor Inference
begin

text \<open>
  \<open>internal/controller/endpointcheck/endpointcheck.go\<close>: the reconciler that admits an Endpoint for
  routing. One reconciliation reads the check, the Endpoint, its Template and the inference
  Secret, possibly probes the Endpoint, and writes the status. A result is a pair: whether to run
  again at once, and the delay after which to run again (0: none). \<open>r.now\<close> is nil in Setup, so the
  clock is the environment's.
\<close>

section \<open>Constants and types\<close>

definition pollInterval :: duration where
  "pollInterval = 30 * Second"

definition defaultVerificationInterval :: duration where
  "defaultVerificationInterval = Hour"

definition endpointReconcileRequestAnnotation :: string where
  "endpointReconcileRequestAnnotation = ''crossplane.io/reconcile-requested-at''"

definition workerObservationHandshake :: duration where
  "workerObservationHandshake = 30 * Second"

definition RouterDrainFinalizer :: string where
  "RouterDrainFinalizer = ''router.runpod.crossplane.io/drain''"

record endpoint_binding =
  eb_id :: string
  eb_resourceUID :: string
  eb_resourceGeneration :: int64
  eb_version :: int32
  eb_expiresAt :: gotime
  eb_templateUID :: string
  eb_templateGeneration :: int64
  eb_templateImage :: string
  eb_workerProven :: bool
  eb_workerObservedAt :: gotime

definition zero_binding :: endpoint_binding where
  "zero_binding = \<lparr>eb_id = [], eb_resourceUID = [], eb_resourceGeneration = 0, eb_version = 0, eb_expiresAt = 0, eb_templateUID = [],
     eb_templateGeneration = 0, eb_templateImage = [], eb_workerProven = False, eb_workerObservedAt = 0\<rparr>"

definition zero_result :: inference_result where
  "zero_result = \<lparr>ir_Healthy = False, ir_ModelVerified = False, ir_ToolCallVerified = False\<rparr>"

type_synonym check_result = "(bool \<times> duration) result \<times> trace"

section \<open>Pure helpers\<close>

definition minDuration :: "duration \<Rightarrow> duration \<Rightarrow> duration" where
  "minDuration a b = (if dur_less a b then a else b)"

definition nextPoll :: "gotime \<Rightarrow> gotime \<Rightarrow> duration" where
  "nextPoll expiresAt now =
     (let remaining = SubTime expiresAt now
      in if sint remaining \<le> 0 then Second else if dur_less remaining pollInterval then remaining else pollInterval)"

definition inferenceURL :: "string \<Rightarrow> string" where
  "inferenceURL endpointID = (if endpointID = [] then [] else ''https://api.runpod.ai/v2/'' @ endpointID @ ''/openai/v1'')"

definition check_observation_of :: "endpoint_binding \<Rightarrow> inference_result \<Rightarrow> string \<Rightarrow> gotime \<Rightarrow> gotime \<Rightarrow> gotime \<Rightarrow> check_observation" where
  "check_observation_of binding result secretResourceVersion checkedAt attemptedAt verifiedAt =
     \<lparr>co_EndpointID = eb_id binding, co_EndpointResourceUID = eb_resourceUID binding,
      co_EndpointResourceGeneration = eb_resourceGeneration binding, co_EndpointVersion = Some (eb_version binding),
      co_TemplateResourceUID = eb_templateUID binding, co_TemplateResourceGeneration = eb_templateGeneration binding,
      co_TemplateImageDigest = eb_templateImage binding, co_Healthy = ir_Healthy result, co_ModelVerified = ir_ModelVerified result,
      co_ToolCallVerified = ir_ToolCallVerified result, co_InferenceURL = inferenceURL (eb_id binding),
      co_CredentialsSecretResourceVersion = secretResourceVersion, co_LastCheckedAt = checkedAt,
      co_LastVerificationAttemptAt = attemptedAt, co_LastVerifiedAt = verifiedAt\<rparr>"

text \<open>The status is about this generation, Endpoint revision, Template revision and Secret version.\<close>

definition same_revision :: "endpoint_check \<Rightarrow> endpoint_binding \<Rightarrow> string \<Rightarrow> bool" where
  "same_revision check binding secretResourceVersion \<longleftrightarrow>
     (let observed = ck_AtProvider check
      in \<not> (ck_ObservedGeneration check \<noteq> om_Generation (ck_Meta check) \<or>
            co_EndpointID observed \<noteq> eb_id binding \<or> co_EndpointResourceUID observed \<noteq> eb_resourceUID binding \<or>
            co_EndpointResourceGeneration observed \<noteq> eb_resourceGeneration binding \<or> co_EndpointVersion observed = None \<or>
            the (co_EndpointVersion observed) \<noteq> eb_version binding \<or>
            co_TemplateResourceUID observed \<noteq> eb_templateUID binding \<or>
            co_TemplateResourceGeneration observed \<noteq> eb_templateGeneration binding \<or>
            co_TemplateImageDigest observed \<noteq> eb_templateImage binding \<or>
            co_CredentialsSecretResourceVersion observed \<noteq> secretResourceVersion))"

definition verification_interval :: "endpoint_check \<Rightarrow> duration" where
  "verification_interval check =
     (let interval = secondsDuration (cp_VerificationIntervalSeconds (ck_ForProvider check))
      in if interval = 0 then defaultVerificationInterval else interval)"

definition fullVerificationDue :: "endpoint_check \<Rightarrow> endpoint_binding \<Rightarrow> string \<Rightarrow> gotime \<Rightarrow> bool" where
  "fullVerificationDue check binding secretResourceVersion now =
     (let observed = ck_AtProvider check
      in if \<not> same_revision check binding secretResourceVersion then True
         else if IsZero (co_LastVerificationAttemptAt observed) then True
         else let age = SubTime now (co_LastVerificationAttemptAt observed)
              in sint age < 0 \<or> dur_le (verification_interval check) age)"

definition verificationAdmitted :: "endpoint_check \<Rightarrow> endpoint_binding \<Rightarrow> string \<Rightarrow> bool" where
  "verificationAdmitted check binding secretResourceVersion \<longleftrightarrow>
     (let observed = ck_AtProvider check
      in same_revision check binding secretResourceVersion \<and>
         co_Healthy observed \<and> co_ModelVerified observed \<and> co_ToolCallVerified observed \<and> \<not> IsZero (co_LastVerifiedAt observed) \<and>
         eb_workerProven binding \<and> \<not> IsZero (co_LastVerificationAttemptAt observed) \<and>
         After (eb_workerObservedAt binding) (co_LastVerificationAttemptAt observed))"

text \<open>\<open>strings.Index\<close>: the position of the first occurrence.\<close>

fun Index :: "string \<Rightarrow> string \<Rightarrow> nat option" where
  "Index [] p = (if p = [] then Some 0 else None)"
| "Index (c # cs) p = (if HasPrefix (c # cs) p then Some 0 else map_option Suc (Index cs p))"

definition safeMessage :: "error \<Rightarrow> string" where
  "safeMessage err =
     (let full = error_text err; msg = (if length full > 256 then take 256 full else full)
      in case Index msg ''rpa_'' of None \<Rightarrow> msg | Some i \<Rightarrow> take i msg @ ''[REDACTED]'')"

definition check_deleting :: "endpoint_check \<Rightarrow> bool" where
  "check_deleting check \<longleftrightarrow> \<not> ptrIsZero (om_DeletionTimestamp (ck_Meta check))"

definition check_SetConditions :: "xp \<Rightarrow> condition list \<Rightarrow> endpoint_check \<Rightarrow> endpoint_check" where
  "check_SetConditions x cs check = check\<lparr>ck_Conditions := xp_SetConditions x cs (ck_Conditions check)\<rparr>"

section \<open>The text of an instant\<close>

text \<open>
  \<open>now.UTC().Format(time.RFC3339Nano)\<close>: the proleptic Gregorian date of the days since January 1 of
  year 1, the time of the day, and the fraction of the second without trailing zeros.
\<close>

definition leap_year :: "int \<Rightarrow> bool" where
  "leap_year y \<longleftrightarrow> y mod 4 = 0 \<and> (y mod 100 \<noteq> 0 \<or> y mod 400 = 0)"

fun month_day :: "int list \<Rightarrow> int \<Rightarrow> int \<Rightarrow> int \<times> int" where
  "month_day [] m d = (m, d + 1)"
| "month_day (n # ns) m d = (if d < n then (m, d + 1) else month_day ns (m + 1) (d - n))"

definition civil_date :: "int \<Rightarrow> int \<times> int \<times> int" where
  "civil_date days =
     (let n400 = days div 146097; r400 = days mod 146097; n100 = min 3 (r400 div 36524); r100 = r400 - n100 * 36524;
          n4 = r100 div 1461; r4 = r100 mod 1461; n1 = min 3 (r4 div 365); yday = r4 - n1 * 365;
          year = 400 * n400 + 100 * n100 + 4 * n4 + n1 + 1;
          (m, d) = month_day [31, if leap_year year then 29 else 28, 31, 30, 31, 30, 31, 31, 30, 31, 30] 1 yday
      in (year, m, d))"

definition pad :: "nat \<Rightarrow> int \<Rightarrow> string" where
  "pad width n = (let s = show_int n in replicate (width - length s) (CHR ''0'') @ s)"

definition fraction :: "int \<Rightarrow> string" where
  "fraction nanos = (if nanos = 0 then [] else ''.'' @ TrimRight (pad 9 nanos) (CHR ''0''))"

definition format_RFC3339Nano :: "gotime \<Rightarrow> string" where
  "format_RFC3339Nano t =
     (let nanos = t mod 1000000000; secs = t div 1000000000; (y, m, d) = civil_date (secs div 86400); s = secs mod 86400
      in pad 4 y @ ''-'' @ pad 2 m @ ''-'' @ pad 2 d @ ''T'' @ pad 2 (s div 3600) @ '':'' @ pad 2 (s div 60 mod 60) @ '':'' @
         pad 2 (s mod 60) @ fraction nanos @ ''Z'')"

section \<open>Resolving the Endpoint\<close>

definition endpoint_conditions_ready :: "xp \<Rightarrow> endpoint_cr \<Rightarrow> bool" where
  "endpoint_conditions_ready x ep \<longleftrightarrow>
     \<not> (deleting ep \<or> mg_ObservedGeneration ep \<noteq> om_Generation (mg_Meta ep) \<or>
        xp_GetCondition x (mg_Conditions ep) TypeReady \<noteq> ConditionTrue \<or>
        xp_GetCondition x (mg_Conditions ep) TypeSynced \<noteq> ConditionTrue)"

definition endpoint_binding_of :: "xp \<Rightarrow> endpoint_cr \<Rightarrow> int32 \<Rightarrow> template_cr \<Rightarrow> endpoint_binding" where
  "endpoint_binding_of x ep version template =
     \<lparr>eb_id = GetExternalName x ep, eb_resourceUID = om_UID (mg_Meta ep), eb_resourceGeneration = om_Generation (mg_Meta ep),
      eb_version = version, eb_expiresAt = expires_at ep, eb_templateUID = om_UID (mg_Meta template),
      eb_templateGeneration = om_Generation (mg_Meta template), eb_templateImage = tp_ImageName (tc_ForProvider template),
      eb_workerProven = WorkerSecurityEvidenceCurrent (ec_AtProvider ep),
      eb_workerObservedAt = eo_WorkerSecurityObservedAt (ec_AtProvider ep)\<rparr>"

definition template_current :: "xp \<Rightarrow> endpoint_cr \<Rightarrow> template_cr \<Rightarrow> bool" where
  "template_current x ep template \<longleftrightarrow>
     \<not> (deleting template \<or> mg_ObservedGeneration template \<noteq> om_Generation (mg_Meta template) \<or>
        xp_GetCondition x (mg_Conditions template) TypeReady \<noteq> ConditionTrue \<or>
        xp_GetCondition x (mg_Conditions template) TypeSynced \<noteq> ConditionTrue \<or>
        om_UID (mg_Meta template) \<noteq> eo_TemplateResourceUID (ec_AtProvider ep) \<or>
        om_Generation (mg_Meta template) \<noteq> eo_TemplateResourceGeneration (ec_AtProvider ep) \<or>
        tp_ImageName (tc_ForProvider template) \<noteq> eo_TemplateImageDigest (ec_AtProvider ep))"

definition resolve_template_part :: "env \<Rightarrow> xp \<Rightarrow> endpoint_cr \<Rightarrow> int32 \<Rightarrow> trace \<Rightarrow> endpoint_binding result \<times> trace" where
  "resolve_template_part E x ep version h =
     (case ep_TemplateIDRef (ec_ForProvider ep) of
        None \<Rightarrow> (Inl (Err ''referenced Endpoint has no managed Template reference''), h)
      | Some templateRef \<Rightarrow>
          (case get_Template E (om_Namespace (mg_Meta ep)) (ref_Name templateRef) h of
             (Inl _, h1) \<Rightarrow> (Inl (Err ''cannot resolve Endpoint Template revision''), h1)
           | (Inr template, h1) \<Rightarrow>
               if \<not> template_current x ep template
               then (Inl (Err ''referenced Endpoint is not bound to the current managed Template revision''), h1)
               else (let templateID = GetExternalName x template; created = om_CreationTimestamp (mg_Meta template);
                         templateExpiresAt = deadline created (tp_MaxLifetimeSeconds (tc_ForProvider template))
                     in if ValidateRunPodID templateID \<noteq> None \<or> templateID \<noteq> to_ID (tc_AtProvider template) \<or>
                           eo_TemplateID (ec_AtProvider ep) \<noteq> templateID
                        then (Inl (Err ''referenced Endpoint and Template external IDs are not controller-observed bindings''), h1)
                        else if IsZero created then (Inr (endpoint_binding_of x ep version template), h1)
                        else (case time_Now E h1 of
                                (now, h2) \<Rightarrow>
                                  if \<not> Before now templateExpiresAt then (Inl ErrEndpointLifetimeExpired, h2)
                                  else (Inr (endpoint_binding_of x ep version template), h2)))))"

definition resolve_ready_part :: "env \<Rightarrow> xp \<Rightarrow> endpoint_cr \<Rightarrow> trace \<Rightarrow> endpoint_binding result \<times> trace" where
  "resolve_ready_part E x ep h =
     (if \<not> endpoint_conditions_ready x ep then (Inl (Err ''referenced Endpoint is not Ready for its current generation''), h)
      else (case time_Now E h of
         (now, h1) \<Rightarrow>
           if \<not> FlashBootEvidenceCurrent (ec_AtProvider ep) now
           then (Inl (Err ''referenced Endpoint is not Ready for its current generation''), h1)
           else (case eo_Version (ec_AtProvider ep) of
                   None \<Rightarrow> (Inl (Err ''referenced Endpoint has no observed rollout version''), h1)
                 | Some version \<Rightarrow>
                     if ValidateRunPodID (GetExternalName x ep) \<noteq> None \<or> GetExternalName x ep \<noteq> eo_ID (ec_AtProvider ep)
                     then (Inl (Err ''referenced Endpoint external-name is not bound to its controller-observed ID''), h1)
                     else resolve_template_part E x ep version h1)))"

definition resolveEndpoint :: "env \<Rightarrow> xp \<Rightarrow> endpoint_check \<Rightarrow> trace \<Rightarrow> endpoint_binding result \<times> trace" where
  "resolveEndpoint E x check h =
     (case cp_EndpointIDRef (ck_ForProvider check) of
        None \<Rightarrow> (Inl (Err ''endpointIdRef is required; direct external endpoint IDs cannot prove the bounded Endpoint state''), h)
      | Some ref \<Rightarrow>
          (case get_Endpoint E (om_Namespace (ck_Meta check)) (ref_Name ref) h of
             (Inl _, h1) \<Rightarrow> (Inl (Err ''cannot resolve referenced Endpoint''), h1)
           | (Inr ep, h1) \<Rightarrow>
               (case time_Now E h1 of
                  (now, h2) \<Rightarrow>
                    if \<not> Before now (expires_at ep) then (Inl ErrEndpointLifetimeExpired, h2)
                    else resolve_ready_part E x ep h2)))"

section \<open>Writing the status\<close>

definition write_status :: "env \<Rightarrow> endpoint_check \<Rightarrow> duration \<Rightarrow> trace \<Rightarrow> check_result" where
  "write_status E check requeueAfter h =
     (case kube_Write E (EvStatusUpdateCheck check) h of
        (Some err, h1) \<Rightarrow> (Inl err, h1)
      | (None, h1) \<Rightarrow> (Inr (False, requeueAfter), h1))"

definition unavailable :: "xp \<Rightarrow> error \<Rightarrow> endpoint_check \<Rightarrow> endpoint_check" where
  "unavailable x cause check = check_SetConditions x [Unavailable (error_text cause), ReconcileError cause] check"

definition available :: "xp \<Rightarrow> endpoint_check \<Rightarrow> endpoint_check" where
  "available x check = check_SetConditions x [Available, ReconcileSuccess] check"

definition check_fail :: "env \<Rightarrow> xp \<Rightarrow> endpoint_check \<Rightarrow> inference_result \<Rightarrow> error \<Rightarrow> gotime \<Rightarrow> gotime \<Rightarrow> trace \<Rightarrow> check_result" where
  "check_fail E x check result cause now expiresAt h =
     write_status E (unavailable x (Err (safeMessage cause))
       (check\<lparr>ck_AtProvider := check_observation_of zero_binding result [] now 0 0, ck_ObservedGeneration := om_Generation (ck_Meta check)\<rparr>))
       (nextPoll expiresAt now) h"

definition failVerification :: "env \<Rightarrow> xp \<Rightarrow> endpoint_check \<Rightarrow> inference_result \<Rightarrow> error \<Rightarrow> endpoint_binding \<Rightarrow> string \<Rightarrow> gotime \<Rightarrow> gotime \<Rightarrow> trace \<Rightarrow> check_result" where
  "failVerification E x check result cause binding secretResourceVersion now expiresAt h =
     write_status E (unavailable x (Err (safeMessage cause))
       (check\<lparr>ck_AtProvider := check_observation_of binding result secretResourceVersion now now 0, ck_ObservedGeneration := om_Generation (ck_Meta check)\<rparr>))
       (nextPoll expiresAt now) h"

definition failLiveness :: "env \<Rightarrow> xp \<Rightarrow> endpoint_check \<Rightarrow> error \<Rightarrow> gotime \<Rightarrow> gotime \<Rightarrow> trace \<Rightarrow> check_result" where
  "failLiveness E x check cause now expiresAt h =
     write_status E (unavailable x (Err (safeMessage cause))
       (check\<lparr>ck_AtProvider := (ck_AtProvider check)\<lparr>co_LastCheckedAt := now\<rparr>, ck_ObservedGeneration := om_Generation (ck_Meta check)\<rparr>))
       (nextPoll expiresAt now) h"

definition requestEndpointObservation :: "env \<Rightarrow> endpoint_check \<Rightarrow> gotime \<Rightarrow> trace \<Rightarrow> error ptr \<times> trace" where
  "requestEndpointObservation E check now h =
     (case cp_EndpointIDRef (ck_ForProvider check) of
        None \<Rightarrow> (Some (Err ''endpointIdRef is required''), h)
      | Some ref \<Rightarrow>
          (case get_Endpoint E (om_Namespace (ck_Meta check)) (ref_Name ref) h of
             (Inl _, h1) \<Rightarrow> (Some (Err ''cannot read Endpoint for worker observation request''), h1)
           | (Inr before, h1) \<Rightarrow>
               (case kube_Write E (EvPatchEndpoint before
                       (update_annotations (\<lambda>m. m(endpointReconcileRequestAnnotation \<mapsto> format_RFC3339Nano now)) before)) h1 of
                  (Some _, h2) \<Rightarrow> (Some (Err ''cannot annotate Endpoint for worker observation''), h2)
                | (None, h2) \<Rightarrow> (None, h2))))"

section \<open>Reconcile\<close>

definition bind_status :: "endpoint_binding \<Rightarrow> gotime \<Rightarrow> endpoint_check \<Rightarrow> endpoint_check" where
  "bind_status binding now check =
     check\<lparr>ck_AtProvider := (ck_AtProvider check)
         \<lparr>co_EndpointID := eb_id binding, co_EndpointResourceUID := eb_resourceUID binding,
          co_EndpointResourceGeneration := eb_resourceGeneration binding, co_EndpointVersion := Some (eb_version binding),
          co_InferenceURL := inferenceURL (eb_id binding), co_LastCheckedAt := now\<rparr>,
       ck_ObservedGeneration := om_Generation (ck_Meta check)\<rparr>"

text \<open>The cheap branch: a health request, then the verdict of the recorded verification.\<close>

definition check_liveness :: "env \<Rightarrow> xp \<Rightarrow> endpoint_check \<Rightarrow> endpoint_binding \<Rightarrow> string \<Rightarrow> string \<Rightarrow> duration \<Rightarrow> gotime \<Rightarrow> gotime \<Rightarrow> trace \<Rightarrow> check_result" where
  "check_liveness E x check binding secretResourceVersion token timeout now expiresAt h =
     (case inference_New (eb_id binding) token timeout [] of
        Inl err \<Rightarrow> check_fail E x check zero_result err now expiresAt h
      | Inr v \<Rightarrow>
          (case CheckHealth E v h of
             (Some _, h1) \<Rightarrow> failLiveness E x check (Err ''authenticated endpoint liveness check failed'') now expiresAt h1
           | (None, h1) \<Rightarrow>
               (let check' = bind_status binding now check
                in write_status E
                     (if verificationAdmitted check' binding secretResourceVersion then available x check'
                      else unavailable x (Err ''full verification retry interval has not elapsed'') check')
                     (nextPoll expiresAt now) h1)))"

text \<open>The billable branch.\<close>

definition check_verify :: "env \<Rightarrow> xp \<Rightarrow> endpoint_check \<Rightarrow> endpoint_binding \<Rightarrow> string \<Rightarrow> string \<Rightarrow> duration \<Rightarrow> gotime \<Rightarrow> gotime \<Rightarrow> trace \<Rightarrow> check_result" where
  "check_verify E x check binding secretResourceVersion token timeout now expiresAt h =
     (case inference_New (eb_id binding) token timeout [] of
        Inl err \<Rightarrow> check_fail E x check zero_result err now expiresAt h
      | Inr v \<Rightarrow>
          (case Verify E v (cp_ExpectedModelID (ck_ForProvider check)) h of
             ((result, Some err), h1) \<Rightarrow> failVerification E x check result err binding secretResourceVersion now expiresAt h1
           | ((result, None), h1) \<Rightarrow>
               (let check' = check\<lparr>ck_AtProvider := check_observation_of binding result secretResourceVersion now now now,
                                   ck_ObservedGeneration := om_Generation (ck_Meta check)\<rparr>;
                    check'' = (if eb_workerProven binding then available x check'
                               else unavailable x (Err ''authenticated verification passed; awaiting a directly observed bounded active worker'') check')
                in case kube_Write E (EvStatusUpdateCheck check'') h1 of
                     (Some err, h2) \<Rightarrow> (Inl err, h2)
                   | (None, h2) \<Rightarrow>
                       if \<not> eb_workerProven binding then
                         (case requestEndpointObservation E check'' now h2 of
                            (Some err, h3) \<Rightarrow> (Inl err, h3)
                          | (None, h3) \<Rightarrow> (Inr (False, minDuration (2 * Second) (SubTime expiresAt now)), h3))
                       else (Inr (False, nextPoll expiresAt now), h2))))"

definition workerAdmissionPending :: "xp \<Rightarrow> endpoint_check \<Rightarrow> bool" where
  "workerAdmissionPending x check \<longleftrightarrow>
     ck_ObservedGeneration check = om_Generation (ck_Meta check) \<and>
     xp_GetCondition x (ck_Conditions check) TypeReady \<noteq> ConditionTrue \<and>
     co_Healthy (ck_AtProvider check) \<and> co_ModelVerified (ck_AtProvider check) \<and> co_ToolCallVerified (ck_AtProvider check) \<and>
     \<not> IsZero (co_LastVerifiedAt (ck_AtProvider check))"

text \<open>The handshake with the Endpoint controller; \<open>None\<close> falls through to the branches below it.\<close>

definition check_handshake :: "env \<Rightarrow> xp \<Rightarrow> endpoint_check \<Rightarrow> endpoint_binding \<Rightarrow> bool \<Rightarrow> gotime \<Rightarrow> gotime \<Rightarrow> trace \<Rightarrow> check_result option" where
  "check_handshake E x check binding verificationDue now expiresAt h =
     (let attempted = co_LastVerificationAttemptAt (ck_AtProvider check)
      in if eb_workerProven binding \<and> After (eb_workerObservedAt binding) attempted then
           Some (write_status E (available x (check\<lparr>ck_AtProvider := (ck_AtProvider check)\<lparr>co_LastCheckedAt := now\<rparr>\<rparr>)) (nextPoll expiresAt now) h)
         else if dur_le (SubTime now attempted) workerObservationHandshake then
           Some (case requestEndpointObservation E check now h of
                   (Some _, h1) \<Rightarrow> failLiveness E x check (Err ''cannot request post-verification worker observation'') now expiresAt h1
                 | (None, h1) \<Rightarrow> (Inr (False, minDuration (2 * Second) (SubTime expiresAt now)), h1))
         else if \<not> verificationDue then Some (Inr (False, nextPoll expiresAt now), h)
         else None)"

definition check_with_token :: "env \<Rightarrow> xp \<Rightarrow> endpoint_check \<Rightarrow> endpoint_binding \<Rightarrow> string \<Rightarrow> string \<Rightarrow> gotime \<Rightarrow> gotime \<Rightarrow> trace \<Rightarrow> check_result" where
  "check_with_token E x check binding secretResourceVersion token now expiresAt h =
     (let timeout = (let t = secondsDuration (cp_TimeoutSeconds (ck_ForProvider check)) in if t = 0 then 3 * Minute else t);
          verificationDue = fullVerificationDue check binding secretResourceVersion now
      in case (if workerAdmissionPending x check \<and> co_CredentialsSecretResourceVersion (ck_AtProvider check) = secretResourceVersion \<and>
                  verificationAdmitted check binding secretResourceVersion
               then check_handshake E x check binding verificationDue now expiresAt h else None) of
           Some r \<Rightarrow> r
         | None \<Rightarrow>
             if \<not> verificationDue then check_liveness E x check binding secretResourceVersion token timeout now expiresAt h
             else check_verify E x check binding secretResourceVersion token timeout now expiresAt h)"

definition check_secret :: "env \<Rightarrow> xp \<Rightarrow> endpoint_check \<Rightarrow> endpoint_binding \<Rightarrow> gotime \<Rightarrow> gotime \<Rightarrow> trace \<Rightarrow> check_result" where
  "check_secret E x check binding now expiresAt h =
     (let ref = cp_InferenceCredentialsSecretRef (ck_ForProvider check)
      in case get_Secret E (om_Namespace (ck_Meta check)) (sks_Name ref) h of
           (Inl _, h1) \<Rightarrow> check_fail E x check zero_result (Err ''cannot read inference credential Secret'') now expiresAt h1
         | (Inr secret, h1) \<Rightarrow>
             (case RequirePurpose (Some secret) PurposeInference of
                Some err \<Rightarrow> check_fail E x check zero_result err now expiresAt h1
              | None \<Rightarrow>
                  (case sec_Data secret (sks_Key ref) of
                     None \<Rightarrow> check_fail E x check zero_result (Err ''inference credential Secret key is absent'') now expiresAt h1
                   | Some token \<Rightarrow> check_with_token E x check binding (sec_ResourceVersion secret) token now expiresAt h1)))"

definition check_bound :: "env \<Rightarrow> xp \<Rightarrow> endpoint_check \<Rightarrow> endpoint_binding \<Rightarrow> gotime \<Rightarrow> gotime \<Rightarrow> trace \<Rightarrow> check_result" where
  "check_bound E x check binding now expiresAt0 h =
     (let expiresAt = (if Before (eb_expiresAt binding) expiresAt0 then eb_expiresAt binding else expiresAt0);
          next = AddDuration (co_LastCheckedAt (ck_AtProvider check)) pollInterval
      in if ck_ObservedGeneration check = om_Generation (ck_Meta check) \<and> \<not> IsZero (co_LastCheckedAt (ck_AtProvider check)) \<and>
            \<not> workerAdmissionPending x check \<and> Before now next
         then (Inr (False, minDuration (SubTime next now) (SubTime expiresAt now)), h)
         else check_secret E x check binding now expiresAt h)"

definition delete_check :: "env \<Rightarrow> endpoint_check \<Rightarrow> trace \<Rightarrow> check_result" where
  "delete_check E check h =
     (case kube_Write E (EvDelete KEndpointCheck (om_Namespace (ck_Meta check)) (om_Name (ck_Meta check))) h of
        (Some err, h1) \<Rightarrow> (Inl err, h1)
      | (None, h1) \<Rightarrow> (Inr (False, 0), h1))"

definition check_expires_at :: "endpoint_check \<Rightarrow> gotime" where
  "check_expires_at check =
     AddDuration (om_CreationTimestamp (ck_Meta check)) (secondsDuration (cp_MaxLifetimeSeconds (ck_ForProvider check)))"

definition check_live :: "env \<Rightarrow> xp \<Rightarrow> endpoint_check \<Rightarrow> trace \<Rightarrow> check_result" where
  "check_live E x check h =
     (case time_Now E h of
        (now, h1) \<Rightarrow>
          if \<not> Before now (check_expires_at check) then delete_check E check h1
          else (case resolveEndpoint E x check h1 of
                  (Inl err, h2) \<Rightarrow>
                    if errors_Is err ErrEndpointLifetimeExpired then delete_check E check h2
                    else check_fail E x check zero_result err now (check_expires_at check) h2
                | (Inr binding, h2) \<Rightarrow> check_bound E x check binding now (check_expires_at check) h2))"

definition check_Reconcile :: "env \<Rightarrow> xp \<Rightarrow> string \<Rightarrow> string \<Rightarrow> trace \<Rightarrow> check_result" where
  "check_Reconcile E x ns name h =
     (case get_EndpointCheck E ns name h of
        (Inl err, h1) \<Rightarrow> (if IsNotFound err then Inr (False, 0) else Inl err, h1)
      | (Inr check, h1) \<Rightarrow>
          if check_deleting check then (Inr (False, 0), h1)
          else if \<not> contains (om_Finalizers (ck_Meta check)) RouterDrainFinalizer then
            (case kube_Write E (EvUpdateCheck
                    (check\<lparr>ck_Meta := (ck_Meta check)\<lparr>om_Finalizers := om_Finalizers (ck_Meta check) @ [RouterDrainFinalizer]\<rparr>\<rparr>)) h1 of
               (Some err, h2) \<Rightarrow> (Inl err, h2)
             | (None, h2) \<Rightarrow> (Inr (True, 0), h2))
          else check_live E x check h1)"

section \<open>Helper lemmas\<close>

text \<open>
  What is documented of the conditions and used below: setting a condition replaces the one of its
  type, so the Ready status read back is the one just set.
\<close>

definition xp_condition_laws :: "xp \<Rightarrow> bool" where
  "xp_condition_laws x \<longleftrightarrow>
     (\<forall>m e old. xp_GetCondition x (xp_SetConditions x [Unavailable m, ReconcileError e] old) TypeReady = ConditionFalse)
   \<and> (\<forall>old. xp_GetCondition x (xp_SetConditions x [Available, ReconcileSuccess] old) TypeReady = ConditionTrue)"

lemma xp_condition_laws_plain: "xp_condition_laws xp_plain"
proof -
  have "find (\<lambda>c. cond_type c = TypeReady) (filter (\<lambda>c. TypeReady \<noteq> cond_type c \<and> TypeSynced \<noteq> cond_type c) old @ [c, d]) = Some c"
    if "cond_type c = TypeReady" for c d old
    using that by (induction old) auto
  then show ?thesis by (simp add: xp_condition_laws_def xp_plain_def)
qed

definition ready_status :: "xp \<Rightarrow> endpoint_check \<Rightarrow> bool" where
  "ready_status x check \<longleftrightarrow> xp_GetCondition x (ck_Conditions check) TypeReady = ConditionTrue"

lemma unavailable_not_ready: "xp_condition_laws x \<Longrightarrow> \<not> ready_status x (unavailable x e check)"
  by (simp add: ready_status_def unavailable_def check_SetConditions_def xp_condition_laws_def)

lemma available_ready: "xp_condition_laws x \<Longrightarrow> ready_status x (available x check)"
  by (simp add: ready_status_def available_def check_SetConditions_def xp_condition_laws_def)

lemma set_conditions_frame [simp]:
  "ck_AtProvider (available x check) = ck_AtProvider check" "ck_AtProvider (unavailable x e check) = ck_AtProvider check"
  "ck_ObservedGeneration (available x check) = ck_ObservedGeneration check"
  "ck_ObservedGeneration (unavailable x e check) = ck_ObservedGeneration check"
  "ck_Meta (available x check) = ck_Meta check" "ck_Meta (unavailable x e check) = ck_Meta check"
  "ck_ForProvider (available x check) = ck_ForProvider check" "ck_ForProvider (unavailable x e check) = ck_ForProvider check"
  by (simp_all add: available_def unavailable_def check_SetConditions_def)

lemma bind_status_frame [simp]:
  "ck_Meta (bind_status b now check) = ck_Meta check" "ck_ForProvider (bind_status b now check) = ck_ForProvider check"
  "ck_ObservedGeneration (bind_status b now check) = om_Generation (ck_Meta check)"
  by (simp_all add: bind_status_def)

text \<open>Events that neither call an Endpoint nor change a check's metadata nor report it as Ready.\<close>

definition inert :: "xp \<Rightarrow> event \<Rightarrow> bool" where
  "inert x ev \<longleftrightarrow> http_of ev = None \<and> (\<forall>check. ev \<noteq> EvUpdateCheck check) \<and>
     (\<forall>check. ev = EvStatusUpdateCheck check \<longrightarrow> \<not> ready_status x check)"

lemma inert_simps [simp]:
  "inert x (EvGet k ns n)" "inert x EvClock" "inert x (EvDelete k ns n)" "inert x (EvPatchEndpoint a b)"
  "\<not> inert x (EvHTTP q)" "\<not> inert x (EvUpdateCheck c)" "inert x (EvStatusUpdateCheck c) \<longleftrightarrow> \<not> ready_status x c"
  by (simp_all add: inert_def)

lemma inert_posts: "list_all (inert x) ws \<Longrightarrow> posts ws = []"
  by (induction ws) (auto simp: posts_def inert_def split: option.splits event.splits elim: mutation_of.elims)

lemma write_status_effect: "write_status E check d h = (r, h') \<Longrightarrow> h' = h @ [EvStatusUpdateCheck check]"
  by (auto simp: write_status_def kube_Write_def split: option.splits)

text \<open>A run that adds inert events only.\<close>

definition inertly :: "xp \<Rightarrow> trace \<Rightarrow> trace \<Rightarrow> bool" where
  "inertly x h h' \<longleftrightarrow> (\<exists>ws. h' = h @ ws \<and> list_all (inert x) ws)"

lemma inertly_refl [simp, intro]: "inertly x h h"
  by (simp add: inertly_def)

lemma inertly_step: "inertly x h h1 \<Longrightarrow> inert x ev \<Longrightarrow> inertly x h (h1 @ [ev])"
  by (auto simp: inertly_def)

lemma inertly_snoc [simp]: "inert x ev \<Longrightarrow> inertly x h (h @ [ev])"
  by (auto simp: inertly_def)

lemma inertly_trans: "inertly x h h1 \<Longrightarrow> inertly x h1 h2 \<Longrightarrow> inertly x h h2"
  by (auto simp: inertly_def)

lemma check_fail_inert:
  "check_fail E x check res e now t h = (r, h') \<Longrightarrow> xp_condition_laws x \<Longrightarrow> inertly x h h'"
  by (auto simp: check_fail_def unavailable_not_ready dest!: write_status_effect)

lemma failVerification_inert:
  "failVerification E x check res e b v now t h = (r, h') \<Longrightarrow> xp_condition_laws x \<Longrightarrow> inertly x h h'"
  by (auto simp: failVerification_def unavailable_not_ready dest!: write_status_effect)

lemma failLiveness_inert:
  "failLiveness E x check e now t h = (r, h') \<Longrightarrow> xp_condition_laws x \<Longrightarrow> inertly x h h'"
  by (auto simp: failLiveness_def unavailable_not_ready dest!: write_status_effect)

lemma delete_check_inert: "delete_check E check h = (r, h') \<Longrightarrow> inertly x h h'"
  by (auto simp: delete_check_def kube_Write_def split: option.splits)

lemma requestEndpointObservation_inert: "requestEndpointObservation E check now h = (r, h') \<Longrightarrow> inertly x h h'"
  by (auto simp: requestEndpointObservation_def world_defs inertly_def split: option.splits sum.splits)

text \<open>A trace that only reads of objects, lists and the clock extend.\<close>

fun read_event :: "event \<Rightarrow> bool" where
  "read_event (EvGet _ _ _) = True"
| "read_event (EvList _ _) = True"
| "read_event EvClock = True"
| "read_event _ = False"

definition reads :: "trace \<Rightarrow> trace \<Rightarrow> bool" where
  "reads h h' \<longleftrightarrow> (\<exists>evs. h' = h @ evs \<and> list_all read_event evs)"

lemma reads_refl [simp]: "reads h h"
  by (simp add: reads_def)

lemma reads_trans [trans]: "reads h h1 \<Longrightarrow> reads h1 h2 \<Longrightarrow> reads h h2"
  by (force simp: reads_def)

lemma reads_append [simp]: "reads h (h @ evs) \<longleftrightarrow> list_all read_event evs"
  by (simp add: reads_def)

lemma reads_from: "reads (h @ evs) h' \<Longrightarrow> list_all read_event evs \<Longrightarrow> reads h h'"
  by (auto simp: reads_def)

lemma reads_until: "reads h h' \<Longrightarrow> list_all read_event evs \<Longrightarrow> reads h (h' @ evs)"
  by (auto simp: reads_def)

text \<open>
  What a resolved binding says: which objects were read, in which order, and what the code requires
  of each. The Endpoint is the one the check refers to, read first; the Template is the one this
  Endpoint refers to, read after the two readings of the clock.
\<close>

definition reads_binding :: "env \<Rightarrow> endpoint_check \<Rightarrow> trace \<Rightarrow> trace \<Rightarrow> endpoint_cr \<Rightarrow> template_cr \<Rightarrow> bool" where
  "reads_binding E check h h' ep template \<longleftrightarrow>
     (\<exists>ref tref. cp_EndpointIDRef (ck_ForProvider check) = Some ref \<and> ep_TemplateIDRef (ec_ForProvider ep) = Some tref
        \<and> (let ns = om_Namespace (ck_Meta check); h1 = h @ [EvGet KEndpoint ns (ref_Name ref)]; h2 = h1 @ [EvClock, EvClock];
               tns = om_Namespace (mg_Meta ep); h3 = h2 @ [EvGet KTemplate tns (ref_Name tref)];
               created = om_CreationTimestamp (mg_Meta template); seconds = tp_MaxLifetimeSeconds (tc_ForProvider template)
           in env_GetEndpoint E h ns (ref_Name ref) = Inr ep \<and> env_Now E h1 < expires_at ep
              \<and> FlashBootEvidenceCurrent (ec_AtProvider ep) (env_Now E (h1 @ [EvClock]))
              \<and> env_GetTemplate E h2 tns (ref_Name tref) = Inr template
              \<and> (if created = 0 then h' = h3
                 else env_Now E h3 < AddDuration created (secondsDuration seconds) \<and> h' = h3 @ [EvClock])))"

text \<open>A managed object that is live and that its controller has reported Ready for its generation.\<close>

definition current_object :: "xp \<Rightarrow> 'a managed_scheme \<Rightarrow> bool" where
  "current_object x cr \<longleftrightarrow>
     om_DeletionTimestamp (mg_Meta cr) \<in> {None, Some 0} \<and> mg_ObservedGeneration cr = om_Generation (mg_Meta cr)
   \<and> xp_GetCondition x (mg_Conditions cr) TypeReady = ConditionTrue \<and> xp_GetCondition x (mg_Conditions cr) TypeSynced = ConditionTrue"

text \<open>The Endpoint's status is bound to this revision of the Template, by identifiers the controllers observed.\<close>

definition bound_revision :: "xp \<Rightarrow> endpoint_cr \<Rightarrow> template_cr \<Rightarrow> bool" where
  "bound_revision x ep template \<longleftrightarrow>
     om_UID (mg_Meta template) = eo_TemplateResourceUID (ec_AtProvider ep)
   \<and> om_Generation (mg_Meta template) = eo_TemplateResourceGeneration (ec_AtProvider ep)
   \<and> tp_ImageName (tc_ForProvider template) = eo_TemplateImageDigest (ec_AtProvider ep)
   \<and> valid_id (GetExternalName x ep) \<and> GetExternalName x ep = eo_ID (ec_AtProvider ep)
   \<and> valid_id (GetExternalName x template) \<and> GetExternalName x template = to_ID (tc_AtProvider template)
   \<and> GetExternalName x template = eo_TemplateID (ec_AtProvider ep) \<and> eo_Version (ec_AtProvider ep) \<noteq> None"

definition bound_endpoint :: "env \<Rightarrow> xp \<Rightarrow> endpoint_check \<Rightarrow> trace \<Rightarrow> trace \<Rightarrow> endpoint_cr \<Rightarrow> template_cr \<Rightarrow> bool" where
  "bound_endpoint E x check h h' ep template \<longleftrightarrow>
     reads_binding E check h h' ep template \<and> current_object x ep \<and> current_object x template \<and> bound_revision x ep template"

lemma ptrIsZero_iff: "ptrIsZero p \<longleftrightarrow> p \<in> {None, Some 0}"
  by (auto simp: ptrIsZero_def IsZero_def split: option.splits)

lemma endpoint_conditions_current: "endpoint_conditions_ready x ep \<longleftrightarrow> current_object x ep"
  by (auto simp: endpoint_conditions_ready_def current_object_def deleting_def ptrIsZero_iff)

lemma resolve_template_part_inert: "resolve_template_part E x ep v h = (r, h') \<Longrightarrow> inertly x h h'"
  by (auto simp: resolve_template_part_def world_defs Let_def inertly_def split: option.splits sum.splits if_splits)

lemma resolve_template_part_bound:
  assumes "resolve_template_part E x ep v h = (Inr b, h')"
  obtains tref template where "ep_TemplateIDRef (ec_ForProvider ep) = Some tref"
    "env_GetTemplate E h (om_Namespace (mg_Meta ep)) (ref_Name tref) = Inr template" "template_current x ep template"
    "valid_id (GetExternalName x template)" "GetExternalName x template = to_ID (tc_AtProvider template)"
    "GetExternalName x template = eo_TemplateID (ec_AtProvider ep)" "b = endpoint_binding_of x ep v template"
    "let h3 = h @ [EvGet KTemplate (om_Namespace (mg_Meta ep)) (ref_Name tref)]; created = om_CreationTimestamp (mg_Meta template)
     in if created = 0 then h' = h3
        else env_Now E h3 < AddDuration created (secondsDuration (tp_MaxLifetimeSeconds (tc_ForProvider template))) \<and> h' = h3 @ [EvClock]"
  using assms by (auto simp: resolve_template_part_def world_defs Let_def IsZero_def Before_def deadline_def
      split: option.splits sum.splits if_splits)

lemma resolveEndpoint_inert: "resolveEndpoint E x check h = (r, h') \<Longrightarrow> inertly x h h'"
  by (auto simp: resolveEndpoint_def resolve_ready_part_def world_defs split: option.splits sum.splits if_splits
      dest!: resolve_template_part_inert intro: inertly_trans [rotated] simp: inertly_def)

lemma resolveEndpoint_bound:
  assumes "resolveEndpoint E x check h = (Inr binding, h')"
  obtains ep v template where "bound_endpoint E x check h h' ep template" "eo_Version (ec_AtProvider ep) = Some v"
    "binding = endpoint_binding_of x ep v template"
proof -
  from assms obtain ref ep v h1 where r: "cp_EndpointIDRef (ck_ForProvider check) = Some ref"
    "env_GetEndpoint E h (om_Namespace (ck_Meta check)) (ref_Name ref) = Inr ep"
    "h1 = h @ [EvGet KEndpoint (om_Namespace (ck_Meta check)) (ref_Name ref)]" "env_Now E h1 < expires_at ep"
    "current_object x ep" "FlashBootEvidenceCurrent (ec_AtProvider ep) (env_Now E (h1 @ [EvClock]))"
    "eo_Version (ec_AtProvider ep) = Some v" "valid_id (GetExternalName x ep)" "GetExternalName x ep = eo_ID (ec_AtProvider ep)"
    "resolve_template_part E x ep v (h1 @ [EvClock, EvClock]) = (Inr binding, h')"
    by (auto simp: resolveEndpoint_def resolve_ready_part_def world_defs Before_def endpoint_conditions_current split: option.splits sum.splits if_splits)
  from resolve_template_part_bound [OF r(10)] obtain tref template where
    t: "ep_TemplateIDRef (ec_ForProvider ep) = Some tref"
    "env_GetTemplate E (h1 @ [EvClock, EvClock]) (om_Namespace (mg_Meta ep)) (ref_Name tref) = Inr template" "template_current x ep template"
    "valid_id (GetExternalName x template)" "GetExternalName x template = to_ID (tc_AtProvider template)"
    "GetExternalName x template = eo_TemplateID (ec_AtProvider ep)" "binding = endpoint_binding_of x ep v template"
    "let h3 = (h1 @ [EvClock, EvClock]) @ [EvGet KTemplate (om_Namespace (mg_Meta ep)) (ref_Name tref)]; created = om_CreationTimestamp (mg_Meta template)
     in if created = 0 then h' = h3
        else env_Now E h3 < AddDuration created (secondsDuration (tp_MaxLifetimeSeconds (tc_ForProvider template))) \<and> h' = h3 @ [EvClock]" .
  have c: "current_object x template" "bound_revision x ep template"
    using t(3-6) r(7-9) by (auto simp: template_current_def current_object_def bound_revision_def deleting_def ptrIsZero_iff)
  have "reads_binding E check h h' ep template"
    unfolding reads_binding_def using r(1-4,6) t(1,2,8) by (intro exI [of _ ref] exI [of _ tref]) (simp add: Let_def)
  with c r(5) that [of ep template v, OF _ r(7) t(7)] show thesis by (simp add: bound_endpoint_def)
qed

text \<open>A resolution only reads.\<close>

lemma bound_endpoint_reads: "bound_endpoint E x check h h' ep template \<Longrightarrow> reads h h'"
  by (auto simp: bound_endpoint_def reads_binding_def Let_def split: if_splits)

lemma check_live_cases:
  assumes "check_live E x check h = (r, h')"
  obtains (delete) h0 where "delete_check E check h0 = (r, h')" "inertly x h h0"
  | (fail) e t h0 where "check_fail E x check zero_result e (env_Now E h) t h0 = (r, h')" "inertly x h h0"
  | (bound) b t h0 where "env_Now E h < check_expires_at check" "resolveEndpoint E x check (h @ [EvClock]) = (Inr b, h0)"
      "inertly x h h0" "check_bound E x check b (env_Now E h) t h0 = (r, h')"
proof (cases "env_Now E h < check_expires_at check")
  case True
  obtain q h2 where q: "resolveEndpoint E x check (h @ [EvClock]) = (q, h2)" by fastforce
  have i: "inertly x h h2" using inertly_trans [OF inertly_snoc resolveEndpoint_inert [OF q]] by simp
  note live = assms q True
  show thesis
  proof (cases q)
    case (Inl e)
    with live have "(if errors_Is e ErrEndpointLifetimeExpired then delete_check E check h2
        else check_fail E x check zero_result e (env_Now E h) (check_expires_at check) h2) = (r, h')"
      by (simp add: check_live_def time_Now_def Before_def)
    with i show thesis using delete fail by (cases "errors_Is e ErrEndpointLifetimeExpired") simp_all
  next
    case (Inr b)
    with live have "check_bound E x check b (env_Now E h) (check_expires_at check) h2 = (r, h')"
      by (simp add: check_live_def time_Now_def Before_def)
    with bound [OF True _ i] q Inr show thesis by simp
  qed
next
  case False
  with assms have "delete_check E check (h @ [EvClock]) = (r, h')" by (simp add: check_live_def time_Now_def Before_def)
  then show thesis using delete by simp
qed

lemma check_bound_cases:
  assumes "check_bound E x check b now t0 h = (r, h')"
  obtains (wait) "h' = h"
  | (fail) e t h0 where "check_fail E x check zero_result e now t h0 = (r, h')" "inertly x h h0"
  | (token) secret tok t h0 where
      "env_GetSecret E h (om_Namespace (ck_Meta check)) (sks_Name (cp_InferenceCredentialsSecretRef (ck_ForProvider check))) = Inr secret"
      "map_get (sec_Labels secret) PurposeLabel = PurposeInference"
      "sec_Data secret (sks_Key (cp_InferenceCredentialsSecretRef (ck_ForProvider check))) = Some tok"
      "inertly x h h0" "check_with_token E x check b (sec_ResourceVersion secret) tok now t h0 = (r, h')"
proof -
  let ?h0 = "h @ [EvGet KSecret (om_Namespace (ck_Meta check)) (sks_Name (cp_InferenceCredentialsSecretRef (ck_ForProvider check)))]"
  have i: "inertly x h ?h0" by simp
  from assms show thesis
    using wait fail [OF _ i] token [OF _ _ _ i]
    by (auto simp: check_bound_def check_secret_def Let_def get_Secret_def RequirePurpose_def split: if_splits sum.splits option.splits)
qed

definition with_drain :: "endpoint_check \<Rightarrow> endpoint_check" where
  "with_drain check = check\<lparr>ck_Meta := (ck_Meta check)\<lparr>om_Finalizers := om_Finalizers (ck_Meta check) @ [RouterDrainFinalizer]\<rparr>\<rparr>"

lemma check_Reconcile_cases:
  assumes "check_Reconcile E x ns name h = (r, h')" "xp_condition_laws x"
  obtains (inert) "inertly x h h'"
  | (finalizer) check where "env_GetCheck E h ns name = Inr check" "\<not> check_deleting check"
      "RouterDrainFinalizer \<notin> set (om_Finalizers (ck_Meta check))"
      "h' = h @ [EvGet KEndpointCheck ns name, EvUpdateCheck (with_drain check)]"
  | (token) check binding secret token expiresAt h1 h2 h3 where
      "env_GetCheck E h ns name = Inr check" "\<not> check_deleting check" "RouterDrainFinalizer \<in> set (om_Finalizers (ck_Meta check))"
      "h1 = h @ [EvGet KEndpointCheck ns name]" "env_Now E h1 < check_expires_at check"
      "resolveEndpoint E x check (h1 @ [EvClock]) = (Inr binding, h2)"
      "env_GetSecret E h2 (om_Namespace (ck_Meta check)) (sks_Name (cp_InferenceCredentialsSecretRef (ck_ForProvider check))) = Inr secret"
      "map_get (sec_Labels secret) PurposeLabel = PurposeInference"
      "sec_Data secret (sks_Key (cp_InferenceCredentialsSecretRef (ck_ForProvider check))) = Some token"
      "inertly x h h3" "check_with_token E x check binding (sec_ResourceVersion secret) token (env_Now E h1) expiresAt h3 = (r, h')"
proof (cases "env_GetCheck E h ns name")
  case (Inl e)
  with assms(1) have "h' = h @ [EvGet KEndpointCheck ns name]" by (auto simp: check_Reconcile_def get_EndpointCheck_def)
  then show thesis using inert by simp
next
  case (Inr check)
  let ?h1 = "h @ [EvGet KEndpointCheck ns name]"
  have i1: "inertly x h ?h1" by simp
  show thesis
  proof (cases "check_deleting check \<or> RouterDrainFinalizer \<notin> set (om_Finalizers (ck_Meta check))")
    case True
    with assms(1) Inr have "h' = ?h1 \<or> \<not> check_deleting check \<and> RouterDrainFinalizer \<notin> set (om_Finalizers (ck_Meta check))
        \<and> h' = ?h1 @ [EvUpdateCheck (with_drain check)]"
      by (auto simp: check_Reconcile_def get_EndpointCheck_def kube_Write_def with_drain_def split: option.splits if_splits)
    with i1 Inr finalizer [of check] show thesis using inert by auto
  next
    case False
    with assms(1) Inr have "check_live E x check ?h1 = (r, h')" by (simp add: check_Reconcile_def get_EndpointCheck_def)
    then show thesis
    proof (cases rule: check_live_cases [where x = x])
      case (delete h0)
      with i1 delete_check_inert show thesis using inert inertly_trans by metis
    next
      case (fail e t h0)
      with i1 check_fail_inert [OF fail(1) assms(2)] show thesis using inert inertly_trans by metis
    next
      case (bound b t h0)
      from inertly_trans [OF i1 bound(3)] have i2: "inertly x h h0" .
      from bound(4) show thesis
      proof (cases rule: check_bound_cases [where x = x])
        case wait
        with i2 show thesis using inert by simp
      next
        case (fail e t' h3)
        with i2 check_fail_inert [OF fail(1) assms(2)] show thesis using inert inertly_trans by metis
      next
        case tok: (token secret tok t' h3)
        from False have "\<not> check_deleting check" "RouterDrainFinalizer \<in> set (om_Finalizers (ck_Meta check))" by auto
        from token [OF Inr this refl bound(1,2) tok(1-3) inertly_trans [OF i2 tok(4)] tok(5)] show thesis .
      qed
    qed
  qed
qed

text \<open>What the status of an admitted check says: everything is current and a worker was proven.\<close>

definition admitted_status :: "endpoint_check \<Rightarrow> endpoint_binding \<Rightarrow> string \<Rightarrow> gotime \<Rightarrow> endpoint_check \<Rightarrow> bool" where
  "admitted_status check binding version now check' \<longleftrightarrow>
     same_revision check' binding version \<and> co_Healthy (ck_AtProvider check') \<and> co_ModelVerified (ck_AtProvider check')
     \<and> co_ToolCallVerified (ck_AtProvider check') \<and> eb_workerProven binding \<and> co_LastCheckedAt (ck_AtProvider check') = now
     \<and> ck_Meta check' = ck_Meta check \<and> ck_ForProvider check' = ck_ForProvider check"

text \<open>
  The events a run with a token adds: HTTP requests, status updates of which a Ready one is
  admitted, and inert ones.
\<close>

definition guarded :: "xp \<Rightarrow> (endpoint_check \<Rightarrow> bool) \<Rightarrow> event \<Rightarrow> bool" where
  "guarded x P ev \<longleftrightarrow> (\<forall>check. ev \<noteq> EvUpdateCheck check) \<and>
     (\<forall>check. ev = EvStatusUpdateCheck check \<longrightarrow> ready_status x check \<longrightarrow> P check)"

lemma guarded_simps [simp]: "guarded x P (EvHTTP q)" "inert x ev \<Longrightarrow> guarded x P ev"
  "guarded x P (EvStatusUpdateCheck c) \<longleftrightarrow> (ready_status x c \<longrightarrow> P c)"
  by (auto simp: guarded_def inert_def)

definition guardedly :: "xp \<Rightarrow> (endpoint_check \<Rightarrow> bool) \<Rightarrow> trace \<Rightarrow> trace \<Rightarrow> bool" where
  "guardedly x P h h' \<longleftrightarrow> (\<exists>ws. h' = h @ ws \<and> list_all (guarded x P) ws)"

lemma guardedly_intros:
  "inertly x h h' \<Longrightarrow> guardedly x P h h'" "guardedly x P h (h @ map EvHTTP t)"
  "guarded x P ev \<Longrightarrow> guardedly x P h (h @ [ev])"
  by (auto simp: guardedly_def inertly_def list_all_iff)

lemma guardedly_trans: "guardedly x P h h1 \<Longrightarrow> guardedly x P h1 h2 \<Longrightarrow> guardedly x P h h2"
  by (auto simp: guardedly_def)

lemma CheckHealth_sends: "CheckHealth E c h = (r, h') \<Longrightarrow> \<exists>t. h' = h @ map EvHTTP t \<and> posts h' = posts h"
  by (auto dest!: CheckHealth_trace(1) simp: posts_def inference_request_def intro: exI [of _ "[]"] exI [of _ "[q]" for q])

lemma same_revision_observation:
  "same_revision (c\<lparr>ck_AtProvider := check_observation_of b res v t u w, ck_ObservedGeneration := om_Generation (ck_Meta c)\<rparr>) b v"
  by (simp add: same_revision_def check_observation_of_def Let_def)

lemma same_revision_frame [simp]:
  "same_revision (available x c) b v = same_revision c b v" "same_revision (unavailable x e c) b v = same_revision c b v"
  "same_revision (c\<lparr>ck_AtProvider := (ck_AtProvider c)\<lparr>co_LastCheckedAt := now\<rparr>\<rparr>) b v = same_revision c b v"
  by (simp_all add: same_revision_def Let_def)

lemma check_liveness_guarded:
  assumes "check_liveness E x check b v tok timeout now t h = (r, h')" "xp_condition_laws x"
  shows "guardedly x (admitted_status check b v now) h h'" "posts h' = posts h"
proof -
  let ?check = "bind_status b now check"
  have n: "co_LastCheckedAt (ck_AtProvider ?check) = now" by (simp add: bind_status_def)
  let ?new = "if verificationAdmitted ?check b v then available x ?check else unavailable x (Err ''full verification retry interval has not elapsed'') ?check"
  have g: "guarded x (admitted_status check b v now) (EvStatusUpdateCheck ?new)"
    using n unavailable_not_ready [OF assms(2)] by (simp add: admitted_status_def verificationAdmitted_def Let_def)
  from assms(1) consider (new) e where "check_fail E x check zero_result e now t h = (r, h')"
    | (unhealthy) vc e h1 where "CheckHealth E vc h = (e, h1)" "failLiveness E x check (Err ''authenticated endpoint liveness check failed'') now t h1 = (r, h')"
    | (healthy) vc e h1 where "CheckHealth E vc h = (e, h1)" "h' = h1 @ [EvStatusUpdateCheck ?new]"
    by (auto simp: check_liveness_def Let_def dest!: write_status_effect split: sum.splits option.splits prod.splits)
  then have "guardedly x (admitted_status check b v now) h h' \<and> posts h' = posts h"
  proof cases
    case new
    from check_fail_inert [OF this assms(2)] show ?thesis
      using new by (auto simp: guardedly_intros check_fail_def posts_def dest!: write_status_effect)
  next
    case unhealthy
    from CheckHealth_sends [OF unhealthy(1)] obtain ts where "h1 = h @ map EvHTTP ts" "posts h1 = posts h" by blast
    moreover have "guardedly x (admitted_status check b v now) h1 h'" "posts h' = posts h1"
      using failLiveness_inert [OF unhealthy(2) assms(2)] unhealthy(2)
      by (auto simp: guardedly_intros failLiveness_def posts_def dest!: write_status_effect)
    ultimately show ?thesis using guardedly_intros(2) guardedly_trans by metis
  next
    case healthy
    from CheckHealth_sends [OF healthy(1)] obtain ts where "h1 = h @ map EvHTTP ts" "posts h1 = posts h" by blast
    with healthy(2) g show ?thesis
      using guardedly_trans [OF guardedly_intros(2) guardedly_intros(3)] by (auto simp: posts_def)
  qed
  then show "guardedly x (admitted_status check b v now) h h'" "posts h' = posts h" by auto
qed

lemma posts_map_EvHTTP: "posts (map EvHTTP t) = filter (\<lambda>q. rq_Method q = MethodPost) t"
  by (induction t) (auto simp: posts_def http_methods)

lemma Verify_posts:
  assumes "Verify E c model h = ((res, err), h')"
  shows "\<exists>t. h' = h @ map EvHTTP t \<and> (posts h' = posts h \<or> (\<exists>q. posts h' = posts h @ [q]))"
proof -
  from Verify_trace [OF assms] obtain t where t: "h' = h @ map EvHTTP t" "length (filter (\<lambda>q. rq_Method q \<noteq> MethodGet) t) \<le> 1"
    by (auto split: if_splits)
  have "length (filter (\<lambda>q. rq_Method q = MethodPost) t) \<le> length (filter (\<lambda>q. rq_Method q \<noteq> MethodGet) t)"
    by (induction t) (auto simp: http_methods)
  with t(2) have "length (posts (map EvHTTP t)) \<le> 1" by (simp add: posts_map_EvHTTP)
  then have "posts (map EvHTTP t) = [] \<or> (\<exists>q. posts (map EvHTTP t) = [q])" by (cases "posts (map EvHTTP t)") auto
  with t(1) show ?thesis by auto
qed

text \<open>The status that a probe leaves: it records the attempt for exactly this revision.\<close>

definition attempt_recorded :: "endpoint_check \<Rightarrow> endpoint_binding \<Rightarrow> string \<Rightarrow> gotime \<Rightarrow> endpoint_check \<Rightarrow> bool" where
  "attempt_recorded check binding version now check' \<longleftrightarrow>
     same_revision check' binding version \<and> co_LastVerificationAttemptAt (ck_AtProvider check') = now
     \<and> ck_ForProvider check' = ck_ForProvider check \<and> ck_Meta check' = ck_Meta check"

lemma attempt_recorded_observation:
  "attempt_recorded c b v now (c\<lparr>ck_AtProvider := check_observation_of b res v t now w, ck_ObservedGeneration := om_Generation (ck_Meta c)\<rparr>)"
  using same_revision_observation [of c b res v t now w] by (simp add: attempt_recorded_def check_observation_of_def)

lemma attempt_recorded_frame [simp]:
  "attempt_recorded c b v now (available x c') = attempt_recorded c b v now c'"
  "attempt_recorded c b v now (unavailable x e c') = attempt_recorded c b v now c'"
  by (simp_all add: attempt_recorded_def)

text \<open>
  One completion was sent, and after it the status that records the attempt was written; when this
  write is refused, the reconciliation returns an error.
\<close>

definition probe_recorded :: "env \<Rightarrow> endpoint_check \<Rightarrow> endpoint_binding \<Rightarrow> string \<Rightarrow> gotime \<Rightarrow> trace \<Rightarrow> 'r result \<Rightarrow> trace \<Rightarrow> bool" where
  "probe_recorded E check b v now h r h' \<longleftrightarrow>
     (\<exists>q check' ws rest. posts ws = [q] \<and> h' = (h @ ws) @ EvStatusUpdateCheck check' # rest \<and> posts rest = [] \<and> attempt_recorded check b v now check'
        \<and> (env_Write E (h @ ws) (EvStatusUpdateCheck check') = None \<or> (\<exists>e. r = Inl e)))"

lemma probe_recordedI:
  assumes "h' = h1 @ EvStatusUpdateCheck c # rest" "posts rest = []" "attempt_recorded check b v now c" "h1 = h @ ws" "posts ws = [q]"
    and "env_Write E h1 (EvStatusUpdateCheck c) = None \<or> (\<exists>e. r = Inl e)"
  shows "probe_recorded E check b v now h r h'"
  using assms unfolding probe_recorded_def by blast

lemma check_verify_effect:
  assumes "check_verify E x check b v tok timeout now t h = (r, h')" "xp_condition_laws x"
  shows "guardedly x (admitted_status check b v now) h h' \<and> (posts h' = posts h \<or> probe_recorded E check b v now h r h')"
proof (cases "inference_New (eb_id b) tok timeout []")
  case (Inl e)
  with assms(1) have f: "check_fail E x check zero_result e now t h = (r, h')" by (simp add: check_verify_def)
  from check_fail_inert [OF f assms(2)] show ?thesis
    using f by (auto simp: guardedly_intros check_fail_def posts_def dest!: write_status_effect)
next
  case (Inr vc)
  obtain res err h1 where ver: "Verify E vc (cp_ExpectedModelID (ck_ForProvider check)) h = ((res, err), h1)" by (metis prod_cases3 prod.collapse)
  from Verify_posts [OF ver] obtain ts where ts: "h1 = h @ map EvHTTP ts" "posts h1 = posts h \<or> (\<exists>q. posts h1 = posts h @ [q])" by blast
  have "\<exists>c rest. h' = h1 @ EvStatusUpdateCheck c # rest \<and> list_all (inert x) rest \<and> posts rest = []
      \<and> attempt_recorded check b v now c \<and> (ready_status x c \<longrightarrow> admitted_status check b v now c)
      \<and> (env_Write E h1 (EvStatusUpdateCheck c) = None \<or> (\<exists>e. r = Inl e))"
  proof (cases err)
    case (Some e)
    with assms(1) Inr ver have "failVerification E x check res e b v now t h1 = (r, h')" by (simp add: check_verify_def)
    then show ?thesis
      using unavailable_not_ready [OF assms(2)] attempt_recorded_observation [of check b v now res now 0]
      by (auto simp: failVerification_def posts_def write_status_def kube_Write_def split: option.splits)
  next
    case None
    let ?c = "check\<lparr>ck_AtProvider := check_observation_of b res v now now now, ck_ObservedGeneration := om_Generation (ck_Meta check)\<rparr>"
    let ?c' = "if eb_workerProven b then available x ?c
      else unavailable x (Err ''authenticated verification passed; awaiting a directly observed bounded active worker'') ?c"
    from None Verify_trace [OF ver] have "ir_Healthy res" "ir_ModelVerified res" "ir_ToolCallVerified res" by auto
    then have a: "ready_status x ?c' \<longrightarrow> admitted_status check b v now ?c'"
      using unavailable_not_ready [OF assms(2)] same_revision_observation [of check b res v now now now]
      by (simp add: admitted_status_def check_observation_of_def)
    from assms(1) Inr ver None have "h' = h1 @ [EvStatusUpdateCheck ?c'] \<or>
        (\<exists>e. requestEndpointObservation E ?c' now (h1 @ [EvStatusUpdateCheck ?c']) = (e, h'))"
      by (auto simp: check_verify_def Let_def kube_Write_def split: option.splits if_splits prod.splits)
    then have "\<exists>rest. h' = (h1 @ [EvStatusUpdateCheck ?c']) @ rest \<and> list_all (inert x) rest"
      using requestEndpointObservation_inert unfolding inertly_def by fastforce
    moreover from assms(1) Inr ver None have "env_Write E h1 (EvStatusUpdateCheck ?c') = None \<or> (\<exists>e. r = Inl e)"
      by (auto simp: check_verify_def Let_def kube_Write_def split: option.splits if_splits prod.splits)
    ultimately show ?thesis using a inert_posts attempt_recorded_observation [of check b v now res now now] by (intro exI [of _ ?c']) auto
  qed
  then obtain c rest where c: "h' = h1 @ EvStatusUpdateCheck c # rest" "list_all (inert x) rest" "posts rest = []"
    "attempt_recorded check b v now c" "ready_status x c \<longrightarrow> admitted_status check b v now c"
    "env_Write E h1 (EvStatusUpdateCheck c) = None \<or> (\<exists>e. r = Inl e)" by blast
  have "guardedly x (admitted_status check b v now) h h'"
    using c ts(1) by (auto simp: guardedly_def list_all_iff)
  moreover have "posts h' = posts h1" using c by (simp add: posts_def)
  moreover have "posts h' = posts h \<or> probe_recorded E check b v now h r h'"
  proof (cases "posts h1 = posts h")
    case False
    with ts obtain q where "posts (map EvHTTP ts) = [q]" by auto
    with probe_recordedI [OF c(1,3,4) ts(1) this c(6)] show ?thesis by simp
  qed (use \<open>posts h' = posts h1\<close> in simp)
  ultimately show ?thesis by simp
qed

lemma check_with_token_effect:
  assumes "check_with_token E x check b v tok now t h = (r, h')" "xp_condition_laws x"
  shows "guardedly x (admitted_status check b v now) h h' \<and>
    (posts h' = posts h \<or> fullVerificationDue check b v now \<and> probe_recorded E check b v now h r h')"
proof -
  let ?c = "check\<lparr>ck_AtProvider := (ck_AtProvider check)\<lparr>co_LastCheckedAt := now\<rparr>\<rparr>"
  from assms(1) consider
    (admit) "verificationAdmitted check b v" "h' = h @ [EvStatusUpdateCheck (available x ?c)]"
    | (live) timeout where "check_liveness E x check b v tok timeout now t h = (r, h')"
    | (verify) timeout where "fullVerificationDue check b v now" "check_verify E x check b v tok timeout now t h = (r, h')"
    by (auto simp: check_with_token_def check_handshake_def Let_def verificationAdmitted_def dest!: write_status_effect split: if_splits option.splits)
  then show ?thesis
  proof cases
    case admit
    then have "admitted_status check b v now (available x ?c)" by (simp add: admitted_status_def verificationAdmitted_def Let_def)
    with admit(2) show ?thesis by (simp add: guardedly_intros posts_def)
  next
    case live
    with check_liveness_guarded [OF live assms(2)] show ?thesis by simp
  next
    case verify
    with check_verify_effect [OF verify(2) assms(2)] show ?thesis by blast
  qed
qed

section \<open>Properties\<close>

text \<open>The status updates of a trace, in order.\<close>

fun status_update_of :: "event \<Rightarrow> endpoint_check option" where
  "status_update_of (EvStatusUpdateCheck check) = Some check"
| "status_update_of _ = None"

definition status_updates :: "trace \<Rightarrow> endpoint_check list" where
  "status_updates h = List.map_filter status_update_of h"

lemma status_updates_simps [simp]:
  "status_updates [] = []" "status_updates (h @ h') = status_updates h @ status_updates h'"
  "status_updates (ev # h) = (case status_update_of ev of None \<Rightarrow> status_updates h | Some c \<Rightarrow> c # status_updates h)"
  by (simp_all add: status_updates_def List.map_filter_def split: option.splits)

lemma in_status_updates [simp]: "c \<in> set (status_updates h) \<longleftrightarrow> EvStatusUpdateCheck c \<in> set h"
proof (induction h)
  case (Cons ev h)
  then show ?case by (cases ev) auto
qed simp

text \<open>
  What a status records of a revision, field by field: every identifier, generation, rollout version
  and image is that of the Endpoint and the Template. A Ready status moreover has the version of the
  Secret read and the three verification results, and is of this generation and this instant.
\<close>

definition records_revision :: "xp \<Rightarrow> endpoint_cr \<Rightarrow> template_cr \<Rightarrow> check_observation \<Rightarrow> bool" where
  "records_revision x ep template ob \<longleftrightarrow>
     co_EndpointID ob = GetExternalName x ep \<and> co_EndpointResourceUID ob = om_UID (mg_Meta ep)
   \<and> co_EndpointResourceGeneration ob = om_Generation (mg_Meta ep) \<and> co_EndpointVersion ob = eo_Version (ec_AtProvider ep)
   \<and> co_TemplateResourceUID ob = om_UID (mg_Meta template) \<and> co_TemplateResourceGeneration ob = om_Generation (mg_Meta template)
   \<and> co_TemplateImageDigest ob = tp_ImageName (tc_ForProvider template)"

definition ready_evidence :: "xp \<Rightarrow> endpoint_cr \<Rightarrow> template_cr \<Rightarrow> secret \<Rightarrow> gotime \<Rightarrow> endpoint_check \<Rightarrow> bool" where
  "ready_evidence x ep template secret now check' \<longleftrightarrow>
     (let ob = ck_AtProvider check'
      in ck_ObservedGeneration check' = om_Generation (ck_Meta check') \<and> records_revision x ep template ob
       \<and> co_CredentialsSecretResourceVersion ob = sec_ResourceVersion secret
       \<and> co_Healthy ob \<and> co_ModelVerified ob \<and> co_ToolCallVerified ob \<and> co_LastCheckedAt ob = now)"

lemma admitted_evidence:
  assumes "admitted_status check (endpoint_binding_of x ep v template) (sec_ResourceVersion secret) now check'" "eo_Version (ec_AtProvider ep) = Some v"
  shows "ready_evidence x ep template secret now check'" "ck_Meta check' = ck_Meta check" "WorkerSecurityEvidenceCurrent (ec_AtProvider ep)"
  using assms by (auto simp: admitted_status_def ready_evidence_def records_revision_def same_revision_def endpoint_binding_of_def Let_def)

text \<open>
  C11: what a Ready EndpointCheck rests on. When a reconciliation writes a status whose Ready condition
  is true, the check it has read is live, has the router's drain finalizer and is within its lifetime;
  the Endpoint read under the check's reference and the Template read under that Endpoint's reference
  are live, Ready and Synced for their generations and within their lifetimes, the Endpoint has
  current FlashBoot evidence and a proven worker, and its status is bound to the revision of that
  Template by identifiers both controllers observed; the Secret read under the check's reference is
  labelled for inference; and the status records, field by field, that revision, the version of that
  Secret, all three verification results and the time of this check.
\<close>

theorem check_Ready_sound:
  assumes "check_Reconcile E x ns name h = (r, h @ t)" "xp_condition_laws x" "check' \<in> set (status_updates t)" "ready_status x check'"
  shows "\<exists>check ep template secret h2.
    (let h1 = h @ [EvGet KEndpointCheck ns name]; now = env_Now E h1
     in env_GetCheck E h ns name = Inr check \<and> om_DeletionTimestamp (ck_Meta check) \<in> {None, Some 0}
        \<and> RouterDrainFinalizer \<in> set (om_Finalizers (ck_Meta check)) \<and> now < check_expires_at check
        \<and> bound_endpoint E x check (h1 @ [EvClock]) h2 ep template
        \<and> env_GetSecret E h2 (om_Namespace (ck_Meta check)) (sks_Name (cp_InferenceCredentialsSecretRef (ck_ForProvider check))) = Inr secret
        \<and> map_get (sec_Labels secret) PurposeLabel = PurposeInference
        \<and> ready_evidence x ep template secret now check' \<and> ck_Meta check' = ck_Meta check \<and> WorkerSecurityEvidenceCurrent (ec_AtProvider ep))"
  using assms(1,2)
proof (cases rule: check_Reconcile_cases)
  case inert
  with assms(3,4) show ?thesis by (auto simp: inertly_def list_all_iff)
next
  case finalizer
  with assms(3) show ?thesis by auto
next
  case (token check binding secret tok expiresAt h1 h2 h3)
  let ?now = "env_Now E h1"
  from token(10) obtain pre where pre: "h3 = h @ pre" "list_all (inert x) pre" by (auto simp: inertly_def)
  from check_with_token_effect [OF token(11) assms(2)] obtain ws where
    ws: "h @ t = h3 @ ws" "list_all (guarded x (admitted_status check binding (sec_ResourceVersion secret) ?now)) ws"
    by (auto simp: guardedly_def)
  from pre ws have "t = pre @ ws" by simp
  with pre(2) assms(3,4) have "EvStatusUpdateCheck check' \<in> set ws" by (auto simp: list_all_iff)
  with ws(2) assms(4) have a: "admitted_status check binding (sec_ResourceVersion secret) ?now check'" by (force simp: list_all_iff)
  from resolveEndpoint_bound [OF token(6)] obtain ep v template where b: "bound_endpoint E x check (h1 @ [EvClock]) h2 ep template"
    "eo_Version (ec_AtProvider ep) = Some v" "binding = endpoint_binding_of x ep v template" .
  from admitted_evidence [OF a [unfolded b(3)] b(2)] b(1) token(1-5,7,8) show ?thesis unfolding Let_def
    by (intro exI [of _ check] exI [of _ ep] exI [of _ template] exI [of _ secret] exI [of _ h2]) (simp add: check_deleting_def ptrIsZero_iff)
qed

lemma not_due_after_attempt:
  assumes "attempt_recorded check b v now check'" "now \<noteq> 0" "now \<le> now'" "now' - now < sint (verification_interval check)"
  shows "\<not> fullVerificationDue check' b v now'"
proof -
  from assms(1) have c: "same_revision check' b v" "co_LastVerificationAttemptAt (ck_AtProvider check') = now"
    "verification_interval check' = verification_interval check"
    by (simp_all add: attempt_recorded_def verification_interval_def)
  have "0 \<le> sint (SubTime now' now)" "sint (SubTime now' now) < sint (verification_interval check)"
    using assms(3,4) by (auto simp: sint_SubTime)
  with c assms(2) show ?thesis by (simp add: fullVerificationDue_def Let_def IsZero_def dur_le_def)
qed

text \<open>
  C19: billable probes of one revision are spaced. A reconciliation sends at most one completion, and
  only when a full verification of the revision it has just read (the resolved Endpoint and Template,
  and the version of the Secret) is due; after the completion it writes a status that records the
  attempt, and when this write is refused it returns the error. For a check with the status written,
  no full verification of the same revision is due before the verification interval has passed,
  whether the probe succeeded or failed; another revision is due at once.
\<close>

theorem check_probe_spacing:
  assumes "check_Reconcile E x ns name h = (r, h')" "xp_condition_laws x" "posts h' \<noteq> posts h"
  shows "\<exists>check binding h2 secret q check' ws rest.
    (let h1 = h @ [EvGet KEndpointCheck ns name]; now = env_Now E h1; version = sec_ResourceVersion secret
     in env_GetCheck E h ns name = Inr check \<and> resolveEndpoint E x check (h1 @ [EvClock]) = (Inr binding, h2)
        \<and> env_GetSecret E h2 (om_Namespace (ck_Meta check)) (sks_Name (cp_InferenceCredentialsSecretRef (ck_ForProvider check))) = Inr secret
        \<and> fullVerificationDue check binding version now
        \<and> posts ws = [q] \<and> h' = (h @ ws) @ EvStatusUpdateCheck check' # rest \<and> posts rest = []
        \<and> (env_Write E (h @ ws) (EvStatusUpdateCheck check') = None \<or> (\<exists>e. r = Inl e))
        \<and> (\<forall>now'. now \<noteq> 0 \<and> now \<le> now' \<and> now' - now < sint (verification_interval check) \<longrightarrow> \<not> fullVerificationDue check' binding version now'))"
  using assms(1,2)
proof (cases rule: check_Reconcile_cases)
  case inert
  then obtain ws where "h' = h @ ws" "list_all (inert x) ws" by (auto simp: inertly_def)
  with inert_posts [OF this(2)] show ?thesis using assms(3) by simp
next
  case finalizer
  with assms(3) show ?thesis by (simp add: posts_def)
next
  case (token check binding secret tok expiresAt h1 h2 h3)
  let ?now = "env_Now E h1" and ?v = "sec_ResourceVersion secret"
  from token(10) obtain pre where pre: "h3 = h @ pre" "list_all (inert x) pre" by (auto simp: inertly_def)
  with inert_posts [OF pre(2)] have p3: "posts h3 = posts h" "posts pre = []" by simp_all
  from check_with_token_effect [OF token(11) assms(2)] assms(3) p3 have
    d: "fullVerificationDue check binding ?v ?now" "probe_recorded E check binding ?v ?now h3 r h'" by auto
  from d(2) obtain q check' ws rest where
    e: "posts ws = [q]" "h' = (h3 @ ws) @ EvStatusUpdateCheck check' # rest" "posts rest = []" "attempt_recorded check binding ?v ?now check'"
      "env_Write E (h3 @ ws) (EvStatusUpdateCheck check') = None \<or> (\<exists>e. r = Inl e)" unfolding probe_recorded_def by blast
  from e(1) p3(2) have "posts (pre @ ws) = [q]" by simp
  with e pre(1) d(1) token(1,4,6,7) not_due_after_attempt [OF e(4)] show ?thesis unfolding Let_def
    by (intro exI [of _ check] exI [of _ binding] exI [of _ h2] exI [of _ secret] exI [of _ q] exI [of _ check'] exI [of _ "pre @ ws"] exI [of _ rest]) auto
qed

text \<open>A check whose Endpoint, Template and Secret are all in order.\<close>

definition demo_check :: endpoint_check where
  "demo_check = \<lparr>ck_Meta = demo_meta\<lparr>om_Finalizers := [RouterDrainFinalizer]\<rparr>,
     ck_ForProvider = \<lparr>cp_MaxLifetimeSeconds = 3600, cp_EndpointIDRef = Some \<lparr>ref_Name = ''demo''\<rparr>, cp_ExpectedModelID = ''m'',
       cp_InferenceCredentialsSecretRef = \<lparr>sks_Name = ''s'', sks_Key = ''key''\<rparr>, cp_VerificationIntervalSeconds = 0, cp_TimeoutSeconds = 0\<rparr>,
     ck_Conditions = [], ck_ObservedGeneration = 0, ck_AtProvider = check_observation_of zero_binding zero_result [] 0 0 0\<rparr>"

definition admitted_endpoint_cr :: endpoint_cr where
  "admitted_endpoint_cr = bound_endpoint_cr\<lparr>mg_ObservedGeneration := 1, mg_Conditions := [Available, ReconcileSuccess],
     ec_AtProvider := (ec_AtProvider bound_endpoint_cr)\<lparr>eo_TemplateID := ''t1'', eo_TemplateResourceUID := ''a1-b2'', eo_TemplateResourceGeneration := 1,
       eo_TemplateImageDigest := tp_ImageName (tc_ForProvider bound_template_cr), eo_Version := Some 3, eo_FlashBootDisabled := True,
       eo_FlashBootEvidenceVersion := Some 3, eo_FlashBootLastEnforcedAt := 900, eo_WorkerSecurityValidated := True,
       eo_WorkerSecurityProofVersion := Some 3, eo_WorkerSecurityObservedAt := 900\<rparr>\<rparr>"

definition admission_env :: env where
  "admission_env = passing_peer
     \<lparr>env_Now := (\<lambda>_. 1000), env_GetCheck := (\<lambda>_ _ _. Inr demo_check), env_GetEndpoint := (\<lambda>_ _ _. Inr admitted_endpoint_cr),
      env_GetTemplate := (\<lambda>_ _ _. Inr (bound_template_cr\<lparr>mg_ObservedGeneration := 1, mg_Conditions := [Available, ReconcileSuccess]\<rparr>)),
      env_GetSecret := (\<lambda>_ _ _. Inr \<lparr>sec_ResourceVersion = ''9'', sec_Labels = [PurposeLabel \<mapsto> PurposeInference], sec_Data = [''key'' \<mapsto> ''tok'']\<rparr>)\<rparr>"

lemma admission_evaluates:
  "case check_Reconcile admission_env xp_plain ''team'' ''demo'' [] of
     (r, h) \<Rightarrow> map (ready_status xp_plain) (status_updates h) = [True] \<and> mutation_methods h = [MethodPost]"
  by code_simp

lemma admission_run:
  "map (ready_status xp_plain) (status_updates (snd (check_Reconcile admission_env xp_plain ''team'' ''demo'' []))) = [True]"
  "mutation_methods (snd (check_Reconcile admission_env xp_plain ''team'' ''demo'' [])) = [MethodPost]"
  using admission_evaluates by (cases "check_Reconcile admission_env xp_plain ''team'' ''demo'' []"; simp)+

theorem check_Ready_sound_witness:
  "\<exists>r t check' h2 ep template. check_Reconcile admission_env xp_plain ''team'' ''demo'' [] = (r, [] @ t) \<and> ready_status xp_plain check'
     \<and> check' \<in> set (status_updates t)
     \<and> bound_endpoint admission_env xp_plain demo_check [EvGet KEndpointCheck ''team'' ''demo'', EvClock] h2 ep template"
proof -
  obtain r t where r: "check_Reconcile admission_env xp_plain ''team'' ''demo'' [] = (r, [] @ t)" by fastforce
  with admission_run(1) obtain check' where c: "check' \<in> set (status_updates t)" "ready_status xp_plain check'"
    by (auto simp del: in_status_updates)
  have g: "env_GetCheck admission_env [] ''team'' ''demo'' = Inr demo_check" by (simp add: admission_env_def)
  from check_Ready_sound [OF r xp_condition_laws_plain c] g show ?thesis
    using r c by (fastforce simp: Let_def)
qed

theorem check_probe_spacing_witness:
  "\<exists>r h' q. check_Reconcile admission_env xp_plain ''team'' ''demo'' [] = (r, h') \<and> posts h' = [q]"
proof -
  obtain r h' where r: "check_Reconcile admission_env xp_plain ''team'' ''demo'' [] = (r, h')" by fastforce
  with admission_run(2) have "posts h' \<noteq> posts []" by (auto simp: posts_def mutation_methods_def)
  from check_probe_spacing [OF r xp_condition_laws_plain this] r show ?thesis by (auto simp: Let_def posts_def)
qed

text \<open>
  Admission can rest on a worker observed before the probe. When a full verification that is due
  passes while the Endpoint already carries a worker proof, the check becomes Ready at once, although
  the worker was last observed no later than the probe; the next cheap check would not admit the
  same status.
\<close>

theorem check_available_without_observation:
  assumes "check_verify E x check b v tok timeout now t h = (r, h')" "xp_condition_laws x"
    and "inference_New (eb_id b) tok timeout [] = Inr vc" "Verify E vc (cp_ExpectedModelID (ck_ForProvider check)) h = ((res, None), h1)"
    and "eb_workerProven b" "eb_workerObservedAt b \<le> now"
  shows "\<exists>check'. check' \<in> set (status_updates (drop (length h1) h')) \<and> ready_status x check' \<and> \<not> verificationAdmitted check' b v"
proof -
  let ?c = "check\<lparr>ck_AtProvider := check_observation_of b res v now now now, ck_ObservedGeneration := om_Generation (ck_Meta check)\<rparr>"
  from assms have "h' = h1 @ [EvStatusUpdateCheck (available x ?c)]"
    by (auto simp: check_verify_def Let_def kube_Write_def split: option.splits)
  moreover have "\<not> verificationAdmitted (available x ?c) b v"
    using assms(6) by (simp add: verificationAdmitted_def Let_def check_observation_of_def After_def)
  ultimately show ?thesis using available_ready [OF assms(2)] by (intro exI [of _ "available x ?c"]) simp
qed

definition demo_endpoint_binding :: endpoint_binding where
  "demo_endpoint_binding = zero_binding\<lparr>eb_id := ''ep1'', eb_workerProven := True, eb_workerObservedAt := 900\<rparr>"

theorem check_available_without_observation_witness:
  "\<exists>r h' check'. check_verify admission_env xp_plain demo_check demo_endpoint_binding ''9'' ''tok'' (3 * Minute) 1000 2000 [] = (r, h')
     \<and> EvStatusUpdateCheck check' \<in> set h' \<and> ready_status xp_plain check' \<and> \<not> verificationAdmitted check' demo_endpoint_binding ''9''"
proof -
  have d: "eb_id demo_endpoint_binding = ''ep1''" "cp_ExpectedModelID (ck_ForProvider demo_check) = ''m''"
    "eb_workerProven demo_endpoint_binding" "eb_workerObservedAt demo_endpoint_binding \<le> 1000"
    by (simp_all add: demo_endpoint_binding_def demo_check_def)
  have n: "inference_New (eb_id demo_endpoint_binding) ''tok'' (3 * Minute) [] = Inr demo_inference_client" by code_simp
  have "fst (Verify admission_env demo_inference_client (cp_ExpectedModelID (ck_ForProvider demo_check)) []) =
      (\<lparr>ir_Healthy = True, ir_ModelVerified = True, ir_ToolCallVerified = True\<rparr>, None)" by code_simp
  then obtain res h1 where v: "Verify admission_env demo_inference_client (cp_ExpectedModelID (ck_ForProvider demo_check)) [] = ((res, None), h1)"
    by (metis eq_fst_iff prod.collapse)
  obtain r h' where r: "check_verify admission_env xp_plain demo_check demo_endpoint_binding ''9'' ''tok'' (3 * Minute) 1000 2000 [] = (r, h')" by fastforce
  from check_available_without_observation [OF r xp_condition_laws_plain n v d(3,4)] r show ?thesis by (auto dest: in_set_dropD)
qed

text \<open>
  The cheap branch of an admission that waits for a worker: the request for the Endpoint's health and
  one status write, after which the check waits as before, and a full verification is due exactly
  when it was.
\<close>

lemma pending_liveness:
  assumes "check_liveness E x check b v tok timeout now t h = (r, h')" "xp_condition_laws x" "workerAdmissionPending x check" "\<not> eb_workerProven b"
    and "same_revision check b v" "inference_New (eb_id b) tok timeout [] = Inr vc" "\<And>m u. env_NewRequest E m u = None"
  shows "\<exists>check'. h' = h @ [EvHTTP (inference_request vc MethodGet (endpointPath vc ''/health'') None), EvStatusUpdateCheck check']
    \<and> workerAdmissionPending x check' \<and> (\<forall>now'. fullVerificationDue check' b v now' = fullVerificationDue check b v now')"
proof -
  let ?q = "inference_request vc MethodGet (endpointPath vc ''/health'') None"
  have not_adm: "\<not> verificationAdmitted c b v" for c using assms(4) by (simp add: verificationAdmitted_def Let_def)
  have pend: "workerAdmissionPending x (unavailable x e c)"
    if "ck_ObservedGeneration c = om_Generation (ck_Meta c)" "co_Healthy (ck_AtProvider c) = co_Healthy (ck_AtProvider check)"
      "co_ModelVerified (ck_AtProvider c) = co_ModelVerified (ck_AtProvider check)"
      "co_ToolCallVerified (ck_AtProvider c) = co_ToolCallVerified (ck_AtProvider check)"
      "co_LastVerifiedAt (ck_AtProvider c) = co_LastVerifiedAt (ck_AtProvider check)" for c e
    using that assms(2,3) unavailable_not_ready [OF assms(2), of e c] by (simp add: workerAdmissionPending_def ready_status_def)
  have due: "fullVerificationDue (unavailable x e c) b v now' = fullVerificationDue check b v now'"
    if "same_revision c b v" "co_LastVerificationAttemptAt (ck_AtProvider c) = co_LastVerificationAttemptAt (ck_AtProvider check)"
      "ck_ForProvider c = ck_ForProvider check" for c e now'
    using that assms(5) by (simp add: fullVerificationDue_def verification_interval_def Let_def)
  obtain e h1 where c: "CheckHealth E vc h = (e, h1)" by fastforce
  then have h1: "h1 = h @ [EvHTTP ?q]"
    using assms(7) by (auto simp: CheckHealth_def inference_do_def Let_def split: http_result.splits sum.splits)
  show ?thesis
  proof (cases e)
    case (Some err)
    let ?c = "check\<lparr>ck_AtProvider := (ck_AtProvider check)\<lparr>co_LastCheckedAt := now\<rparr>, ck_ObservedGeneration := om_Generation (ck_Meta check)\<rparr>"
    have "same_revision ?c b v" using assms(5) by (simp add: same_revision_def Let_def)
    moreover from Some assms(1,6) c have "failLiveness E x check (Err ''authenticated endpoint liveness check failed'') now t h1 = (r, h')"
      by (simp add: check_liveness_def)
    ultimately show ?thesis using h1 pend [of ?c] due [of ?c] by (auto simp: failLiveness_def dest!: write_status_effect)
  next
    case None
    let ?c = "bind_status b now check"
    have "same_revision ?c b v" using assms(5) by (simp add: same_revision_def bind_status_def Let_def)
    moreover from None assms(1,6) c not_adm have "h' = h1 @ [EvStatusUpdateCheck (unavailable x (Err ''full verification retry interval has not elapsed'') ?c)]"
      by (auto simp: check_liveness_def Let_def dest!: write_status_effect)
    ultimately show ?thesis using h1 pend [of ?c] due [of ?c] by (simp add: bind_status_def)
  qed
qed

text \<open>
  C39: an admission that waits for a worker probes without pause. While a live, verified check waits
  for a worker that its Endpoint does not yet prove, no new full verification is due, and the
  credential can be read, every reconciliation, however soon after the last one, skips the thirty
  second pause: after the reads it sends the health request and writes one status. It patches no
  Endpoint, so it does not ask the Endpoint controller for the observation it waits for; and the
  status it writes leaves the check waiting, with a full verification due at the same time as before.
\<close>

theorem check_pending_probes_again:
  assumes "check_Reconcile E x ns name h = (r, h')" "xp_condition_laws x"
    and "env_GetCheck E h ns name = Inr check" "\<not> check_deleting check" "RouterDrainFinalizer \<in> set (om_Finalizers (ck_Meta check))"
    and "h1 = h @ [EvGet KEndpointCheck ns name]" "env_Now E h1 < check_expires_at check"
    and "resolveEndpoint E x check (h1 @ [EvClock]) = (Inr b, h2)"
    and "workerAdmissionPending x check" "\<not> eb_workerProven b"
    and "env_GetSecret E h2 (om_Namespace (ck_Meta check)) (sks_Name (cp_InferenceCredentialsSecretRef (ck_ForProvider check))) = Inr secret"
    and "map_get (sec_Labels secret) PurposeLabel = PurposeInference"
    and "sec_Data secret (sks_Key (cp_InferenceCredentialsSecretRef (ck_ForProvider check))) = Some tok"
    and "\<not> fullVerificationDue check b (sec_ResourceVersion secret) (env_Now E h1)"
    and "timeout = secondsDuration (cp_TimeoutSeconds (ck_ForProvider check))"
    and "inference_New (eb_id b) tok (if timeout = 0 then 3 * Minute else timeout) [] = Inr vc" "\<And>m u. env_NewRequest E m u = None"
  shows "\<exists>check'. h' = h2 @
      [EvGet KSecret (om_Namespace (ck_Meta check)) (sks_Name (cp_InferenceCredentialsSecretRef (ck_ForProvider check))),
       EvHTTP (inference_request vc MethodGet (endpointPath vc ''/health'') None), EvStatusUpdateCheck check']
    \<and> reads h h2 \<and> workerAdmissionPending x check'
    \<and> (\<forall>now'. fullVerificationDue check' b (sec_ResourceVersion secret) now' = fullVerificationDue check b (sec_ResourceVersion secret) now')"
proof -
  let ?v = "sec_ResourceVersion secret" and ?t = "if timeout = 0 then 3 * Minute else timeout"
  let ?h3 = "h2 @ [EvGet KSecret (om_Namespace (ck_Meta check)) (sks_Name (cp_InferenceCredentialsSecretRef (ck_ForProvider check)))]"
  from resolveEndpoint_bound [OF assms(8)] obtain ep template where "bound_endpoint E x check (h1 @ [EvClock]) h2 ep template" by metis
  from bound_endpoint_reads [OF this] assms(6) have reads: "reads h h2" by (auto elim: reads_from)
  from assms(14) have same: "same_revision check b ?v" by (auto simp: fullVerificationDue_def Let_def split: if_splits)
  from assms(1,3-8) have "check_bound E x check b (env_Now E h1) (check_expires_at check) h2 = (r, h')"
    by (simp add: check_Reconcile_def check_live_def get_EndpointCheck_def time_Now_def Before_def)
  with assms(9,11-13) obtain t where "check_with_token E x check b ?v tok (env_Now E h1) t ?h3 = (r, h')"
    by (auto simp: check_bound_def check_secret_def Let_def get_Secret_def RequirePurpose_def)
  with assms(10,14,15) have "check_liveness E x check b ?v tok ?t (env_Now E h1) t ?h3 = (r, h')"
    by (cases "timeout = 0") (simp_all add: check_with_token_def Let_def verificationAdmitted_def)
  from pending_liveness [OF this assms(2,9,10) same assms(16,17)] reads show ?thesis by auto
qed

text \<open>An admitted Endpoint without a worker proof, and the check of it whose verification has passed.\<close>

definition unproven_endpoint_cr :: endpoint_cr where
  "unproven_endpoint_cr = admitted_endpoint_cr\<lparr>ec_AtProvider := (ec_AtProvider admitted_endpoint_cr)\<lparr>eo_WorkerSecurityValidated := False\<rparr>\<rparr>"

definition waiting_template_cr :: template_cr where
  "waiting_template_cr = bound_template_cr\<lparr>mg_ObservedGeneration := 1, mg_Conditions := [Available, ReconcileSuccess]\<rparr>"

definition waiting_binding :: endpoint_binding where
  "waiting_binding = endpoint_binding_of xp_plain unproven_endpoint_cr 3 waiting_template_cr"

definition pending_check :: endpoint_check where
  "pending_check = demo_check\<lparr>ck_ObservedGeneration := 1,
     ck_AtProvider := check_observation_of waiting_binding \<lparr>ir_Healthy = True, ir_ModelVerified = True, ir_ToolCallVerified = True\<rparr> ''9'' 999 999 999\<rparr>"

definition waiting_env :: env where
  "waiting_env = admission_env\<lparr>env_GetCheck := (\<lambda>_ _ _. Inr pending_check), env_GetEndpoint := (\<lambda>_ _ _. Inr unproven_endpoint_cr)\<rparr>"

theorem check_pending_probes_again_witness:
  "\<exists>r h' check'. check_Reconcile waiting_env xp_plain ''team'' ''demo'' [] = (r, h')
     \<and> List.last h' = EvStatusUpdateCheck check' \<and> http_requests h' \<noteq> [] \<and> workerAdmissionPending xp_plain check'"
proof -
  let ?s = "\<lparr>sec_ResourceVersion = ''9'', sec_Labels = [PurposeLabel \<mapsto> PurposeInference], sec_Data = [''key'' \<mapsto> ''tok'']\<rparr>"
  let ?h1 = "[EvGet KEndpointCheck ''team'' ''demo'']" and ?t = "secondsDuration (cp_TimeoutSeconds (ck_ForProvider pending_check))"
  obtain r h' where r: "check_Reconcile waiting_env xp_plain ''team'' ''demo'' [] = (r, h')" by fastforce
  have "fst (resolveEndpoint waiting_env xp_plain pending_check (?h1 @ [EvClock])) = Inr waiting_binding" by code_simp
  then obtain h2 where res: "resolveEndpoint waiting_env xp_plain pending_check (?h1 @ [EvClock]) = (Inr waiting_binding, h2)"
    by (metis eq_fst_iff)
  have p: "workerAdmissionPending xp_plain pending_check" "\<not> fullVerificationDue pending_check waiting_binding (sec_ResourceVersion ?s) (env_Now waiting_env ?h1)"
    "inference_New (eb_id waiting_binding) ''tok'' (if ?t = 0 then 3 * Minute else ?t) [] = Inr demo_inference_client"
    "env_Now waiting_env ?h1 < check_expires_at pending_check" "\<not> eb_workerProven waiting_binding" by code_simp+
  have g: "env_GetCheck waiting_env [] ''team'' ''demo'' = Inr pending_check" "env_NewRequest waiting_env m u = None"
    "env_GetSecret waiting_env h ns n = Inr ?s" for m u h ns n
    by (simp_all add: waiting_env_def admission_env_def passing_peer_def scripted_env_def)
  have c: "\<not> check_deleting pending_check" "RouterDrainFinalizer \<in> set (om_Finalizers (ck_Meta pending_check))"
    "map_get (sec_Labels ?s) PurposeLabel = PurposeInference"
    "sec_Data ?s (sks_Key (cp_InferenceCredentialsSecretRef (ck_ForProvider pending_check))) = Some ''tok''" by code_simp+
  from check_pending_probes_again [OF r xp_condition_laws_plain g(1) c(1,2) append_Nil [symmetric] p(4) res p(1,5) g(3) c(3,4) p(2) refl p(3) g(2)] r
  obtain check' where "h' = (h2 @ [EvGet KSecret (om_Namespace (ck_Meta pending_check))
        (sks_Name (cp_InferenceCredentialsSecretRef (ck_ForProvider pending_check))),
      EvHTTP (inference_request demo_inference_client MethodGet (endpointPath demo_inference_client ''/health'') None)]) @ [EvStatusUpdateCheck check']"
    "workerAdmissionPending xp_plain check'" by auto
  with r show ?thesis by simp
qed

section \<open>Bounds of the helpers\<close>

text \<open>
  The delay before the next reconciliation is positive and at most thirty seconds, whatever the
  deadline and the clock, and it does not pass a deadline that lies ahead.
\<close>

theorem nextPoll_bounds:
  "0 < sint (nextPoll expiresAt now) \<and> sint (nextPoll expiresAt now) \<le> 30 * 10 ^ 9
   \<and> (now < expiresAt \<longrightarrow> now + sint (nextPoll expiresAt now) \<le> expiresAt)"
proof -
  have p: "sint pollInterval = 30000000000" by (simp add: pollInterval_def Second_def)
  show ?thesis
    using p by (auto simp: nextPoll_def Let_def dur_less_def sint_SubTime)
qed

lemma HasPrefix_iff: "HasPrefix s p \<longleftrightarrow> (\<exists>b. s = p @ b)"
  by (induction p s rule: strip_prefix.induct) auto

lemma Index_None: "Index s p = None \<longleftrightarrow> \<not> Contains s p"
  by (induction s) (auto simp: HasPrefix_iff simp del: HasPrefix.simps)

text \<open>Cutting a text at the first key prefix and appending the mark leaves no key prefix.\<close>

lemma prefix_in_redacted:
  "c # t @ ''[REDACTED]'' = ''rpa_'' @ b \<Longrightarrow> \<exists>u. c # t = ''rpa_'' @ u"
  by (cases t; cases "tl t"; cases "tl (tl t)") auto

lemma Index_redacted:
  "Index s ''rpa_'' = Some i \<Longrightarrow> \<not> Contains (take i s @ ''[REDACTED]'') ''rpa_''"
proof (induction s arbitrary: i)
  case (Cons c s)
  show ?case
  proof (cases "HasPrefix (c # s) ''rpa_''")
    case True
    with Cons.prems show ?thesis by simp
  next
    case False
    with Cons.prems obtain j where j: "i = Suc j" "Index s ''rpa_'' = Some j" by (auto simp del: HasPrefix.simps)
    have "\<not> HasPrefix (c # take j s @ ''[REDACTED]'') ''rpa_''"
    proof
      assume "HasPrefix (c # take j s @ ''[REDACTED]'') ''rpa_''"
      then obtain u where "c # take j s = ''rpa_'' @ u" using prefix_in_redacted unfolding HasPrefix_iff by blast
      then have "c # s = ''rpa_'' @ u @ drop j s" by (metis append.assoc append_Cons append_take_drop_id)
      with False show False unfolding HasPrefix_iff by blast
    qed
    with Cons.IH [OF j(2)] j(1) show ?thesis by (simp del: HasPrefix.simps)
  qed
qed simp

text \<open>
  An error message kept in a status has at most 266 bytes and never contains the prefix of a
  RunPod key.
\<close>

theorem safeMessage_bounded:
  "length (safeMessage err) \<le> 266 \<and> \<not> Contains (safeMessage err) ''rpa_''"
proof -
  define msg where "msg = (if length (error_text err) > 256 then take 256 (error_text err) else error_text err)"
  then have l: "length msg \<le> 256" by simp
  have s: "safeMessage err = (case Index msg ''rpa_'' of None \<Rightarrow> msg | Some i \<Rightarrow> take i msg @ ''[REDACTED]'')"
    unfolding safeMessage_def Let_def msg_def by (rule refl)
  show ?thesis
  proof (cases "Index msg ''rpa_''")
    case None
    with s l show ?thesis by (simp add: Index_None)
  next
    case (Some i)
    with s l Index_redacted [OF Some] show ?thesis by simp
  qed
qed

end
