(* ===== verification/RouterState.thy ===== *)
theory RouterState
  imports EndpointCheck
begin

text \<open>
  The route of \<open>internal/router/router.go\<close> and its leases: the type \<open>route\<close> and the methods
  \<open>replace\<close>, \<open>withdraw\<close>, \<open>acquire\<close> and the release that acquire returns. A route struct is a cell
  of a store, so that the requests that hold a lease on it, the refresh that replaces it and the
  router that points to it share it. The two critical sections of \<open>replace\<close> (under the mutex, and
  after \<open>inflight.Wait\<close>) and those of \<open>acquire\<close> and \<open>release\<close> are single steps, and the inductive
  relation interleaves them: requests, one refresh at a time (\<open>refreshMu\<close>), and the stop of \<open>Run\<close>.
\<close>

section \<open>Routes and the store\<close>

record route =
  ro_namespace :: string
  ro_checkName :: string
  ro_endpointID :: string
  ro_expectedModelID :: string
  ro_token :: string

record lease =
  le_route :: route
  le_cancelled :: bool
  le_inflight :: nat
  le_cleared :: bool

record router =
  rr_store :: "lease list"
  rr_active :: "nat ptr"
  rr_stateError :: string

definition routesEquivalent :: "route \<Rightarrow> route \<Rightarrow> bool" where
  "routesEquivalent a b \<longleftrightarrow>
     ro_namespace a = ro_namespace b \<and> ro_checkName a = ro_checkName b \<and> ro_endpointID a = ro_endpointID b \<and>
     ro_expectedModelID a = ro_expectedModelID b \<and> ro_token a = ro_token b"

definition update_lease :: "nat \<Rightarrow> (lease \<Rightarrow> lease) \<Rightarrow> router \<Rightarrow> router" where
  "update_lease i f r = (if i < length (rr_store r) then r\<lparr>rr_store := (rr_store r)[i := f (rr_store r ! i)]\<rparr> else r)"

definition cancel :: "nat \<Rightarrow> router \<Rightarrow> router" where
  "cancel i = update_lease i (\<lambda>l. l\<lparr>le_cancelled := True\<rparr>)"

text \<open>\<open>clear(route.token)\<close> overwrites the bytes in place; the flag only records that it happened.\<close>

definition zeroed :: "route \<Rightarrow> route" where
  "zeroed n = n\<lparr>ro_token := replicate (length (ro_token n)) (CHR 0x00)\<rparr>"

definition clear_token :: "nat \<Rightarrow> router \<Rightarrow> router" where
  "clear_token i = update_lease i (\<lambda>l. l\<lparr>le_route := zeroed (le_route l), le_cleared := True\<rparr>)"

definition new_lease :: "route \<Rightarrow> lease" where
  "new_lease n = \<lparr>le_route = n, le_cancelled = False, le_inflight = 0, le_cleared = False\<rparr>"

text \<open>
  \<open>replace\<close> up to the release of the mutex. Its result is the route whose requests it has to wait
  for, if any. A new route that is equivalent to the active one is dropped at once: its token is
  cleared and its context cancelled, which no request has seen.
\<close>

definition replace_swap :: "route ptr \<Rightarrow> string \<Rightarrow> router \<Rightarrow> router \<times> nat ptr" where
  "replace_swap next stateErr r =
     (case (rr_active r, next) of
        (None, None) \<Rightarrow> (r\<lparr>rr_stateError := stateErr\<rparr>, None)
      | (Some previous, None) \<Rightarrow> (cancel previous (r\<lparr>rr_active := None, rr_stateError := stateErr\<rparr>), Some previous)
      | (None, Some n) \<Rightarrow>
          (r\<lparr>rr_store := rr_store r @ [new_lease n], rr_active := Some (length (rr_store r)), rr_stateError := stateErr\<rparr>, None)
      | (Some previous, Some n) \<Rightarrow>
          if previous < length (rr_store r) \<and> routesEquivalent (le_route (rr_store r ! previous)) n
          then (r\<lparr>rr_store := rr_store r @ [(new_lease (zeroed n))\<lparr>le_cancelled := True, le_cleared := True\<rparr>], rr_stateError := stateErr\<rparr>, None)
          else (cancel previous
                  (r\<lparr>rr_store := rr_store r @ [new_lease n], rr_active := Some (length (rr_store r)), rr_stateError := stateErr\<rparr>),
                Some previous))"

text \<open>The whole of \<open>replace\<close> when the wait is over: nothing else happens in between.\<close>

definition replace :: "route ptr \<Rightarrow> string \<Rightarrow> router \<Rightarrow> router" where
  "replace next stateErr r =
     (case replace_swap next stateErr r of
        (r', None) \<Rightarrow> r'
      | (r', Some previous) \<Rightarrow> clear_token previous r')"

definition acquire :: "router \<Rightarrow> router \<times> nat ptr" where
  "acquire r =
     (case rr_active r of
        None \<Rightarrow> (r, None)
      | Some active \<Rightarrow> (update_lease active (\<lambda>l. l\<lparr>le_inflight := Suc (le_inflight l)\<rparr>) r, Some active))"

definition release :: "nat \<Rightarrow> router \<Rightarrow> router" where
  "release active r = update_lease active (\<lambda>l. l\<lparr>le_inflight := le_inflight l - 1\<rparr>) r"

text \<open>\<open>inflight.Wait\<close> returns when the counter is zero.\<close>

definition drained :: "nat \<Rightarrow> router \<Rightarrow> bool" where
  "drained i r \<longleftrightarrow> i < length (rr_store r) \<and> le_inflight (rr_store r ! i) = 0"

section \<open>The interleaving\<close>

text \<open>
  The refresh that holds \<open>refreshMu\<close>: it waits for a replaced route, or it acknowledges the drain
  finalizers of the deleting checks it saw. The goroutine of \<open>Run\<close> may stop and then withdraws the
  route outside \<open>refreshMu\<close>. \<open>sy_held\<close> lists the leases that requests hold.
\<close>

datatype refresh_phase = RIdle | RWait nat "string list" | RAck "string list"

datatype stop_phase = SRunning | SWait nat | SStopped

record system =
  sy_router :: router
  sy_held :: "nat list"
  sy_refresh :: refresh_phase
  sy_stop :: stop_phase

inductive router_step :: "system \<Rightarrow> system \<Rightarrow> bool" where
  acquire: "acquire (sy_router s) = (r, Some i) \<Longrightarrow> router_step s (s\<lparr>sy_router := r, sy_held := i # sy_held s\<rparr>)"
| release: "i \<in> set (sy_held s) \<Longrightarrow>
    router_step s (s\<lparr>sy_router := release i (sy_router s), sy_held := remove1 i (sy_held s)\<rparr>)"
| refresh_wait: "sy_refresh s = RIdle \<Longrightarrow> (\<And>n. next = Some n \<Longrightarrow> ro_checkName n \<notin> set names) \<Longrightarrow>
    replace_swap next stateErr (sy_router s) = (r, Some previous) \<Longrightarrow>
    router_step s (s\<lparr>sy_router := r, sy_refresh := RWait previous names\<rparr>)"
| refresh_swap: "sy_refresh s = RIdle \<Longrightarrow> (\<And>n. next = Some n \<Longrightarrow> ro_checkName n \<notin> set names) \<Longrightarrow>
    replace_swap next stateErr (sy_router s) = (r, None) \<Longrightarrow>
    router_step s (s\<lparr>sy_router := r, sy_refresh := RAck names\<rparr>)"
| refresh_drained: "sy_refresh s = RWait previous names \<Longrightarrow> drained previous (sy_router s) \<Longrightarrow>
    router_step s (s\<lparr>sy_router := clear_token previous (sy_router s), sy_refresh := RAck names\<rparr>)"
| refresh_done: "sy_refresh s = RAck names \<Longrightarrow> router_step s (s\<lparr>sy_refresh := RIdle\<rparr>)"
| stop_wait: "sy_stop s = SRunning \<Longrightarrow> replace_swap None ''router stopped'' (sy_router s) = (r, Some previous) \<Longrightarrow>
    router_step s (s\<lparr>sy_router := r, sy_stop := SWait previous\<rparr>)"
| stop_swap: "sy_stop s = SRunning \<Longrightarrow> replace_swap None ''router stopped'' (sy_router s) = (r, None) \<Longrightarrow>
    router_step s (s\<lparr>sy_router := r, sy_stop := SStopped\<rparr>)"
| stop_drained: "sy_stop s = SWait previous \<Longrightarrow> drained previous (sy_router s) \<Longrightarrow>
    router_step s (s\<lparr>sy_router := clear_token previous (sy_router s), sy_stop := SStopped\<rparr>)"

inductive_cases router_stepE: "router_step s t"

definition initial_router :: router where
  "initial_router = \<lparr>rr_store = [], rr_active = None, rr_stateError = ''no admitted EndpointCheck''\<rparr>"

definition initial_system :: system where
  "initial_system = \<lparr>sy_router = initial_router, sy_held = [], sy_refresh = RIdle, sy_stop = SRunning\<rparr>"

section \<open>Invariants\<close>

text \<open>An invariant of a step relation holds along every run.\<close>

locale step_invariant =
  fixes step :: "'s \<Rightarrow> 's \<Rightarrow> bool"
    and inv :: "'s \<Rightarrow> bool"
  assumes preserved: "step s t \<Longrightarrow> inv s \<Longrightarrow> inv t"
begin

lemma along_run: "step\<^sup>*\<^sup>* s t \<Longrightarrow> inv s \<Longrightarrow> inv t"
  by (induction rule: rtranclp_induct) (auto intro: preserved)

end

lemma update_lease_simps [simp]:
  "length (rr_store (update_lease i f r)) = length (rr_store r)" "rr_active (update_lease i f r) = rr_active r"
  "j < length (rr_store r) \<Longrightarrow> rr_store (update_lease i f r) ! j = (if j = i then f (rr_store r ! i) else rr_store r ! j)"
  by (simp_all add: update_lease_def)

lemma update_lease_same:
  "(\<And>l. g (f l) = g l) \<Longrightarrow> g (rr_store (update_lease i f r) ! j) = g (rr_store r ! j)"
  by (cases "i = j") (auto simp: update_lease_def)

lemmas update_lease_route [simp] = update_lease_same [where g = le_route]

lemma clear_token_checkName [simp]:
  "ro_checkName (le_route (rr_store (clear_token i r) ! j)) = ro_checkName (le_route (rr_store r ! j))"
  unfolding clear_token_def by (rule update_lease_same) (simp add: zeroed_def)

lemma clear_token_active [simp]: "rr_active (clear_token i r) = rr_active r"
  by (simp add: clear_token_def)

definition lease_at :: "system \<Rightarrow> nat \<Rightarrow> lease" where
  "lease_at s i = rr_store (sy_router s) ! i"

definition leases :: "system \<Rightarrow> nat set" where
  "leases s = {..< length (rr_store (sy_router s))}"

definition waiting :: "system \<Rightarrow> nat set" where
  "waiting s = {p. \<exists>d. sy_refresh s = RWait p d} \<union> {p. sy_stop s = SWait p}"

text \<open>
  The counters count the leases held; the active route is neither cancelled nor cleared, every
  other one is cancelled; a cleared route has no holder; what is waited for is not active.
\<close>

definition lease_inv :: "system \<Rightarrow> bool" where
  "lease_inv s \<longleftrightarrow>
     set (sy_held s) \<subseteq> leases s \<and> waiting s \<subseteq> leases s
   \<and> (\<forall>i \<in> leases s. le_inflight (lease_at s i) = count_list (sy_held s) i)
   \<and> (\<forall>a. rr_active (sy_router s) = Some a \<longrightarrow> a \<in> leases s \<and> a \<notin> waiting s \<and> \<not> le_cleared (lease_at s a))
   \<and> (\<forall>i \<in> leases s. rr_active (sy_router s) = Some i \<or> le_cancelled (lease_at s i))
   \<and> (\<forall>i \<in> leases s. le_cleared (lease_at s i) \<longrightarrow> i \<notin> set (sy_held s))"

lemma lease_invD:
  assumes "lease_inv s"
  shows "i \<in> set (sy_held s) \<Longrightarrow> i < length (rr_store (sy_router s))"
    and "i \<in> waiting s \<Longrightarrow> i < length (rr_store (sy_router s))"
    and "i < length (rr_store (sy_router s)) \<Longrightarrow> le_inflight (lease_at s i) = count_list (sy_held s) i"
    and "rr_active (sy_router s) = Some i \<Longrightarrow> i < length (rr_store (sy_router s)) \<and> i \<notin> waiting s \<and> \<not> le_cleared (lease_at s i)"
    and "i < length (rr_store (sy_router s)) \<Longrightarrow> rr_active (sy_router s) = Some i \<or> le_cancelled (lease_at s i)"
    and "i < length (rr_store (sy_router s)) \<Longrightarrow> le_cleared (lease_at s i) \<Longrightarrow> i \<notin> set (sy_held s)"
  using assms by (auto simp: lease_inv_def leases_def)

lemma lease_invI:
  assumes "\<And>i. i \<in> set (sy_held s) \<or> i \<in> waiting s \<Longrightarrow> i < length (rr_store (sy_router s))"
    and "\<And>i. i < length (rr_store (sy_router s)) \<Longrightarrow> le_inflight (lease_at s i) = count_list (sy_held s) i"
    and "\<And>a. rr_active (sy_router s) = Some a \<Longrightarrow> a < length (rr_store (sy_router s)) \<and> a \<notin> waiting s \<and> \<not> le_cleared (lease_at s a)"
    and "\<And>i. i < length (rr_store (sy_router s)) \<Longrightarrow> rr_active (sy_router s) = Some i \<or> le_cancelled (lease_at s i)"
    and "\<And>i. i < length (rr_store (sy_router s)) \<Longrightarrow> le_cleared (lease_at s i) \<Longrightarrow> i \<notin> set (sy_held s)"
  shows "lease_inv s"
  using assms by (auto simp: lease_inv_def leases_def)

lemma count_list_remove1: "i \<in> set xs \<Longrightarrow> count_list (remove1 i xs) j = (if j = i then count_list xs j - 1 else count_list xs j)"
  by (induction xs) auto

lemma drained_not_held: "lease_inv s \<Longrightarrow> drained i (sy_router s) \<Longrightarrow> i \<notin> set (sy_held s)"
  using lease_invD(3) [of s i] by (auto simp: drained_def lease_at_def count_list_0_iff)

text \<open>What a swap does to the store: it cancels the route it returns and may add one at the end.\<close>

definition swap_effect :: "router \<Rightarrow> nat ptr \<Rightarrow> router \<Rightarrow> bool" where
  "swap_effect r w r' \<longleftrightarrow>
     length (rr_store r) \<le> length (rr_store r')
   \<and> (\<forall>i < length (rr_store r). le_inflight (rr_store r' ! i) = le_inflight (rr_store r ! i)
        \<and> le_cleared (rr_store r' ! i) = le_cleared (rr_store r ! i) \<and> le_route (rr_store r' ! i) = le_route (rr_store r ! i)
        \<and> (le_cancelled (rr_store r' ! i) \<longleftrightarrow> le_cancelled (rr_store r ! i) \<or> w = Some i))
   \<and> (\<forall>i. length (rr_store r) \<le> i \<and> i < length (rr_store r') \<longrightarrow> le_inflight (rr_store r' ! i) = 0
        \<and> (if rr_active r' = Some i then \<not> le_cleared (rr_store r' ! i) else le_cancelled (rr_store r' ! i)))
   \<and> (w = None \<and> rr_active r' = rr_active r
      \<or> w = rr_active r \<and> (\<forall>a. rr_active r' = Some a \<longrightarrow> a = length (rr_store r) \<and> a < length (rr_store r')))"

lemma replace_swap_effect:
  assumes "replace_swap next stateErr r = (r', w)" "\<And>a. rr_active r = Some a \<Longrightarrow> a < length (rr_store r)"
  shows "swap_effect r w r' \<and>
    (\<forall>a. rr_active r' = Some a \<longrightarrow> (\<exists>n. next = Some n \<and> ro_checkName (le_route (rr_store r' ! a)) = ro_checkName n))"
proof (cases "rr_active r")
  case None
  with assms show ?thesis
    by (auto simp: swap_effect_def replace_swap_def nth_append new_lease_def less_Suc_eq split: option.splits)
next
  case (Some p)
  with assms(2) have p: "p < length (rr_store r)" by simp
  show ?thesis
  proof (cases "\<exists>n. next = Some n \<and> routesEquivalent (le_route (rr_store r ! p)) n")
    case True
    with assms(1) Some p show ?thesis
      by (auto simp: swap_effect_def replace_swap_def nth_append new_lease_def less_Suc_eq routesEquivalent_def)
  next
    case False
    with assms(1) Some p show ?thesis
      by (auto simp: swap_effect_def replace_swap_def cancel_def nth_append new_lease_def less_Suc_eq split: option.splits if_splits)
  qed
qed

lemma swap_old:
  assumes "swap_effect r w r'" "i < length (rr_store r)"
  shows "i < length (rr_store r')" "le_inflight (rr_store r' ! i) = le_inflight (rr_store r ! i)"
    "le_cleared (rr_store r' ! i) = le_cleared (rr_store r ! i)" "le_route (rr_store r' ! i) = le_route (rr_store r ! i)"
    "le_cancelled (rr_store r' ! i) \<longleftrightarrow> le_cancelled (rr_store r ! i) \<or> w = Some i"
  using assms by (auto simp: swap_effect_def)

lemma swap_new:
  assumes "swap_effect r w r'" "length (rr_store r) \<le> i" "i < length (rr_store r')"
  shows "le_inflight (rr_store r' ! i) = 0" "rr_active r' = Some i \<Longrightarrow> \<not> le_cleared (rr_store r' ! i)"
    "rr_active r' \<noteq> Some i \<Longrightarrow> le_cancelled (rr_store r' ! i)"
  using assms unfolding swap_effect_def by (metis (full_types))+

lemma swap_active:
  assumes "swap_effect r w r'"
  obtains "w = None" "rr_active r' = rr_active r"
  | "w = rr_active r" "\<And>a. rr_active r' = Some a \<Longrightarrow> a = length (rr_store r) \<and> a < length (rr_store r')"
  using assms unfolding swap_effect_def by blast

text \<open>A swap keeps the invariant when what it returns is what the caller then waits for.\<close>

lemma lease_inv_swap:
  assumes inv: "lease_inv s" and swap: "swap_effect (sy_router s) w (sy_router t)"
    and held: "sy_held t = sy_held s" and wait: "waiting t = waiting s \<union> set_option w"
  shows "lease_inv t"
proof (rule lease_invI)
  have below: "i < length (rr_store (sy_router s))" if "i \<in> set (sy_held s) \<or> i \<in> waiting s" for i
    using that lease_invD(1,2) [OF inv] by blast
  have wl: "i < length (rr_store (sy_router s))" if "w = Some i" for i
    using swap that lease_invD(4) [OF inv, of i] by (auto elim: swap_active)
  fix i
  show "i < length (rr_store (sy_router t))" if "i \<in> set (sy_held t) \<or> i \<in> waiting t"
    using that below [of i] wl [of i] held wait swap_old(1) [OF swap, of i] by auto
  show "le_inflight (lease_at t i) = count_list (sy_held t) i" if "i < length (rr_store (sy_router t))"
    using that swap_old(2) [OF swap, of i] swap_new(1) [OF swap, of i] lease_invD(3) [OF inv, of i] below [of i] held
    by (cases "i < length (rr_store (sy_router s))") (auto simp: lease_at_def count_list_0_iff)
  show "i < length (rr_store (sy_router t)) \<and> i \<notin> waiting t \<and> \<not> le_cleared (lease_at t i)"
    if "rr_active (sy_router t) = Some i"
    using swap
  proof (rule swap_active)
    assume "w = None" "rr_active (sy_router t) = rr_active (sy_router s)"
    with that wait lease_invD(4) [OF inv, of i] swap_old [OF swap, of i] show ?thesis by (simp add: lease_at_def)
  next
    assume "\<And>a. rr_active (sy_router t) = Some a \<Longrightarrow> a = length (rr_store (sy_router s)) \<and> a < length (rr_store (sy_router t))"
    with that have "i = length (rr_store (sy_router s))" "i < length (rr_store (sy_router t))" by auto
    moreover from this below [of i] wl [of i] wait have "i \<notin> waiting t" by auto
    ultimately show ?thesis using swap_new(2) [OF swap, of i] that by (simp add: lease_at_def)
  qed
  show "rr_active (sy_router t) = Some i \<or> le_cancelled (lease_at t i)" if "i < length (rr_store (sy_router t))"
  proof (cases "i < length (rr_store (sy_router s))")
    case True
    with swap_old(5) [OF swap, of i] lease_invD(5) [OF inv, of i] swap show ?thesis
      by (auto simp: lease_at_def elim: swap_active)
  next
    case False
    with swap_new(3) [OF swap, of i] that show ?thesis by (auto simp: lease_at_def)
  qed
  show "i \<notin> set (sy_held t)" if "le_cleared (lease_at t i)"
    using that below [of i] swap_old(3) [OF swap, of i] lease_invD(6) [OF inv, of i] held by (auto simp: lease_at_def)
qed

lemma lease_inv_clear:
  assumes inv: "lease_inv s" and dr: "drained p (sy_router s)" "p \<in> waiting s"
    and t: "sy_router t = clear_token p (sy_router s)" "sy_held t = sy_held s" "waiting t \<subseteq> waiting s"
  shows "lease_inv t"
proof -
  have p: "p \<notin> set (sy_held s)" "rr_active (sy_router s) \<noteq> Some p"
    using drained_not_held [OF inv dr(1)] lease_invD(4) [OF inv, of p] dr(2) by auto
  show ?thesis
    using inv p t unfolding lease_inv_def
    by (auto simp: leases_def lease_at_def clear_token_def)
qed

lemma lease_inv_acquire:
  assumes inv: "lease_inv s" and acq: "acquire (sy_router s) = (r, Some i)"
  shows "lease_inv (s\<lparr>sy_router := r, sy_held := i # sy_held s\<rparr>)"
  using inv acq unfolding lease_inv_def
  by (auto simp: acquire_def leases_def lease_at_def waiting_def split: option.splits if_splits)

lemma lease_inv_release:
  assumes inv: "lease_inv s" and i: "i \<in> set (sy_held s)"
  shows "lease_inv (s\<lparr>sy_router := release i (sy_router s), sy_held := remove1 i (sy_held s)\<rparr>)"
  using inv i unfolding lease_inv_def
  by (auto simp: release_def leases_def lease_at_def waiting_def count_list_remove1 split: if_splits dest: notin_set_remove1 set_mp [OF set_remove1_subset])

lemma step_swap_effect:
  "lease_inv s \<Longrightarrow> replace_swap next stateErr (sy_router s) = (r, w) \<Longrightarrow> swap_effect (sy_router s) w r"
  using replace_swap_effect lease_invD(4) by blast

lemma lease_inv_step: "router_step s t \<Longrightarrow> lease_inv s \<Longrightarrow> lease_inv t"
proof (induction rule: router_step.induct)
  case (refresh_wait s "next" names stateErr r previous)
  show ?case
    by (rule lease_inv_swap [OF refresh_wait(4), where w = "Some previous"])
      (use refresh_wait step_swap_effect [OF refresh_wait(4,3)] in \<open>auto simp: waiting_def\<close>)
next
  case (refresh_swap s "next" names stateErr r)
  show ?case
    by (rule lease_inv_swap [OF refresh_swap(4), where w = None])
      (use refresh_swap step_swap_effect [OF refresh_swap(4,3)] in \<open>auto simp: waiting_def\<close>)
next
  case (stop_wait s r previous)
  show ?case
    by (rule lease_inv_swap [OF stop_wait(3), where w = "Some previous"])
      (use stop_wait step_swap_effect [OF stop_wait(3,2)] in \<open>auto simp: waiting_def\<close>)
next
  case (stop_swap s r)
  show ?case
    by (rule lease_inv_swap [OF stop_swap(3), where w = None])
      (use stop_swap step_swap_effect [OF stop_swap(3,2)] in \<open>auto simp: waiting_def\<close>)
next
  case (refresh_drained s previous names)
  show ?case by (rule lease_inv_clear [OF refresh_drained(3,2)]) (use refresh_drained(1) in \<open>auto simp: waiting_def\<close>)
next
  case (stop_drained s previous)
  show ?case by (rule lease_inv_clear [OF stop_drained(3,2)]) (use stop_drained(1) in \<open>auto simp: waiting_def\<close>)
next
  case (refresh_done s names)
  then show ?case by (auto simp: lease_inv_def leases_def lease_at_def waiting_def)
qed (auto intro: lease_inv_acquire lease_inv_release)

interpretation lease: step_invariant router_step lease_inv
  by unfold_locales (rule lease_inv_step)

lemma lease_inv_initial: "lease_inv initial_system"
  by (simp add: lease_inv_def initial_system_def initial_router_def leases_def waiting_def)

section \<open>Draining\<close>

text \<open>
  While \<open>Run\<close> has not stopped, a request that is not on the active route is one the refresh waits
  for, and the route a refresh has put in place is not of a check whose finalizer it is about to
  acknowledge.
\<close>

definition refresh_names :: "refresh_phase \<Rightarrow> string list" where
  "refresh_names p = (case p of RIdle \<Rightarrow> [] | RWait _ names \<Rightarrow> names | RAck names \<Rightarrow> names)"

definition drain_inv :: "system \<Rightarrow> bool" where
  "drain_inv s \<longleftrightarrow> lease_inv s \<and>
     (sy_stop s = SRunning \<longrightarrow>
        (\<forall>i \<in> set (sy_held s). rr_active (sy_router s) = Some i \<or> (\<exists>names. sy_refresh s = RWait i names))
      \<and> (\<forall>a. rr_active (sy_router s) = Some a \<longrightarrow> ro_checkName (le_route (lease_at s a)) \<notin> set (refresh_names (sy_refresh s))))"

lemma drain_inv_swap:
  assumes inv: "drain_inv s" and idle: "sy_refresh s = RIdle" and stop: "sy_stop s = SRunning"
    and nx: "\<And>n. next = Some n \<Longrightarrow> ro_checkName n \<notin> set names"
    and swap: "replace_swap next stateErr (sy_router s) = (r, w)"
    and t: "sy_router t = r" "sy_held t = sy_held s" "sy_refresh t = (case w of None \<Rightarrow> RAck names | Some p \<Rightarrow> RWait p names)"
    and lease: "lease_inv t"
  shows "drain_inv t"
proof -
  have act: "\<And>a. rr_active (sy_router s) = Some a \<Longrightarrow> a < length (rr_store (sy_router s))"
    using inv lease_invD(4) by (auto simp: drain_inv_def)
  have eff: "swap_effect (sy_router s) w r"
    and nm: "\<And>a. rr_active r = Some a \<Longrightarrow> \<exists>n. next = Some n \<and> ro_checkName (le_route (rr_store r ! a)) = ro_checkName n"
    using replace_swap_effect [OF swap act] by auto
  have held: "rr_active (sy_router s) = Some i" if "i \<in> set (sy_held s)" for i
    using inv idle stop that by (auto simp: drain_inv_def)
  have "rr_active r = Some i \<or> w = Some i" if "i \<in> set (sy_held s)" for i
    using eff held [OF that] by (auto elim: swap_active)
  moreover have "set (refresh_names (sy_refresh t)) = set names"
    using t(3) by (auto simp: refresh_names_def split: option.splits)
  ultimately show ?thesis
    using lease nm nx t by (fastforce simp: drain_inv_def lease_at_def)
qed

lemma drain_inv_step: "router_step s t \<Longrightarrow> drain_inv s \<Longrightarrow> drain_inv t"
proof (goal_cases)
  case 1
  then have lease: "lease_inv t" and inv: "drain_inv s" "lease_inv s"
    using lease_inv_step by (auto simp: drain_inv_def)
  show ?case
    using 1(1)
  proof (cases rule: router_step.cases)
    case (acquire r i)
    with inv lease show ?thesis by (auto simp: drain_inv_def acquire_def lease_at_def split: option.splits)
  next
    case (release i)
    with inv lease show ?thesis
      by (auto simp: drain_inv_def release_def lease_at_def dest: set_mp [OF set_remove1_subset])
  next
    case (refresh_wait "next" names stateErr r previous)
    with inv lease drain_inv_swap [of s "next" names stateErr r "Some previous" t] show ?thesis
      by (cases "sy_stop s = SRunning") (auto simp: drain_inv_def)
  next
    case (refresh_swap "next" names stateErr r)
    with inv lease drain_inv_swap [of s "next" names stateErr r None t] show ?thesis
      by (cases "sy_stop s = SRunning") (auto simp: drain_inv_def)
  next
    case (refresh_drained previous names)
    with inv lease drained_not_held [OF inv(2)] show ?thesis
      by (auto simp: drain_inv_def lease_at_def refresh_names_def)
  next
    case (refresh_done names)
    with inv lease show ?thesis by (auto simp: drain_inv_def lease_at_def refresh_names_def)
  qed (use inv lease in \<open>auto simp: drain_inv_def\<close>)
qed

interpretation drain: step_invariant router_step drain_inv
  by unfold_locales (rule drain_inv_step)

lemma drain_inv_initial: "drain_inv initial_system"
  using lease_inv_initial by (simp add: drain_inv_def initial_system_def initial_router_def)

text \<open>A route that is not active never is again, and its counter only goes down.\<close>

lemma inactive_step:
  assumes step: "router_step s t" and inv: "lease_inv s"
    and i: "i < length (rr_store (sy_router s))" "rr_active (sy_router s) \<noteq> Some i"
  shows "i < length (rr_store (sy_router t))" "rr_active (sy_router t) \<noteq> Some i"
    "le_inflight (lease_at t i) \<le> le_inflight (lease_at s i)"
proof -
  have swap: "i < length (rr_store r) \<and> rr_active r \<noteq> Some i \<and> le_inflight (rr_store r ! i) = le_inflight (lease_at s i)"
    if "replace_swap next stateErr (sy_router s) = (r, w)" for "next" stateErr r w
    using step_swap_effect [OF inv that] swap_old [OF step_swap_effect [OF inv that] i(1)] i
    by (auto simp: lease_at_def elim: swap_active)
  have "i < length (rr_store (sy_router t)) \<and> rr_active (sy_router t) \<noteq> Some i
      \<and> le_inflight (lease_at t i) \<le> le_inflight (lease_at s i)"
    using step i swap by cases (auto simp: lease_at_def acquire_def release_def clear_token_def split: option.splits)
  then show "i < length (rr_store (sy_router t))" "rr_active (sy_router t) \<noteq> Some i"
    "le_inflight (lease_at t i) \<le> le_inflight (lease_at s i)" by auto
qed

text \<open>The route of a held lease never changes, token included.\<close>

lemma held_step:
  assumes step: "router_step s t" and inv: "lease_inv s" and i: "i \<in> set (sy_held s)"
  shows "le_route (lease_at t i) = le_route (lease_at s i)"
proof -
  note bound = lease_invD(1) [OF inv i]
  have swap: "le_route (rr_store r ! i) = le_route (lease_at s i)"
    if "replace_swap next stateErr (sy_router s) = (r, w)" for "next" stateErr r w
    using swap_old(4) [OF step_swap_effect [OF inv that] bound] by (simp add: lease_at_def)
  show ?thesis
    using step bound swap i drained_not_held [OF inv, of i]
    by cases (auto simp: lease_at_def acquire_def release_def clear_token_def split: option.splits)
qed

lemma inactive_run:
  assumes "router_step\<^sup>*\<^sup>* s t" "lease_inv s" "i < length (rr_store (sy_router s))" "rr_active (sy_router s) \<noteq> Some i"
  shows "lease_inv t \<and> i < length (rr_store (sy_router t)) \<and> rr_active (sy_router t) \<noteq> Some i
    \<and> le_inflight (lease_at t i) \<le> le_inflight (lease_at s i)"
  using assms(1)
proof (induction rule: rtranclp_induct)
  case (step t u)
  with inactive_step [of t u i] lease_inv_step [of t u] show ?case by (auto intro: le_trans)
qed (use assms in auto)

text \<open>The requests that hold leases can end one after the other, which leaves the refresh as it is.\<close>

lemma release_all:
  assumes "lease_inv s"
  shows "\<exists>t. router_step\<^sup>*\<^sup>* s t \<and> sy_held t = [] \<and> sy_refresh t = sy_refresh s"
  using assms
proof (induction "length (sy_held s)" arbitrary: s)
  case (Suc n)
  then obtain i rest where held: "sy_held s = i # rest" by (cases "sy_held s") auto
  let ?t = "s\<lparr>sy_router := release i (sy_router s), sy_held := remove1 i (sy_held s)\<rparr>"
  have step: "router_step s ?t" by (rule release) (simp add: held)
  moreover from Suc.hyps(1) [of ?t] lease_inv_step [OF step Suc.prems] Suc.hyps(2) held
  obtain t where "router_step\<^sup>*\<^sup>* ?t t" "sy_held t = []" "sy_refresh t = sy_refresh s" by auto
  ultimately show ?case by (meson converse_rtranclp_into_rtranclp)
qed auto

lemma wait_can_end:
  assumes inv: "lease_inv s" and wait: "sy_refresh s = RWait p names"
  shows "\<exists>t. router_step\<^sup>*\<^sup>* s t \<and> sy_refresh t = RAck names"
proof -
  from release_all [OF inv] wait obtain t
    where t: "router_step\<^sup>*\<^sup>* s t" "sy_held t = []" "sy_refresh t = RWait p names" by auto
  have inv': "lease_inv t" by (rule lease.along_run [OF t(1) inv])
  have "p < length (rr_store (sy_router t))"
    using lease_invD(2) [OF inv', of p] t(3) by (auto simp: waiting_def)
  with lease_invD(3) [OF inv', of p] t(2) have "drained p (sy_router t)" by (simp add: drained_def lease_at_def)
  from router_step.refresh_drained [OF t(3) this] t(1) show ?thesis
    by (intro exI [of _ "t\<lparr>sy_router := clear_token p (sy_router t), sy_refresh := RAck names\<rparr>"]) auto
qed

section \<open>A run\<close>

text \<open>
  A check \<open>a\<close> is admitted, a request takes a lease on its route, the check is deleted while check
  \<open>b\<close> is admitted, a request takes a lease on the new route, and the old lease is released.
\<close>

definition demo_route :: "string \<Rightarrow> route" where
  "demo_route n = \<lparr>ro_namespace = ''ns'', ro_checkName = n, ro_endpointID = ''ep'', ro_expectedModelID = ''m'', ro_token = ''t''\<rparr>"

definition demo_admitted :: system where
  "demo_admitted = initial_system\<lparr>sy_router := fst (replace_swap (Some (demo_route ''a'')) [] initial_router)\<rparr>"

definition demo_leased :: system where
  "demo_leased = demo_admitted\<lparr>sy_router := fst (acquire (sy_router demo_admitted)), sy_held := [0]\<rparr>"

definition demo_waiting :: system where
  "demo_waiting = demo_leased\<lparr>sy_router := fst (replace_swap (Some (demo_route ''b'')) [] (sy_router demo_leased)),
     sy_refresh := RWait 0 [''a'']\<rparr>"

definition demo_both :: system where
  "demo_both = demo_waiting\<lparr>sy_router := fst (acquire (sy_router demo_waiting)), sy_held := [1, 0]\<rparr>"

definition demo_drained :: system where
  "demo_drained = demo_both\<lparr>sy_router := clear_token 0 (release 0 (sy_router demo_both)), sy_held := [1], sy_refresh := RAck [''a'']\<rparr>"

lemmas demo_defs = demo_admitted_def demo_leased_def demo_waiting_def demo_both_def demo_drained_def demo_route_def
  initial_system_def initial_router_def replace_swap_def acquire_def release_def clear_token_def cancel_def update_lease_def
  new_lease_def routesEquivalent_def drained_def zeroed_def

lemma demo_admitted_run: "router_step\<^sup>*\<^sup>* initial_system demo_admitted"
proof -
  let ?s = "initial_system\<lparr>sy_router := sy_router demo_admitted, sy_refresh := RAck []\<rparr>"
  have "router_step initial_system ?s"
    by (rule refresh_swap [of _ "Some (demo_route ''a'')" "[]" "[]"]) (simp_all add: demo_defs)
  moreover have "router_step ?s demo_admitted"
    using refresh_done [of ?s "[]"] by (simp add: demo_defs)
  ultimately show ?thesis by auto
qed

lemma demo_leased_step: "router_step demo_admitted demo_leased"
  using acquire [of demo_admitted "sy_router demo_leased" 0] by (simp add: demo_defs)

lemma demo_waiting_step: "router_step demo_leased demo_waiting"
  using refresh_wait [of demo_leased "Some (demo_route ''b'')" "[''a'']" "[]" "sy_router demo_waiting" 0]
  by (simp add: demo_defs)

lemma demo_drained_run: "router_step\<^sup>*\<^sup>* demo_waiting demo_drained"
proof -
  let ?s = "demo_both\<lparr>sy_router := release 0 (sy_router demo_both), sy_held := [1]\<rparr>"
  have "router_step demo_waiting demo_both"
    using acquire [of demo_waiting "sy_router demo_both" 1] by (simp add: demo_defs)
  moreover have "router_step demo_both ?s"
    using release [of 0 demo_both] by (simp add: demo_defs)
  moreover have "router_step ?s demo_drained"
    using refresh_drained [of ?s 0 "[''a'']"] by (simp add: demo_defs)
  ultimately show ?thesis by (meson rtranclp.rtrancl_refl rtranclp.rtrancl_into_rtrancl)
qed

lemma demo_run: "router_step\<^sup>*\<^sup>* initial_system demo_leased" "router_step\<^sup>*\<^sup>* initial_system demo_waiting"
  "router_step\<^sup>*\<^sup>* initial_system demo_drained"
  using demo_admitted_run demo_leased_step demo_waiting_step demo_drained_run
  by (meson rtranclp.rtrancl_into_rtrancl rtranclp_trans)+

section \<open>Properties\<close>

text \<open>
  C13: In every interleaving, the route of a request in flight never changes, credential bytes
  included, until the request ends; its token has not been erased, and when its route is no
  longer the active one its context is cancelled.
\<close>

theorem router_lease_safe:
  assumes "router_step\<^sup>*\<^sup>* initial_system s" "router_step s t" "i \<in> set (sy_held s)"
  shows "le_route (lease_at t i) = le_route (lease_at s i) \<and> \<not> le_cleared (lease_at s i)
    \<and> (rr_active (sy_router s) = Some i \<or> le_cancelled (lease_at s i))"
proof -
  have inv: "lease_inv s" by (rule lease.along_run [OF assms(1) lease_inv_initial])
  with assms held_step lease_invD(1,5,6) show ?thesis by metis
qed

theorem router_lease_safe_witness:
  "le_route (lease_at demo_waiting 0) = le_route (lease_at demo_leased 0) \<and> \<not> le_cleared (lease_at demo_leased 0)
    \<and> (rr_active (sy_router demo_leased) = Some 0 \<or> le_cancelled (lease_at demo_leased 0))"
  by (rule router_lease_safe [OF demo_run(1) demo_waiting_step]) (simp add: demo_leased_def)

text \<open>
  C6: As long as \<open>Run\<close> has not stopped, no request holds a lease on the route of a check at the
  moment the refresh acknowledges that check's drain finalizer.
\<close>

theorem router_drain_sound:
  assumes "router_step\<^sup>*\<^sup>* initial_system s" "sy_stop s = SRunning" "sy_refresh s = RAck names" "i \<in> set (sy_held s)"
  shows "ro_checkName (le_route (lease_at s i)) \<notin> set names"
  using drain.along_run [OF assms(1) drain_inv_initial] assms(2-4) by (auto simp: drain_inv_def refresh_names_def)

theorem router_drain_sound_witness: "ro_checkName (le_route (lease_at demo_drained 1)) \<notin> set [''a'']"
  by (rule router_drain_sound [OF demo_run(3)]) (simp_all add: demo_defs)

text \<open>
  C26: When \<open>Run\<close> stops, it withdraws the route outside the lock of \<open>Refresh\<close>; a refresh that runs
  meanwhile finds no active route, does not wait, and acknowledges the drain finalizer of a check
  whose route a request still holds.
\<close>

theorem router_stop_race:
  "\<exists>s i names. router_step\<^sup>*\<^sup>* initial_system s \<and> sy_refresh s = RAck names \<and> i \<in> set (sy_held s)
     \<and> ro_checkName (le_route (lease_at s i)) \<in> set names"
proof -
  let ?r = "fst (replace_swap None ''router stopped'' (sy_router demo_leased))"
  let ?s = "demo_leased\<lparr>sy_router := ?r, sy_stop := SWait 0\<rparr>"
  let ?t = "?s\<lparr>sy_router := ?r\<lparr>rr_stateError := []\<rparr>, sy_refresh := RAck [''a'']\<rparr>"
  have "router_step demo_leased ?s"
    by (rule stop_wait) (simp_all add: demo_defs)
  moreover have "router_step ?s ?t"
    using refresh_swap [of ?s None "[''a'']" "[]" "?r\<lparr>rr_stateError := []\<rparr>"] by (simp add: demo_defs)
  ultimately have "router_step\<^sup>*\<^sup>* initial_system ?t"
    using demo_run(1) by (meson rtranclp.rtrancl_into_rtrancl)
  moreover have "sy_refresh ?t = RAck [''a'']" "0 \<in> set (sy_held ?t)" "ro_checkName (le_route (lease_at ?t 0)) \<in> set [''a'']"
    by (simp_all add: demo_defs lease_at_def)
  ultimately show ?thesis by blast
qed

text \<open>
  C22: The wait of \<open>replace\<close> ends: once a route is replaced no request can take a new lease on it, so
  its counter never grows again, and when the requests that hold it return, the refresh goes on to
  acknowledge the finalizers.
\<close>

theorem router_wait_ends:
  assumes "router_step\<^sup>*\<^sup>* initial_system s" "sy_refresh s = RWait p names"
  shows "(\<forall>t. router_step\<^sup>*\<^sup>* s t \<longrightarrow> rr_active (sy_router t) \<noteq> Some p \<and> le_inflight (lease_at t p) \<le> le_inflight (lease_at s p))
    \<and> (\<exists>t. router_step\<^sup>*\<^sup>* s t \<and> sy_refresh t = RAck names)"
proof -
  have inv: "lease_inv s" by (rule lease.along_run [OF assms(1) lease_inv_initial])
  moreover have "p \<in> waiting s" using assms(2) by (auto simp: waiting_def)
  ultimately show ?thesis
    using inactive_run lease_invD(2,4) wait_can_end [OF inv assms(2)] by blast
qed

theorem router_wait_ends_witness:
  "rr_active (sy_router demo_drained) \<noteq> Some 0 \<and> le_inflight (lease_at demo_drained 0) \<le> le_inflight (lease_at demo_waiting 0)
    \<and> (\<exists>t. router_step\<^sup>*\<^sup>* demo_waiting t \<and> sy_refresh t = RAck [''a''])"
proof -
  have "sy_refresh demo_waiting = RWait 0 [''a'']" by (simp add: demo_waiting_def)
  from router_wait_ends [OF demo_run(2) this] demo_drained_run show ?thesis by blast
qed

end
