(* ===== verification/Router.thy ===== *)
theory Router
  imports RouterState "HOL-Library.List_Lexorder" "HOL-Library.Char_ord" "HOL-Library.Product_Lexorder"
begin

text \<open>
  \<open>Router.Refresh\<close> of \<open>internal/router/router.go\<close>: the transaction that reads the EndpointChecks, the
  Endpoint and Template of each candidate and the inference Secret, reads the EndpointChecks a
  second time, and commits a route or withdraws it. \<open>refresh_decide\<close> is the reading part, with the
  route change it decides; \<open>Refresh\<close> applies the change to the route store of \<open>RouterState\<close> and
  acknowledges the drain finalizers. The JSON text of an EndpointCheck list, which
  \<open>endpointCheckRevision\<close> compares, is the parameter \<open>marshal\<close>: it depends on the encoders of the
  Kubernetes types.
\<close>

section \<open>Constants and helpers\<close>

definition LogicalModelID :: string where
  "LogicalModelID = ''runpod-experiment''"

definition maxLivenessAge :: duration where
  "maxLivenessAge = 90 * Second"

fun hasString :: "string list \<Rightarrow> string \<Rightarrow> bool" where
  "hasString [] target = False"
| "hasString (v # vs) target = (if v = target then True else hasString vs target)"

text \<open>\<open>removeString\<close> drops the first occurrence and tells whether there was one.\<close>

fun removeString :: "string list \<Rightarrow> string \<Rightarrow> string list \<times> bool" where
  "removeString [] target = ([], False)"
| "removeString (v # vs) target =
     (if v = target then (vs, True) else (case removeString vs target of (ws, found) \<Rightarrow> (v # ws, found)))"

section \<open>The Endpoint and Template revision\<close>

definition router_endpoint_current :: "xp \<Rightarrow> endpoint_cr \<Rightarrow> gotime \<Rightarrow> bool" where
  "router_endpoint_current x ep now \<longleftrightarrow>
     \<not> deleting ep \<and> mg_ObservedGeneration ep = om_Generation (mg_Meta ep) \<and>
     xp_GetCondition x (mg_Conditions ep) TypeReady = ConditionTrue \<and>
     xp_GetCondition x (mg_Conditions ep) TypeSynced = ConditionTrue \<and>
     Before now (expires_at ep) \<and> FlashBootEvidenceCurrent (ec_AtProvider ep) now \<and> WorkerSecurityEvidenceCurrent (ec_AtProvider ep)"

definition router_template_current :: "xp \<Rightarrow> endpoint_cr \<Rightarrow> template_cr \<Rightarrow> gotime \<Rightarrow> bool" where
  "router_template_current x ep template now \<longleftrightarrow>
     \<not> deleting template \<and> mg_ObservedGeneration template = om_Generation (mg_Meta template) \<and>
     xp_GetCondition x (mg_Conditions template) TypeReady = ConditionTrue \<and>
     xp_GetCondition x (mg_Conditions template) TypeSynced = ConditionTrue \<and>
     (IsZero (om_CreationTimestamp (mg_Meta template)) \<or>
      Before now (deadline (om_CreationTimestamp (mg_Meta template)) (tp_MaxLifetimeSeconds (tc_ForProvider template)))) \<and>
     om_UID (mg_Meta template) = eo_TemplateResourceUID (ec_AtProvider ep) \<and>
     om_Generation (mg_Meta template) = eo_TemplateResourceGeneration (ec_AtProvider ep) \<and>
     tp_ImageName (tc_ForProvider template) = eo_TemplateImageDigest (ec_AtProvider ep)"

definition router_binding_current :: "xp \<Rightarrow> check_observation \<Rightarrow> endpoint_cr \<Rightarrow> template_cr \<Rightarrow> bool" where
  "router_binding_current x observed ep template \<longleftrightarrow>
     (let endpointID = GetExternalName x ep; templateID = GetExternalName x template; obs = ec_AtProvider ep
      in ValidateRunPodID endpointID = None \<and> endpointID = eo_ID obs \<and> endpointID = co_EndpointID observed \<and>
         ValidateRunPodID templateID = None \<and> templateID = to_ID (tc_AtProvider template) \<and> templateID = eo_TemplateID obs \<and>
         om_UID (mg_Meta ep) = co_EndpointResourceUID observed \<and> om_Generation (mg_Meta ep) = co_EndpointResourceGeneration observed \<and>
         eo_Version obs \<noteq> None \<and> co_EndpointVersion observed \<noteq> None \<and> the (eo_Version obs) = the (co_EndpointVersion observed) \<and>
         eo_TemplateResourceUID obs = co_TemplateResourceUID observed \<and>
         eo_TemplateResourceGeneration obs = co_TemplateResourceGeneration observed \<and>
         eo_TemplateImageDigest obs = co_TemplateImageDigest observed)"

definition endpointRevisionMatches :: "env \<Rightarrow> xp \<Rightarrow> endpoint_check \<Rightarrow> gotime \<Rightarrow> trace \<Rightarrow> bool \<times> trace" where
  "endpointRevisionMatches E x check now h =
     (case cp_EndpointIDRef (ck_ForProvider check) of
        None \<Rightarrow> (False, h)
      | Some ref \<Rightarrow>
          (case get_Endpoint E (om_Namespace (ck_Meta check)) (ref_Name ref) h of
             (Inl _, h1) \<Rightarrow> (False, h1)
           | (Inr ep, h1) \<Rightarrow>
               (case ep_TemplateIDRef (ec_ForProvider ep) of
                  None \<Rightarrow> (False, h1)
                | Some templateRef \<Rightarrow>
                    (case get_Template E (om_Namespace (mg_Meta ep)) (ref_Name templateRef) h1 of
                       (Inl _, h2) \<Rightarrow> (False, h2)
                     | (Inr template, h2) \<Rightarrow>
                         (router_endpoint_current x ep now \<and> router_template_current x ep template now \<and>
                          router_binding_current x (ck_AtProvider check) ep template, h2)))))"

section \<open>Candidates\<close>

definition check_fresh :: "endpoint_check \<Rightarrow> gotime \<Rightarrow> bool" where
  "check_fresh check now \<longleftrightarrow>
     (let observed = ck_AtProvider check;
          interval = secondsDuration (cp_VerificationIntervalSeconds (ck_ForProvider check));
          verificationInterval = (if interval = 0 then Hour else interval)
      in ck_ObservedGeneration check = om_Generation (ck_Meta check) \<and>
         \<not> IsZero (co_LastCheckedAt observed) \<and> \<not> After (co_LastCheckedAt observed) (AddDuration now (30 * Second)) \<and>
         dur_le (SubTime now (co_LastCheckedAt observed)) maxLivenessAge \<and>
         \<not> IsZero (co_LastVerifiedAt observed) \<and> \<not> After (co_LastVerifiedAt observed) (AddDuration now (30 * Second)) \<and>
         dur_le (SubTime now (co_LastVerifiedAt observed)) (verificationInterval + maxLivenessAge))"

definition check_candidate :: "xp \<Rightarrow> endpoint_check \<Rightarrow> gotime \<Rightarrow> bool" where
  "check_candidate x check now \<longleftrightarrow>
     (let observed = ck_AtProvider check
      in xp_GetCondition x (ck_Conditions check) TypeReady = ConditionTrue \<and>
         hasString (om_Finalizers (ck_Meta check)) RouterDrainFinalizer \<and> check_fresh check now \<and> Before now (check_expires_at check) \<and>
         co_Healthy observed \<and> co_ModelVerified observed \<and> co_ToolCallVerified observed \<and> co_EndpointID observed \<noteq> [])"

text \<open>The loop over the list: the eligible and the deleting checks, in order.\<close>

fun refresh_scan :: "env \<Rightarrow> xp \<Rightarrow> gotime \<Rightarrow> endpoint_check list \<Rightarrow> trace \<Rightarrow> (endpoint_check list \<times> endpoint_check list) \<times> trace" where
  "refresh_scan E x now [] h = (([], []), h)"
| "refresh_scan E x now (check # checks) h =
     (if check_deleting check
      then (case refresh_scan E x now checks h of ((eligible, dels), h') \<Rightarrow> ((eligible, check # dels), h'))
      else case (if check_candidate x check now then endpointRevisionMatches E x check now h else (False, h)) of
             (matches, h1) \<Rightarrow>
               (case refresh_scan E x now checks h1 of
                  ((eligible, dels), h') \<Rightarrow>
                    ((if matches \<and> ValidateRunPodID (co_EndpointID (ck_AtProvider check)) = None then check # eligible else eligible,
                      dels), h')))"

section \<open>The route of the only candidate\<close>

definition token_malformed :: "string \<Rightarrow> bool" where
  "token_malformed token \<longleftrightarrow>
     length token = 0 \<or> length token > 4096 \<or> token \<noteq> TrimSpace token \<or> ContainsAny token [CHR 0x0D, CHR 0x0A]"

definition route_of :: "endpoint_check \<Rightarrow> string \<Rightarrow> route" where
  "route_of check token =
     \<lparr>ro_namespace = om_Namespace (ck_Meta check), ro_checkName = om_Name (ck_Meta check),
      ro_endpointID = co_EndpointID (ck_AtProvider check), ro_expectedModelID = cp_ExpectedModelID (ck_ForProvider check),
      ro_token = token\<rparr>"

definition refresh_single :: "env \<Rightarrow> xp \<Rightarrow> string \<Rightarrow> endpoint_check \<Rightarrow> trace \<Rightarrow> (route ptr \<times> string) \<times> trace" where
  "refresh_single E x namespace check h =
     (let ref = cp_InferenceCredentialsSecretRef (ck_ForProvider check);
          version = co_CredentialsSecretResourceVersion (ck_AtProvider check)
      in case get_Secret E namespace (sks_Name ref) h of
           (Inl _, h1) \<Rightarrow> ((None, ''cannot read inference credential''), h1)
         | (Inr secret, h1) \<Rightarrow>
             if RequirePurpose (Some secret) PurposeInference \<noteq> None
             then ((None, ''inference credential has the wrong purpose''), h1)
             else if version = [] \<or> sec_ResourceVersion secret \<noteq> version
             then ((None, ''inference credential changed since verification''), h1)
             else (let token = map_get (sec_Data secret) (sks_Key ref)
                   in if token_malformed token then ((None, ''inference credential is absent or malformed''), h1)
                      else (case time_Now E h1 of
                              (now, h2) \<Rightarrow>
                                (case endpointRevisionMatches E x check now h2 of
                                   (matches, h3) \<Rightarrow>
                                     if \<not> matches then ((None, ''referenced Endpoint changed since verification''), h3)
                                     else ((Some (route_of check token), []), h3)))))"

definition refresh_route :: "env \<Rightarrow> xp \<Rightarrow> string \<Rightarrow> endpoint_check list \<Rightarrow> trace \<Rightarrow> (route ptr \<times> string) \<times> trace" where
  "refresh_route E x namespace eligible h =
     (case eligible of
        [] \<Rightarrow> ((None, ''no admitted EndpointCheck''), h)
      | [check] \<Rightarrow> refresh_single E x namespace check h
      | _ \<Rightarrow> ((None, ''multiple admitted EndpointChecks; single-route policy failed closed''), h))"

section \<open>The transaction\<close>

text \<open>\<open>sort.Slice\<close> by namespace and name, which together identify an object of the API.\<close>

definition endpointCheckRevision :: "(endpoint_check list \<Rightarrow> string + string) \<Rightarrow> endpoint_check list \<Rightarrow> string result" where
  "endpointCheckRevision marshal checks =
     (case marshal (sort_key (\<lambda>c. (om_Namespace (ck_Meta c), om_Name (ck_Meta c))) checks) of
        Inl e \<Rightarrow> Inl (wrap_text ''encode EndpointCheck revision'' (Err e))
      | Inr encoded \<Rightarrow> Inr encoded)"

datatype refresh_outcome =
    Withdraw string error
  | Commit "route ptr" string "endpoint_check list"

definition refresh_revalidate :: "env \<Rightarrow> (endpoint_check list \<Rightarrow> string + string) \<Rightarrow> string \<Rightarrow> string \<Rightarrow> refresh_outcome \<Rightarrow> trace \<Rightarrow> refresh_outcome \<times> trace" where
  "refresh_revalidate E marshal namespace revision commit h =
     (case list_EndpointChecks E namespace h of
        (Inl err, h1) \<Rightarrow> (Withdraw ''cannot revalidate EndpointChecks'' err, h1)
      | (Inr current, h1) \<Rightarrow>
          (case endpointCheckRevision marshal current of
             Inl err \<Rightarrow> (Withdraw ''cannot validate EndpointCheck snapshot'' err, h1)
           | Inr currentRevision \<Rightarrow>
               if currentRevision \<noteq> revision
               then (Withdraw ''EndpointChecks changed during route refresh'' (Err ''EndpointChecks changed during route refresh''), h1)
               else (commit, h1)))"

definition refresh_decide :: "env \<Rightarrow> xp \<Rightarrow> (endpoint_check list \<Rightarrow> string + string) \<Rightarrow> string \<Rightarrow> trace \<Rightarrow> refresh_outcome \<times> trace" where
  "refresh_decide E x marshal namespace h =
     (case list_EndpointChecks E namespace h of
        (Inl err, h1) \<Rightarrow> (Withdraw ''cannot read EndpointChecks'' err, h1)
      | (Inr checks, h1) \<Rightarrow>
          (case endpointCheckRevision marshal checks of
             Inl err \<Rightarrow> (Withdraw ''cannot validate EndpointCheck snapshot'' err, h1)
           | Inr revision \<Rightarrow>
               (case time_Now E h1 of
                  (now, h2) \<Rightarrow>
                    (case refresh_scan E x now checks h2 of
                       ((eligible, dels), h3) \<Rightarrow>
                         (case refresh_route E x namespace eligible h3 of
                            ((next, stateErr), h4) \<Rightarrow>
                              refresh_revalidate E marshal namespace revision (Commit next stateErr dels) h4)))))"

definition without_drain :: "endpoint_check \<Rightarrow> endpoint_check" where
  "without_drain check =
     check\<lparr>ck_Meta := (ck_Meta check)\<lparr>om_Finalizers := fst (removeString (om_Finalizers (ck_Meta check)) RouterDrainFinalizer)\<rparr>\<rparr>"

fun ack_finalizers :: "env \<Rightarrow> endpoint_check list \<Rightarrow> trace \<Rightarrow> error ptr \<times> trace" where
  "ack_finalizers E [] h = (None, h)"
| "ack_finalizers E (check # checks) h =
     (if snd (removeString (om_Finalizers (ck_Meta check)) RouterDrainFinalizer)
      then (case kube_Write_ignoring_NotFound E (EvUpdateCheck (without_drain check)) h of
              (Some err, h1) \<Rightarrow> (Some err, h1)
            | (None, h1) \<Rightarrow> ack_finalizers E checks h1)
      else ack_finalizers E checks h)"

text \<open>
  \<open>replace\<close> as a step of the transaction: when it returns, the trace records the check whose route is
  active. \<open>withdraw\<close> is the replacement by no route.
\<close>

definition active_check :: "router \<Rightarrow> string option" where
  "active_check r = map_option (\<lambda>a. ro_checkName (le_route (rr_store r ! a))) (rr_active r)"

definition router_replace :: "route ptr \<Rightarrow> string \<Rightarrow> router \<Rightarrow> trace \<Rightarrow> router \<times> trace" where
  "router_replace next stateErr r h = (let r' = replace next stateErr r in (r', h @ [EvRoute (active_check r')]))"

definition router_withdraw :: "string \<Rightarrow> router \<Rightarrow> trace \<Rightarrow> router \<times> trace" where
  "router_withdraw reason r h = router_replace None reason r h"

definition Refresh :: "env \<Rightarrow> xp \<Rightarrow> (endpoint_check list \<Rightarrow> string + string) \<Rightarrow> string \<Rightarrow> router \<Rightarrow> trace \<Rightarrow> (error ptr \<times> router) \<times> trace" where
  "Refresh E x marshal namespace r h =
     (case refresh_decide E x marshal namespace h of
        (Withdraw reason err, h1) \<Rightarrow> (case router_withdraw reason r h1 of (r', h2) \<Rightarrow> ((Some err, r'), h2))
      | (Commit next stateErr dels, h1) \<Rightarrow>
          (case router_replace next stateErr r h1 of
             (r', h2) \<Rightarrow>
               (case ack_finalizers E dels h2 of
                  (Some err, h3) \<Rightarrow> ((Some err, r'), h3)
                | (None, h3) \<Rightarrow> ((if next = None then Some (Err stateErr) else None, r'), h3))))"

lemmas router_change_defs = router_replace_def router_withdraw_def

section \<open>What a refresh reads and decides\<close>

lemma hasString_iff: "hasString vs t \<longleftrightarrow> t \<in> set vs"
  by (induction vs) auto

lemma removeString_remove1: "removeString vs t = (remove1 t vs, t \<in> set vs)"
  by (induction vs) auto

lemma endpointRevisionMatches_reads: "endpointRevisionMatches E x check now h = (m, h') \<Longrightarrow> reads h h'"
  by (auto simp: endpointRevisionMatches_def world_defs split: option.splits sum.splits)

text \<open>A match is about an Endpoint and a Template read at that moment.\<close>

lemma endpointRevisionMatches_True:
  assumes "endpointRevisionMatches E x check now h = (True, h')"
  obtains ref ep templateRef template where
    "cp_EndpointIDRef (ck_ForProvider check) = Some ref" "env_GetEndpoint E h (om_Namespace (ck_Meta check)) (ref_Name ref) = Inr ep"
    "ep_TemplateIDRef (ec_ForProvider ep) = Some templateRef"
    "env_GetTemplate E (h @ [EvGet KEndpoint (om_Namespace (ck_Meta check)) (ref_Name ref)])
       (om_Namespace (mg_Meta ep)) (ref_Name templateRef) = Inr template"
    "router_endpoint_current x ep now" "router_template_current x ep template now"
    "router_binding_current x (ck_AtProvider check) ep template"
    "h' = h @ [EvGet KEndpoint (om_Namespace (ck_Meta check)) (ref_Name ref), EvGet KTemplate (om_Namespace (mg_Meta ep)) (ref_Name templateRef)]"
  using assms by (auto simp: endpointRevisionMatches_def world_defs map_sum_def split: option.splits sum.splits)

lemma refresh_scan_reads: "refresh_scan E x now checks h = ((eligible, dels), h') \<Longrightarrow> reads h h'"
proof (induction checks arbitrary: h eligible dels h')
  case (Cons check checks)
  then show ?case
    by (auto split: if_splits prod.splits dest!: endpointRevisionMatches_reads Cons.IH elim: reads_trans)
qed simp

text \<open>The scan keeps the order of the list and parts it: eligible checks are not deleting.\<close>

lemma refresh_scan_dels: "refresh_scan E x now checks h = ((eligible, dels), h') \<Longrightarrow> dels = filter check_deleting checks"
  by (induction checks arbitrary: h eligible dels h') (auto split: if_splits prod.splits)

lemma refresh_scan_eligible:
  "refresh_scan E x now checks h = ((eligible, dels), h') \<Longrightarrow> check \<in> set eligible \<Longrightarrow>
     check \<in> set checks \<and> \<not> check_deleting check \<and> check_candidate x check now
     \<and> ValidateRunPodID (co_EndpointID (ck_AtProvider check)) = None"
proof (induction checks arbitrary: h eligible dels h')
  case (Cons c checks)
  from Cons.prems show ?case
    by (auto split: if_splits prod.splits dest: Cons.IH)
qed simp

lemma refresh_single_reads: "refresh_single E x ns check h = (p, h') \<Longrightarrow> reads h h'"
  by (auto simp: refresh_single_def Let_def world_defs split: sum.splits if_splits prod.splits
      dest!: endpointRevisionMatches_reads intro: reads_from)

lemma refresh_route_reads: "refresh_route E x ns eligible h = (p, h') \<Longrightarrow> reads h h'"
  by (auto simp: refresh_route_def dest: refresh_single_reads split: list.splits)

lemma refresh_decide_reads: "refresh_decide E x marshal ns h = (d, h') \<Longrightarrow> reads h h'"
  by (auto simp: refresh_decide_def refresh_revalidate_def world_defs split: sum.splits prod.splits if_splits
      dest!: refresh_scan_reads refresh_route_reads intro!: reads_until elim!: reads_trans [OF reads_from])

text \<open>The parts of a commit.\<close>

lemma refresh_decide_Commit:
  assumes "refresh_decide E x marshal ns h = (Commit next stateErr dels, h')"
  obtains checks revision now eligible h3 h4 current where
    "env_ListChecks E h ns = Inr checks" "endpointCheckRevision marshal checks = Inr revision"
    "now = env_Now E (h @ [EvList KEndpointCheck ns])"
    "refresh_scan E x now checks (h @ [EvList KEndpointCheck ns, EvClock]) = ((eligible, dels), h3)"
    "refresh_route E x ns eligible h3 = ((next, stateErr), h4)"
    "env_ListChecks E h4 ns = Inr current" "endpointCheckRevision marshal current = Inr revision" "h' = h4 @ [EvList KEndpointCheck ns]"
  using assms
  by (auto simp: refresh_decide_def refresh_revalidate_def world_defs map_sum_def split: sum.splits prod.splits if_splits)

lemma refresh_route_Some:
  assumes "refresh_route E x ns eligible h = ((Some n, stateErr), h')"
  obtains check where "eligible = [check]" "refresh_single E x ns check h = ((Some n, stateErr), h')"
  using assms by (auto simp: refresh_route_def split: list.splits)

lemma refresh_single_Some:
  assumes "refresh_single E x ns check h = ((Some n, stateErr), h')"
  obtains sec where
    "env_GetSecret E h ns (sks_Name (cp_InferenceCredentialsSecretRef (ck_ForProvider check))) = Inr sec"
    "RequirePurpose (Some sec) PurposeInference = None"
    "sec_ResourceVersion sec = co_CredentialsSecretResourceVersion (ck_AtProvider check)" "sec_ResourceVersion sec \<noteq> []"
    "n = route_of check (map_get (sec_Data sec) (sks_Key (cp_InferenceCredentialsSecretRef (ck_ForProvider check))))"
    "\<not> token_malformed (map_get (sec_Data sec) (sks_Key (cp_InferenceCredentialsSecretRef (ck_ForProvider check))))"
    "endpointRevisionMatches E x check (env_Now E (h @ [EvGet KSecret ns (sks_Name (cp_InferenceCredentialsSecretRef (ck_ForProvider check)))]))
       ((h @ [EvGet KSecret ns (sks_Name (cp_InferenceCredentialsSecretRef (ck_ForProvider check)))]) @ [EvClock]) = (True, h')"
  using assms
  by (auto simp: refresh_single_def Let_def world_defs map_sum_def split: sum.splits if_splits prod.splits)

section \<open>Replacing the route\<close>

definition router_wf :: "router \<Rightarrow> bool" where
  "router_wf r \<longleftrightarrow> (case rr_active r of None \<Rightarrow> True | Some a \<Rightarrow> a < length (rr_store r))"

lemma replace_None:
  assumes "router_wf r"
  shows "rr_active (replace None stateErr r) = None" "rr_stateError (replace None stateErr r) = stateErr"
    "rr_active r = Some a \<Longrightarrow> rr_store (replace None stateErr r) =
       (rr_store r)[a := (rr_store r ! a)\<lparr>le_cancelled := True, le_route := zeroed (le_route (rr_store r ! a)), le_cleared := True\<rparr>]"
  using assms
  by (auto simp: replace_def replace_swap_def cancel_def clear_token_def update_lease_def router_wf_def split: option.splits)

lemma replace_Some:
  assumes "router_wf r"
  obtains a where "rr_active (replace (Some n) stateErr r) = Some a" "a < length (rr_store (replace (Some n) stateErr r))"
    "routesEquivalent (le_route (rr_store (replace (Some n) stateErr r) ! a)) n"
proof (cases "\<exists>p. rr_active r = Some p \<and> routesEquivalent (le_route (rr_store r ! p)) n")
  case True
  with assms that show thesis
    by (auto simp: replace_def replace_swap_def router_wf_def nth_append)
next
  case False
  with assms that [of "length (rr_store r)"] show thesis
    by (auto simp: replace_def replace_swap_def router_wf_def cancel_def clear_token_def update_lease_def new_lease_def
        nth_list_update nth_append routesEquivalent_def split: option.splits)
qed

lemma replace_wf: "router_wf r \<Longrightarrow> router_wf (replace next stateErr r)"
proof (cases "next")
  case (Some n)
  assume "router_wf r"
  then show ?thesis unfolding Some by (rule replace_Some [where n = n and stateErr = stateErr]) (simp add: router_wf_def)
qed (simp add: replace_None router_wf_def)

lemma routesEquivalent_name: "routesEquivalent a b \<Longrightarrow> ro_checkName a = ro_checkName b"
  by (simp add: routesEquivalent_def)

section \<open>Acknowledging finalizers\<close>

definition check_name :: "endpoint_check \<Rightarrow> string" where
  "check_name check = om_Name (ck_Meta check)"

text \<open>
  The write that acknowledges a check: the check as it was listed, less the drain finalizer. Which
  checks of a list are to be acknowledged, and what a run of such writes did: \<open>n\<close> of them were sent,
  and all of these were accepted (an object that is gone counts) except the last when there is an error.
\<close>

definition drain_removed :: "endpoint_check \<Rightarrow> endpoint_check" where
  "drain_removed k = k\<lparr>ck_Meta := (ck_Meta k)\<lparr>om_Finalizers := remove1 RouterDrainFinalizer (om_Finalizers (ck_Meta k))\<rparr>\<rparr>"

definition to_acknowledge :: "endpoint_check list \<Rightarrow> endpoint_check list" where
  "to_acknowledge ks = filter (\<lambda>k. om_DeletionTimestamp (ck_Meta k) \<notin> {None, Some 0} \<and> RouterDrainFinalizer \<in> set (om_Finalizers (ck_Meta k))) ks"

definition write_accepted :: "env \<Rightarrow> trace \<Rightarrow> event \<Rightarrow> bool" where
  "write_accepted E h ev \<longleftrightarrow> (case env_Write E h ev of None \<Rightarrow> True | Some (notFound, _) \<Rightarrow> notFound)"

definition writes_run :: "env \<Rightarrow> trace \<Rightarrow> event list \<Rightarrow> nat \<Rightarrow> error ptr \<Rightarrow> bool" where
  "writes_run E h evs n err \<longleftrightarrow> n \<le> length evs \<and> (err = None \<longrightarrow> n = length evs)
     \<and> (\<forall>i < n. if err \<noteq> None \<and> Suc i = n
                then \<exists>e. env_Write E (h @ take i evs) (evs ! i) = Some e \<and> \<not> fst e \<and> err = Some (kube_err e)
                else write_accepted E (h @ take i evs) (evs ! i))
     \<and> (err \<noteq> None \<longrightarrow> 0 < n)"

lemma without_drain_removed: "without_drain k = drain_removed k"
  by (simp add: without_drain_def drain_removed_def removeString_remove1)

lemma writes_run_Nil: "writes_run E h [] 0 None"
  by (simp add: writes_run_def)

lemma writes_run_stop: "env_Write E h ev = Some e \<Longrightarrow> \<not> fst e \<Longrightarrow> writes_run E h (ev # evs) 1 (Some (kube_err e))"
  by (auto simp: writes_run_def)

lemma writes_run_Cons:
  assumes "write_accepted E h ev" "writes_run E (h @ [ev]) evs n err"
  shows "writes_run E h (ev # evs) (Suc n) err"
  using assms unfolding writes_run_def by (auto simp: less_Suc_eq_0_disj)

lemma ack_finalizers_run:
  assumes "ack_finalizers E dels h = (err, h')"
  shows "\<exists>n. h' = h @ take n (map (EvUpdateCheck \<circ> drain_removed) (filter (\<lambda>k. RouterDrainFinalizer \<in> set (om_Finalizers (ck_Meta k))) dels))
    \<and> writes_run E h (map (EvUpdateCheck \<circ> drain_removed) (filter (\<lambda>k. RouterDrainFinalizer \<in> set (om_Finalizers (ck_Meta k))) dels)) n err"
  using assms
proof (induction dels arbitrary: h)
  case Nil
  then show ?case by (intro exI [of _ 0]) (simp add: writes_run_Nil)
next
  case (Cons k dels)
  let ?evs = "map (EvUpdateCheck \<circ> drain_removed) (filter (\<lambda>k. RouterDrainFinalizer \<in> set (om_Finalizers (ck_Meta k))) dels)"
  show ?case
  proof (cases "RouterDrainFinalizer \<in> set (om_Finalizers (ck_Meta k))")
    case True
    let ?ev = "EvUpdateCheck (drain_removed k)"
    from Cons.prems True consider (stop) e where "env_Write E h ?ev = Some e" "\<not> fst e" "err = Some (kube_err e)" "h' = h @ [?ev]"
      | (go) "write_accepted E h ?ev" "ack_finalizers E dels (h @ [?ev]) = (err, h')"
      by (auto simp: removeString_remove1 without_drain_removed kube_Write_ignoring_NotFound_def world_defs write_accepted_def
          kube_err_def IsNotFound_def split: option.splits if_splits)
    then show ?thesis
    proof cases
      case stop
      with writes_run_stop [OF stop(1,2), of ?evs] True show ?thesis by (intro exI [of _ 1]) (simp add: comp_def)
    next
      case go
      from Cons.IH [OF go(2)] obtain n where n: "h' = (h @ [?ev]) @ take n ?evs" "writes_run E (h @ [?ev]) ?evs n err" by blast
      with writes_run_Cons [OF go(1) n(2)] True show ?thesis by (intro exI [of _ "Suc n"]) (simp add: comp_def)
    qed
  next
    case False
    with Cons.prems have "ack_finalizers E dels h = (err, h')" by (simp add: removeString_remove1)
    from Cons.IH [OF this] False show ?thesis by simp
  qed
qed

text \<open>The committed check is not among the deleting ones, because names are unique in a namespace.\<close>

lemma commit_name_free:
  assumes "refresh_decide E x marshal ns h = (Commit (Some n) stateErr dels, h')" "env_ListChecks E h ns = Inr checks"
    "distinct (map check_name checks)"
  shows "ro_checkName n \<notin> set (map check_name dels)"
proof -
  from assms(1) obtain now eligible h3 h4 where scan: "refresh_scan E x now checks (h @ [EvList KEndpointCheck ns, EvClock]) = ((eligible, dels), h3)"
    and route: "refresh_route E x ns eligible h3 = ((Some n, stateErr), h4)"
    using assms(2) by (elim refresh_decide_Commit) auto
  from route obtain check where "eligible = [check]" "ro_checkName n = check_name check"
    by (elim refresh_route_Some refresh_single_Some) (auto simp: route_of_def check_name_def)
  with refresh_scan_eligible [OF scan, of check] refresh_scan_dels [OF scan] assms(3) show ?thesis
    by (auto simp: distinct_map dest: inj_onD)
qed

section \<open>A refresh as a run of the interleaving\<close>

definition outcome_names :: "refresh_outcome \<Rightarrow> string list" where
  "outcome_names d = (case d of Withdraw _ _ \<Rightarrow> [] | Commit _ _ dels \<Rightarrow> map check_name dels)"

definition outcome_next :: "refresh_outcome \<Rightarrow> route ptr" where
  "outcome_next d = (case d of Withdraw _ _ \<Rightarrow> None | Commit next _ _ \<Rightarrow> next)"

definition outcome_error :: "refresh_outcome \<Rightarrow> string" where
  "outcome_error d = (case d of Withdraw reason _ \<Rightarrow> reason | Commit _ stateErr _ \<Rightarrow> stateErr)"

lemma Refresh_router:
  "refresh_decide E x marshal ns h = (d, h1) \<Longrightarrow>
     snd (fst (Refresh E x marshal ns r h)) = replace (outcome_next d) (outcome_error d) r"
  by (auto simp: Refresh_def router_change_defs Let_def outcome_next_def outcome_error_def split: refresh_outcome.splits prod.splits option.splits)

lemma outcome_next_free:
  assumes "refresh_decide E x marshal ns h = (d, h1)" "\<And>checks. env_ListChecks E h ns = Inr checks \<Longrightarrow> distinct (map check_name checks)"
    "outcome_next d = Some n"
  shows "ro_checkName n \<notin> set (outcome_names d)"
proof -
  from assms(3) obtain stateErr dels where d: "d = Commit (Some n) stateErr dels"
    by (cases d) (auto simp: outcome_next_def)
  obtain checks where "env_ListChecks E h ns = Inr checks"
    using assms(1) unfolding d by (rule refresh_decide_Commit)
  with commit_name_free [of E x marshal ns h n stateErr dels h1 checks] assms(1,2) d show ?thesis
    by (simp add: outcome_names_def)
qed

text \<open>Without requests in flight the wait of replace is over at once.\<close>

lemma swap_drained:
  assumes inv: "lease_inv s" and swap: "replace_swap next stateErr (sy_router s) = (r, Some p)" and held: "sy_held s = []"
  shows "drained p r"
proof -
  have "rr_active (sy_router s) = Some p" using swap by (auto simp: replace_swap_def split: option.splits if_splits)
  then have "p < length (rr_store (sy_router s))" "le_inflight (rr_store (sy_router s) ! p) = 0"
    using lease_invD(4) [OF inv, of p] lease_invD(3) [OF inv, of p] held by (auto simp: lease_at_def)
  with swap_old(1,2) [OF step_swap_effect [OF inv swap], of p] show ?thesis by (simp add: drained_def)
qed

lemma replace_run:
  assumes inv: "lease_inv s" and idle: "sy_refresh s = RIdle" "sy_held s = []"
    and free: "\<And>n. next = Some n \<Longrightarrow> ro_checkName n \<notin> set names"
  shows "router_step\<^sup>*\<^sup>* s (s\<lparr>sy_router := replace next stateErr (sy_router s), sy_refresh := RAck names\<rparr>)"
proof (cases "replace_swap next stateErr (sy_router s)")
  case (Pair r w)
  show ?thesis
  proof (cases w)
    case None
    with Pair have "replace next stateErr (sy_router s) = r" by (simp add: replace_def)
    with refresh_swap [OF idle(1) free Pair [unfolded None]] show ?thesis by auto
  next
    case (Some p)
    let ?t = "s\<lparr>sy_router := r, sy_refresh := RWait p names\<rparr>"
    have step: "router_step s ?t" by (rule refresh_wait [OF idle(1) free Pair [unfolded Some]])
    have "drained p r" by (rule swap_drained [OF inv Pair [unfolded Some] idle(2)])
    with refresh_drained [of ?t p names] have "router_step ?t (?t\<lparr>sy_router := clear_token p r, sy_refresh := RAck names\<rparr>)" by simp
    moreover have "replace next stateErr (sy_router s) = clear_token p r" using Pair Some by (simp add: replace_def)
    ultimately show ?thesis using step by auto
  qed
qed

section \<open>Properties\<close>

text \<open>
  What the only candidate must be, at the time of the list: live, Ready, with the drain finalizer,
  within its lifetime, observed at its generation with all three verification results, checked within
  the last ninety seconds and verified within its verification interval (an hour when it has none) and
  ninety seconds, and neither more than thirty seconds in the future.
\<close>

definition admitted_candidate :: "xp \<Rightarrow> endpoint_check \<Rightarrow> gotime \<Rightarrow> bool" where
  "admitted_candidate x k now \<longleftrightarrow>
     (let ob = ck_AtProvider k; n = sint (cp_VerificationIntervalSeconds (ck_ForProvider k)); interval = (if n = 0 then 3600 else n)
      in om_DeletionTimestamp (ck_Meta k) \<in> {None, Some 0} \<and> xp_GetCondition x (ck_Conditions k) TypeReady = ConditionTrue
       \<and> RouterDrainFinalizer \<in> set (om_Finalizers (ck_Meta k)) \<and> now < check_expires_at k
       \<and> ck_ObservedGeneration k = om_Generation (ck_Meta k) \<and> co_Healthy ob \<and> co_ModelVerified ob \<and> co_ToolCallVerified ob
       \<and> co_LastCheckedAt ob \<noteq> 0 \<and> co_LastCheckedAt ob \<le> now + 30 * 10 ^ 9 \<and> now \<le> co_LastCheckedAt ob + 90 * 10 ^ 9
       \<and> co_LastVerifiedAt ob \<noteq> 0 \<and> co_LastVerifiedAt ob \<le> now + 30 * 10 ^ 9 \<and> now \<le> co_LastVerifiedAt ob + (interval + 90) * 10 ^ 9)"

lemma sint_interval:
  assumes "interval = secondsDuration n" "v = (if interval = 0 then Hour else interval)"
  shows "sint (v + maxLivenessAge) = ((if sint n = 0 then 3600 else sint n) + 90) * 10 ^ 9"
proof -
  have age: "sint maxLivenessAge = 90 * 10 ^ 9" by (simp add: maxLivenessAge_def Second_def)
  have "interval = 0 \<longleftrightarrow> sint interval = 0" using signed_word_eqI [of interval 0] by auto
  then have "interval = 0 \<longleftrightarrow> sint n = 0" using assms(1) by simp
  then have v: "sint v = (if sint n = 0 then 3600 else sint n) * 10 ^ 9"
    using assms by simp
  have "v + maxLivenessAge = word_of_int (sint v + sint maxLivenessAge)" by (simp add: wi_hom_add [symmetric])
  moreover have "- (2 ^ 31) \<le> sint n" "sint n < 2 ^ 31" using sint_ge [of n] sint_lt [of n] by simp_all
  then have "- (2 ^ 63) \<le> sint v + sint maxLivenessAge" "sint v + sint maxLivenessAge < 2 ^ 63" unfolding v age by simp_all
  ultimately have "sint (v + maxLivenessAge) = sint v + sint maxLivenessAge" using sint_word_of_int_64 by metis
  then show ?thesis unfolding v age by simp
qed

lemma candidate_admitted:
  assumes "check_candidate x k now" "\<not> check_deleting k"
  shows "admitted_candidate x k now"
proof -
  let ?ob = "ck_AtProvider k" and ?n = "sint (cp_VerificationIntervalSeconds (ck_ForProvider k))"
  let ?i = "secondsDuration (cp_VerificationIntervalSeconds (ck_ForProvider k))"
  let ?v = "(if ?i = 0 then Hour else ?i) + maxLivenessAge" and ?max = "((if ?n = 0 then 3600 else ?n) + 90) * 10 ^ 9"
  from assms(1) have f: "check_fresh k now" by (simp add: check_candidate_def Let_def)
  have age: "sint maxLivenessAge = 90 * 10 ^ 9" "sint (30 * Second) = 30 * 10 ^ 9" by (simp_all add: maxLivenessAge_def Second_def)
  have v: "sint ?v = ?max" by (rule sint_interval [OF refl refl])
  have "?n < 2 ^ 31" using sint_lt [of "cp_VerificationIntervalSeconds (ck_ForProvider k)"] by simp
  with v have "sint ?v < 2 ^ 63 - 1" by simp
  moreover from f have "sint (SubTime now (co_LastVerifiedAt ?ob)) \<le> sint ?v" by (simp add: check_fresh_def Let_def dur_le_def)
  ultimately have "now - co_LastVerifiedAt ?ob \<le> ?max" using SubTime_le_iff v by metis
  moreover have "now - co_LastCheckedAt ?ob \<le> 90 * 10 ^ 9"
    using f age(1) SubTime_le_iff [of maxLivenessAge now "co_LastCheckedAt ?ob"] by (simp add: check_fresh_def Let_def dur_le_def)
  moreover have "co_LastCheckedAt ?ob \<noteq> 0 \<and> co_LastCheckedAt ?ob \<le> now + 30 * 10 ^ 9 \<and> co_LastVerifiedAt ?ob \<noteq> 0
      \<and> co_LastVerifiedAt ?ob \<le> now + 30 * 10 ^ 9 \<and> ck_ObservedGeneration k = om_Generation (ck_Meta k)"
    using f age(2) by (simp add: check_fresh_def Let_def IsZero_def After_def AddDuration_def)
  moreover have "om_DeletionTimestamp (ck_Meta k) \<in> {None, Some 0}" using assms(2) by (simp add: check_deleting_def ptrIsZero_iff)
  moreover have "xp_GetCondition x (ck_Conditions k) TypeReady = ConditionTrue \<and> RouterDrainFinalizer \<in> set (om_Finalizers (ck_Meta k))
      \<and> now < check_expires_at k \<and> co_Healthy ?ob \<and> co_ModelVerified ?ob \<and> co_ToolCallVerified ?ob"
    using assms(1) by (simp add: check_candidate_def Let_def hasString_iff Before_def)
  ultimately show ?thesis unfolding admitted_candidate_def Let_def by (intro conjI) linarith+
qed

text \<open>What a match of the revision requires of the objects read, one guard of the code after the other.\<close>

definition revision_current :: "xp \<Rightarrow> check_observation \<Rightarrow> endpoint_cr \<Rightarrow> template_cr \<Rightarrow> gotime \<Rightarrow> bool" where
  "revision_current x ob ep template now \<longleftrightarrow>
     current_object x ep \<and> current_object x template \<and> bound_revision x ep template \<and> records_revision x ep template ob
   \<and> now < expires_at ep \<and> FlashBootEvidenceCurrent (ec_AtProvider ep) now \<and> WorkerSecurityEvidenceCurrent (ec_AtProvider ep)
   \<and> (let created = om_CreationTimestamp (mg_Meta template)
      in created = 0 \<or> now < AddDuration created (secondsDuration (tp_MaxLifetimeSeconds (tc_ForProvider template))))"

lemma revision_currentI:
  assumes "router_endpoint_current x ep now" "router_template_current x ep template now" "router_binding_current x ob ep template"
  shows "revision_current x ob ep template now"
  using assms
  by (auto simp: router_endpoint_current_def router_template_current_def router_binding_current_def revision_current_def current_object_def
      bound_revision_def records_revision_def deleting_def ptrIsZero_iff deadline_def time_defs Let_def)

text \<open>
  C10: A refresh commits a route only from an unchanged snapshot with exactly one eligible check.
  That check is listed, live, verified and fresh, and its identifier is valid; the token is the
  well-formed content of the Secret it names, in the resource version that was verified and labelled
  for inference. After the Secret the clock is read, then the Endpoint the check refers to, then the
  Template that Endpoint refers to: at that time both are live, Ready, within their lifetimes and
  bound to each other, with current FlashBoot and worker evidence, and they are the revision that the
  check's status records. Right after the Template the checks are listed a second time, with the same
  revision; nothing else is read or sent.
\<close>

theorem refresh_commit_sound:
  assumes "refresh_decide E x marshal ns h = (Commit (Some n) stateErr dels, h')"
  shows "\<exists>checks check h3 sec current ref ep tref template.
    (let now = env_Now E (h @ [EvList KEndpointCheck ns]); secretRef = cp_InferenceCredentialsSecretRef (ck_ForProvider check);
         h4 = h3 @ [EvGet KSecret ns (sks_Name secretRef)]; h5 = h4 @ [EvClock];
         h6 = h5 @ [EvGet KEndpoint (om_Namespace (ck_Meta check)) (ref_Name ref)];
         h7 = h6 @ [EvGet KTemplate (om_Namespace (mg_Meta ep)) (ref_Name tref)];
         ob = ck_AtProvider check; token = map_get (sec_Data sec) (sks_Key secretRef)
     in env_ListChecks E h ns = Inr checks \<and> check \<in> set checks \<and> admitted_candidate x check now \<and> valid_id (co_EndpointID ob)
      \<and> refresh_scan E x now checks (h @ [EvList KEndpointCheck ns, EvClock]) = (([check], dels), h3)
      \<and> env_GetSecret E h3 ns (sks_Name secretRef) = Inr sec \<and> map_get (sec_Labels sec) PurposeLabel = PurposeInference
      \<and> sec_ResourceVersion sec = co_CredentialsSecretResourceVersion ob \<and> sec_ResourceVersion sec \<noteq> []
      \<and> token \<noteq> [] \<and> length token \<le> 4096 \<and> TrimSpace token = token \<and> CHR 0x0D \<notin> set token \<and> CHR 0x0A \<notin> set token
      \<and> n = \<lparr>ro_namespace = om_Namespace (ck_Meta check), ro_checkName = check_name check, ro_endpointID = co_EndpointID ob,
             ro_expectedModelID = cp_ExpectedModelID (ck_ForProvider check), ro_token = token\<rparr>
      \<and> cp_EndpointIDRef (ck_ForProvider check) = Some ref \<and> env_GetEndpoint E h5 (om_Namespace (ck_Meta check)) (ref_Name ref) = Inr ep
      \<and> ep_TemplateIDRef (ec_ForProvider ep) = Some tref \<and> env_GetTemplate E h6 (om_Namespace (mg_Meta ep)) (ref_Name tref) = Inr template
      \<and> revision_current x ob ep template (env_Now E h4)
      \<and> env_ListChecks E h7 ns = Inr current \<and> endpointCheckRevision marshal current = endpointCheckRevision marshal checks
      \<and> h' = h7 @ [EvList KEndpointCheck ns])"
proof -
  from assms obtain checks now eligible h3 h4 current where
    list: "env_ListChecks E h ns = Inr checks" "now = env_Now E (h @ [EvList KEndpointCheck ns])"
    and scan: "refresh_scan E x now checks (h @ [EvList KEndpointCheck ns, EvClock]) = ((eligible, dels), h3)"
    and route: "refresh_route E x ns eligible h3 = ((Some n, stateErr), h4)"
    and again: "env_ListChecks E h4 ns = Inr current" "endpointCheckRevision marshal current = endpointCheckRevision marshal checks"
      "h' = h4 @ [EvList KEndpointCheck ns]"
    by (elim refresh_decide_Commit) auto
  from route obtain check where check: "eligible = [check]" and single: "refresh_single E x ns check h3 = ((Some n, stateErr), h4)"
    by (rule refresh_route_Some)
  have eligible: "check \<in> set checks" "admitted_candidate x check now" "valid_id (co_EndpointID (ck_AtProvider check))"
    using refresh_scan_eligible [OF scan, of check] check candidate_admitted by simp_all
  let ?ref = "cp_InferenceCredentialsSecretRef (ck_ForProvider check)"
  let ?h4 = "h3 @ [EvGet KSecret ns (sks_Name ?ref)]"
  let ?h5 = "?h4 @ [EvClock]"
  from single obtain sec where sec: "env_GetSecret E h3 ns (sks_Name ?ref) = Inr sec" "RequirePurpose (Some sec) PurposeInference = None"
      "sec_ResourceVersion sec = co_CredentialsSecretResourceVersion (ck_AtProvider check)" "sec_ResourceVersion sec \<noteq> []"
      "n = route_of check (map_get (sec_Data sec) (sks_Key ?ref))" "\<not> token_malformed (map_get (sec_Data sec) (sks_Key ?ref))"
    and rev: "endpointRevisionMatches E x check (env_Now E ?h4) ?h5 = (True, h4)"
    by (elim refresh_single_Some) simp
  from rev obtain ref ep tref template where m: "cp_EndpointIDRef (ck_ForProvider check) = Some ref"
    "env_GetEndpoint E ?h5 (om_Namespace (ck_Meta check)) (ref_Name ref) = Inr ep" "ep_TemplateIDRef (ec_ForProvider ep) = Some tref"
    "env_GetTemplate E (?h5 @ [EvGet KEndpoint (om_Namespace (ck_Meta check)) (ref_Name ref)]) (om_Namespace (mg_Meta ep)) (ref_Name tref) = Inr template"
    "router_endpoint_current x ep (env_Now E ?h4)" "router_template_current x ep template (env_Now E ?h4)"
    "router_binding_current x (ck_AtProvider check) ep template"
    "h4 = ?h5 @ [EvGet KEndpoint (om_Namespace (ck_Meta check)) (ref_Name ref), EvGet KTemplate (om_Namespace (mg_Meta ep)) (ref_Name tref)]"
    by (rule endpointRevisionMatches_True)
  let ?token = "map_get (sec_Data sec) (sks_Key ?ref)"
  have token: "?token \<noteq> [] \<and> length ?token \<le> 4096 \<and> TrimSpace ?token = ?token \<and> CHR 0x0D \<notin> set ?token \<and> CHR 0x0A \<notin> set ?token"
    using sec(6) by (auto simp: token_malformed_def ContainsAny_def list_ex_iff)
  have purpose: "map_get (sec_Labels sec) PurposeLabel = PurposeInference"
    using sec(2) by (simp add: RequirePurpose_def split: if_splits)
  have n: "n = \<lparr>ro_namespace = om_Namespace (ck_Meta check), ro_checkName = check_name check, ro_endpointID = co_EndpointID (ck_AtProvider check),
      ro_expectedModelID = cp_ExpectedModelID (ck_ForProvider check), ro_token = ?token\<rparr>"
    using sec(5) by (simp add: route_of_def check_name_def)
  have h4: "h4 = ((?h4 @ [EvClock]) @ [EvGet KEndpoint (om_Namespace (ck_Meta check)) (ref_Name ref)])
      @ [EvGet KTemplate (om_Namespace (mg_Meta ep)) (ref_Name tref)]" using m(8) by simp
  note facts = list(1) eligible(1,3) eligible(2) [unfolded list(2)] scan [unfolded check list(2)] sec(1,3,4) purpose n m(1-4)
    revision_currentI [OF m(5-7)] again [unfolded h4] token
  show ?thesis unfolding Let_def
    by (rule exI [of _ checks], rule exI [of _ check], rule exI [of _ h3], rule exI [of _ sec], rule exI [of _ current], rule exI [of _ ref],
        rule exI [of _ ep], rule exI [of _ tref], rule exI [of _ template], insert facts, elim conjE, intro conjI; assumption)
qed

text \<open>
  C14: A refresh fails closed: unless it commits a route, it returns an error, leaves no active
  route, and has erased the token of the route it withdrew; when it commits a route, the active
  route is the committed one.
\<close>

theorem refresh_fail_closed:
  assumes "router_wf r" "Refresh E x marshal ns r h = ((err, r'), h')"
  shows "(case refresh_decide E x marshal ns h of
      (Commit (Some n) stateErr dels, h1) \<Rightarrow>
        \<exists>a. rr_active r' = Some a \<and> routesEquivalent (le_route (rr_store r' ! a)) n
    | _ \<Rightarrow> err \<noteq> None \<and> rr_active r' = None \<and>
        (\<forall>a. rr_active r = Some a \<longrightarrow> le_cancelled (rr_store r' ! a) \<and> list_all (\<lambda>c. c = CHR 0x00) (ro_token (le_route (rr_store r' ! a)))))"
proof -
  have none: "rr_active (replace None e r) = None \<and>
      (\<forall>a. rr_active r = Some a \<longrightarrow> le_cancelled (rr_store (replace None e r) ! a) \<and>
         list_all (\<lambda>c. c = CHR 0x00) (ro_token (le_route (rr_store (replace None e r) ! a))))" for e
    using replace_None [OF assms(1), where stateErr = e] assms(1) by (auto simp: router_wf_def zeroed_def list_all_iff)
  have some: "\<exists>a. rr_active (replace (Some n) e r) = Some a \<and> routesEquivalent (le_route (rr_store (replace (Some n) e r) ! a)) n" for n e
    using replace_Some [OF assms(1), of n e] by blast
  show ?thesis
    using assms(2) none some
    by (auto simp: Refresh_def router_change_defs Let_def split: prod.splits refresh_outcome.splits option.splits if_splits)
qed

text \<open>
  The two lists of a refresh, the first at \<open>h\<close> and the second at \<open>h1\<close>, were read and have the same
  revision. A refresh withdraws the route exactly when this fails; both ends are traced to the list
  that was read last.
\<close>

definition lists_unchanged :: "env \<Rightarrow> (endpoint_check list \<Rightarrow> string + string) \<Rightarrow> string \<Rightarrow> trace \<Rightarrow> trace \<Rightarrow> bool" where
  "lists_unchanged E marshal ns h h1 \<longleftrightarrow> (\<exists>checks current revision.
     env_ListChecks E h ns = Inr checks \<and> env_ListChecks E h1 ns = Inr current
   \<and> endpointCheckRevision marshal checks = Inr revision \<and> endpointCheckRevision marshal current = Inr revision)"

lemma refresh_decide_Withdraw:
  assumes "refresh_decide E x marshal ns h = (Withdraw reason e, h')"
  obtains h1 where "reads h h1" "h' = h1 @ [EvList KEndpointCheck ns]" "\<not> lists_unchanged E marshal ns h h1"
proof -
  consider (first) "\<And>checks revision. env_ListChecks E h ns = Inr checks \<Longrightarrow> endpointCheckRevision marshal checks \<noteq> Inr revision"
    | (listed) checks revision where "env_ListChecks E h ns = Inr checks" "endpointCheckRevision marshal checks = Inr revision"
    by blast
  then show thesis
  proof cases
    case first
    then have "\<not> lists_unchanged E marshal ns h h" by (auto simp: lists_unchanged_def)
    moreover from first assms have "h' = h @ [EvList KEndpointCheck ns]"
      by (auto simp: refresh_decide_def list_EndpointChecks_def split: sum.splits)
    ultimately show thesis using that [of h] by simp
  next
    case listed
    let ?h2 = "h @ [EvList KEndpointCheck ns, EvClock]"
    obtain eligible dels h3 where scan: "refresh_scan E x (env_Now E (h @ [EvList KEndpointCheck ns])) checks ?h2 = ((eligible, dels), h3)"
      by (metis prod.collapse)
    obtain n stateErr h4 where route: "refresh_route E x ns eligible h3 = ((n, stateErr), h4)" by (metis prod.collapse)
    from assms listed scan route have rv: "refresh_revalidate E marshal ns revision (Commit n stateErr dels) h4 = (Withdraw reason e, h')"
      by (simp add: refresh_decide_def world_defs)
    then have "h' = h4 @ [EvList KEndpointCheck ns]" "\<not> lists_unchanged E marshal ns h h4"
      using listed by (auto simp: refresh_revalidate_def lists_unchanged_def list_EndpointChecks_def split: sum.splits if_splits)
    moreover have "reads h h4"
      using reads_trans [OF refresh_scan_reads [OF scan] refresh_route_reads [OF route]] by (auto elim: reads_from)
    ultimately show thesis using that by blast
  qed
qed

lemma refresh_decide_unchanged:
  assumes "refresh_decide E x marshal ns h = (Commit next stateErr dels, h')"
  obtains h1 evs checks where "reads h h1" "h1 = h @ EvList KEndpointCheck ns # evs" "h' = h1 @ [EvList KEndpointCheck ns]"
    "lists_unchanged E marshal ns h h1" "env_ListChecks E h ns = Inr checks" "dels = filter check_deleting checks"
proof -
  from assms obtain checks revision now eligible h3 h4 current where c:
    "env_ListChecks E h ns = Inr checks" "endpointCheckRevision marshal checks = Inr revision"
    "refresh_scan E x now checks (h @ [EvList KEndpointCheck ns, EvClock]) = ((eligible, dels), h3)"
    "refresh_route E x ns eligible h3 = ((next, stateErr), h4)"
    "env_ListChecks E h4 ns = Inr current" "endpointCheckRevision marshal current = Inr revision" "h' = h4 @ [EvList KEndpointCheck ns]"
    by (rule refresh_decide_Commit)
  have r: "reads (h @ [EvList KEndpointCheck ns, EvClock]) h4"
    using reads_trans [OF refresh_scan_reads [OF c(3)] refresh_route_reads [OF c(4)]] .
  then obtain evs where "h4 = h @ EvList KEndpointCheck ns # EvClock # evs" by (auto simp: reads_def)
  moreover have "reads h h4" using r by (auto elim: reads_from)
  moreover have "lists_unchanged E marshal ns h h4" using c by (auto simp: lists_unchanged_def)
  ultimately show thesis using that c(1,7) refresh_scan_dels [OF c(3)] by blast
qed

lemma active_check_None: "router_wf r \<Longrightarrow> active_check (replace None e r) = None"
  by (simp add: active_check_def replace_None)

lemma active_check_Some: "router_wf r \<Longrightarrow> active_check (replace (Some n) e r) = Some (ro_checkName n)"
  using replace_Some [of r n e] routesEquivalent_name by (metis active_check_def option.simps(9))

text \<open>The two ends of a refresh: the route is withdrawn, or it is replaced and the checks are acknowledged.\<close>

lemma Refresh_cases:
  assumes "router_wf r" "Refresh E x marshal ns r h = ((err, r'), h')"
  obtains (withdrawn) h1 reason e where "reads h h1" "\<not> lists_unchanged E marshal ns h h1"
      "refresh_decide E x marshal ns h = (Withdraw reason e, h1 @ [EvList KEndpointCheck ns])"
      "err = Some e" "active_check r' = None" "h' = h1 @ [EvList KEndpointCheck ns, EvRoute None]"
  | (replaced) "next" stateErr h1 evs checks n refused where "reads h h1" "h1 = h @ EvList KEndpointCheck ns # evs"
      "lists_unchanged E marshal ns h h1" "env_ListChecks E h ns = Inr checks"
      "refresh_decide E x marshal ns h = (Commit next stateErr (filter check_deleting checks), h1 @ [EvList KEndpointCheck ns])"
      "active_check r' = map_option ro_checkName next"
      "h' = h1 @ [EvList KEndpointCheck ns, EvRoute (active_check r')] @ take n (map (EvUpdateCheck \<circ> drain_removed) (to_acknowledge checks))"
      "writes_run E (h1 @ [EvList KEndpointCheck ns, EvRoute (active_check r')]) (map (EvUpdateCheck \<circ> drain_removed) (to_acknowledge checks)) n refused"
      "err = (case refused of Some e \<Rightarrow> Some e | None \<Rightarrow> if next = None then Some (Err stateErr) else None)"
proof -
  obtain d h0 where d: "refresh_decide E x marshal ns h = (d, h0)" by fastforce
  show thesis
  proof (cases d)
    case (Withdraw reason e)
    from d [unfolded Withdraw] obtain h1 where h1: "reads h h1" "h0 = h1 @ [EvList KEndpointCheck ns]" "\<not> lists_unchanged E marshal ns h h1"
      by (rule refresh_decide_Withdraw)
    moreover have "err = Some e" "active_check r' = None" "h' = h0 @ [EvRoute None]"
      using assms d Withdraw by (auto simp: Refresh_def router_change_defs Let_def active_check_None)
    ultimately show ?thesis using withdrawn [of h1 reason e] d Withdraw by simp
  next
    case (Commit "next" stateErr dels)
    from d [unfolded Commit] obtain h1 evs checks where c: "reads h h1" "h1 = h @ EvList KEndpointCheck ns # evs"
      "h0 = h1 @ [EvList KEndpointCheck ns]" "lists_unchanged E marshal ns h h1" "env_ListChecks E h ns = Inr checks"
      "dels = filter check_deleting checks" by (rule refresh_decide_unchanged)
    let ?h2 = "h1 @ [EvList KEndpointCheck ns, EvRoute (active_check r')]"
    have acks: "to_acknowledge checks = filter (\<lambda>k. RouterDrainFinalizer \<in> set (om_Finalizers (ck_Meta k))) dels"
      unfolding c(6) to_acknowledge_def by (simp add: check_deleting_def ptrIsZero_iff conj_commute)
    from assms(2) d Commit c(3) obtain refused where a: "ack_finalizers E dels ?h2 = (refused, h')" "r' = replace next stateErr r"
      "err = (case refused of Some e \<Rightarrow> Some e | None \<Rightarrow> if next = None then Some (Err stateErr) else None)"
      by (auto simp: Refresh_def router_change_defs Let_def split: prod.splits option.splits)
    have route: "active_check r' = map_option ro_checkName next"
      using a(2) assms(1) active_check_None active_check_Some by (cases "next") simp_all
    from ack_finalizers_run [OF a(1)] obtain n where "h' = ?h2 @ take n (map (EvUpdateCheck \<circ> drain_removed) (to_acknowledge checks))"
      "writes_run E ?h2 (map (EvUpdateCheck \<circ> drain_removed) (to_acknowledge checks)) n refused"
      unfolding acks by blast
    with replaced [OF c(1,2,4,5) _ route _ _ a(3)] d Commit c(3,6) show ?thesis by simp
  qed
qed

text \<open>
  C15: What a refresh does and in which order. It reads first, up to a second list of the checks. If
  the two lists were not both read or differ in their revision, it leaves no active route, writes
  nothing and returns an error. Otherwise it replaces the route, and only then writes: in the order of
  the list, one update for each check listed as deleting with the router's drain finalizer, which is
  the check as listed less that finalizer. The active route is none of these checks', whether or not a
  route was committed. Every such check is acknowledged, unless a write is refused other than because
  the object is gone: then the writes end there and the refresh returns that error. It returns none
  exactly when all are acknowledged and a route is active. The names of the checks of a namespace are
  distinct.
\<close>

theorem refresh_acknowledges:
  assumes "router_wf r" "Refresh E x marshal ns r h = ((err, r'), h')"
    "\<And>checks. env_ListChecks E h ns = Inr checks \<Longrightarrow> distinct (map check_name checks)"
  shows "\<exists>h1. reads h h1 \<and>
    (if lists_unchanged E marshal ns h h1
     then \<exists>evs checks n refused. h1 = h @ EvList KEndpointCheck ns # evs \<and> env_ListChecks E h ns = Inr checks
       \<and> (let acks = map (EvUpdateCheck \<circ> drain_removed) (to_acknowledge checks);
              h2 = h1 @ [EvList KEndpointCheck ns, EvRoute (active_check r')]
          in h' = h2 @ take n acks \<and> writes_run E h2 acks n refused
           \<and> (\<forall>k \<in> set (to_acknowledge checks). active_check r' \<noteq> Some (check_name k))
           \<and> (refused \<noteq> None \<longrightarrow> err = refused) \<and> (err = None \<longleftrightarrow> refused = None \<and> active_check r' \<noteq> None))
     else err \<noteq> None \<and> active_check r' = None \<and> h' = h1 @ [EvList KEndpointCheck ns, EvRoute None])"
  using assms(1,2)
proof (cases rule: Refresh_cases)
  case (withdrawn h1 reason e)
  then show ?thesis by (intro exI [of _ h1]) simp
next
  case (replaced "next" stateErr h1 evs checks n refused)
  have "active_check r' \<noteq> Some (check_name k)" if "k \<in> set (to_acknowledge checks)" for k
  proof (cases "next")
    case (Some m)
    with commit_name_free [OF replaced(5) [unfolded Some] replaced(4) assms(3) [OF replaced(4)]] that replaced(6) show ?thesis
      by (auto simp: to_acknowledge_def check_deleting_def ptrIsZero_iff)
  qed (use replaced(6) in simp)
  moreover have "refused \<noteq> None \<longrightarrow> err = refused" "err = None \<longleftrightarrow> refused = None \<and> active_check r' \<noteq> None"
    using replaced(6,9) by (auto split: option.splits)
  ultimately show ?thesis using replaced(1-4,7,8) unfolding Let_def
    by (intro exI [of _ h1]) (simp only: if_True, intro conjI exI [of _ evs] exI [of _ checks] exI [of _ n] exI [of _ refused]; simp)
qed

text \<open>
  The sequential \<open>Refresh\<close> is a run of the interleaving of \<open>RouterState\<close>: from a state without
  requests in flight it leads to the state with the router it returns, in which exactly the drain
  finalizers of the checks listed as deleting are acknowledged. Uniqueness of object names in a
  namespace discharges the guard of the step relation.
\<close>

theorem refresh_refines_steps:
  assumes "router_step\<^sup>*\<^sup>* initial_system s" "sy_refresh s = RIdle" "sy_held s = []"
    "refresh_decide E x marshal ns h = (d, h1)" "\<And>checks. env_ListChecks E h ns = Inr checks \<Longrightarrow> distinct (map check_name checks)"
  shows "router_step\<^sup>*\<^sup>* initial_system
    (s\<lparr>sy_router := snd (fst (Refresh E x marshal ns (sy_router s) h)), sy_refresh := RAck (outcome_names d)\<rparr>)"
proof -
  have "lease_inv s" by (rule lease.along_run [OF assms(1) lease_inv_initial])
  from replace_run [OF this assms(2,3), of "outcome_next d" "outcome_names d" "outcome_error d"] outcome_next_free [OF assms(4,5)]
  show ?thesis using assms(1) unfolding Refresh_router [OF assms(4)] by auto
qed

section \<open>Witnesses\<close>

text \<open>A namespace with one admitted check and one that is being deleted.\<close>

definition routed_check :: endpoint_check where
  "routed_check = demo_check\<lparr>ck_Conditions := [Available, ReconcileSuccess], ck_ObservedGeneration := 1,
     ck_AtProvider := check_observation_of
       (endpoint_binding_of xp_plain admitted_endpoint_cr 3 (bound_template_cr\<lparr>mg_ObservedGeneration := 1\<rparr>))
       \<lparr>ir_Healthy = True, ir_ModelVerified = True, ir_ToolCallVerified = True\<rparr> ''9'' 1000 1000 1000\<rparr>"

definition leaving_check :: endpoint_check where
  "leaving_check = demo_check\<lparr>ck_Meta := (ck_Meta demo_check)\<lparr>om_Name := ''old'', om_DeletionTimestamp := Some 5\<rparr>\<rparr>"

definition router_env :: env where
  "router_env = admission_env\<lparr>env_ListChecks := (\<lambda>_ _. Inr [routed_check, leaving_check])\<rparr>"

definition marshal_names :: "endpoint_check list \<Rightarrow> string + string" where
  "marshal_names checks = Inr (concat (map (\<lambda>c. check_name c @ '','') checks))"

lemma router_env_checks:
  "env_ListChecks router_env h ns = Inr [routed_check, leaving_check]" "distinct (map check_name [routed_check, leaving_check])"
  by (simp_all add: router_env_def routed_check_def leaving_check_def demo_check_def demo_meta_def check_name_def)

lemma router_env_decides:
  "case fst (refresh_decide router_env xp_plain marshal_names ''team'' []) of
     Commit (Some n) e dels \<Rightarrow> ro_checkName n = ''demo'' \<and> ro_token n = ''tok'' \<and> map check_name dels = [''old''] | _ \<Rightarrow> False"
  by code_simp

lemma router_env_refresh:
  "case Refresh router_env xp_plain marshal_names ''team'' initial_router [] of
     ((err, r'), h') \<Rightarrow> err = None \<and> h' \<noteq> [] \<and> \<not> read_event (last h')"
  by code_simp

lemma router_env_commit:
  obtains n stateErr dels h1 where "refresh_decide router_env xp_plain marshal_names ''team'' [] = (Commit (Some n) stateErr dels, h1)"
    "ro_checkName n = ''demo''" "map check_name dels = [''old'']"
  using router_env_decides
  by (cases "refresh_decide router_env xp_plain marshal_names ''team'' []") (auto split: refresh_outcome.splits option.splits)

lemma initial_router_wf: "router_wf initial_router"
  by (simp add: router_wf_def initial_router_def)

theorem refresh_commit_sound_witness:
  "\<exists>n stateErr dels h1. refresh_decide router_env xp_plain marshal_names ''team'' [] = (Commit (Some n) stateErr dels, h1)
     \<and> ro_checkName n = ''demo'' \<and> ro_token n \<noteq> []"
proof -
  obtain n stateErr dels h1 where d: "refresh_decide router_env xp_plain marshal_names ''team'' [] = (Commit (Some n) stateErr dels, h1)"
    and n: "ro_checkName n = ''demo''" by (rule router_env_commit)
  have "ro_token n \<noteq> []" using refresh_commit_sound [OF d] unfolding Let_def by (elim exE conjE) simp
  with d n show ?thesis by blast
qed

theorem refresh_fail_closed_witness:
  "\<exists>err r' h' a. Refresh router_env xp_plain marshal_names ''team'' initial_router [] = ((err, r'), h')
     \<and> rr_active r' = Some a \<and> ro_checkName (le_route (rr_store r' ! a)) = ''demo''"
proof -
  obtain n stateErr dels h1 where d: "refresh_decide router_env xp_plain marshal_names ''team'' [] = (Commit (Some n) stateErr dels, h1)"
    and n: "ro_checkName n = ''demo''" by (rule router_env_commit)
  obtain err r' h' where r: "Refresh router_env xp_plain marshal_names ''team'' initial_router [] = ((err, r'), h')"
    by (metis surj_pair)
  from refresh_fail_closed [OF initial_router_wf r] d obtain a
    where "rr_active r' = Some a" "routesEquivalent (le_route (rr_store r' ! a)) n" by auto
  with r n routesEquivalent_name show ?thesis by metis
qed

lemma router_env_revision: "\<exists>revision. endpointCheckRevision marshal_names [routed_check, leaving_check] = Inr revision"
  by (simp add: endpointCheckRevision_def marshal_names_def)

theorem refresh_acknowledges_witness:
  "\<exists>err r' h1 n. Refresh router_env xp_plain marshal_names ''team'' initial_router [] =
      ((err, r'), h1 @ [EvList KEndpointCheck ''team'', EvRoute (active_check r')] @ take n [EvUpdateCheck (drain_removed leaving_check)])
     \<and> n = 1"
proof -
  obtain err r' h' where r: "Refresh router_env xp_plain marshal_names ''team'' initial_router [] = ((err, r'), h')"
    by (metis surj_pair)
  have acks: "to_acknowledge [routed_check, leaving_check] = [leaving_check]"
    by (simp add: to_acknowledge_def routed_check_def leaving_check_def demo_check_def demo_meta_def)
  have accepts: "env_Write router_env h ev = None" for h ev
    by (simp add: router_env_def admission_env_def passing_peer_def scripted_env_def)
  have same: "lists_unchanged router_env marshal_names ''team'' [] h1" for h1
    using router_env_revision by (auto simp: lists_unchanged_def router_env_checks)
  have "\<And>checks. env_ListChecks router_env [] ''team'' = Inr checks \<Longrightarrow> distinct (map check_name checks)"
    using router_env_checks by simp
  from refresh_acknowledges [OF initial_router_wf r this] same obtain h1 n refused where
    a: "h' = h1 @ [EvList KEndpointCheck ''team'', EvRoute (active_check r')] @ take n [EvUpdateCheck (drain_removed leaving_check)]"
    "writes_run router_env (h1 @ [EvList KEndpointCheck ''team'', EvRoute (active_check r')]) [EvUpdateCheck (drain_removed leaving_check)] n refused"
    by (auto simp: router_env_checks(1) acks Let_def)
  from a(2) accepts have "n = 1" by (auto simp: writes_run_def write_accepted_def split: if_splits)
  with r a(1) show ?thesis by (intro exI [of _ err] exI [of _ r'] exI [of _ h1] exI [of _ n]) simp
qed

theorem refresh_refines_steps_witness:
  "router_step\<^sup>*\<^sup>* initial_system
     (initial_system\<lparr>sy_router := snd (fst (Refresh router_env xp_plain marshal_names ''team'' initial_router [])), sy_refresh := RAck [''old'']\<rparr>)"
proof -
  obtain n stateErr dels h1 where d: "refresh_decide router_env xp_plain marshal_names ''team'' [] = (Commit (Some n) stateErr dels, h1)"
    and dels: "map check_name dels = [''old'']" by (rule router_env_commit)
  from refresh_refines_steps [of initial_system, OF _ _ _ d] router_env_checks dels show ?thesis
    by (simp add: initial_system_def outcome_names_def)
qed

end
