(* ===== verification/GoAny.thy ===== *)
theory GoAny
  imports GoFloat GoJson "HOL-Library.List_Lexorder" "HOL-Library.Char_ord"
begin

text \<open>
  The dynamically typed values of the router's requests: what \<open>json.Unmarshal\<close> stores in an
  interface (\<open>any\<close>), with the operations the source applies to them, and what \<open>json.Marshal\<close> prints
  for them. A \<open>map[string]any\<close> is a list of members sorted by key, which is the order Marshal prints;
  where the source ranges over a map the model follows that order. A \<open>float64\<close> is finite here,
  because the decoder refuses a literal out of range: its sign bit and its magnitude. A decoder
  with \<open>UseNumber\<close> stores the literal as a \<open>json.Number\<close> instead.
\<close>

datatype any =
    VNil
  | VBool bool
  | VFloat bool rat
  | VNumber string
  | VStr string
  | VArr "any list"
  | VObj "(string \<times> any) list"

type_synonym members = "(string \<times> any) list"

section \<open>Maps\<close>

text \<open>Assignment to a map element, and \<open>delete\<close>.\<close>

fun put :: "string \<Rightarrow> 'v \<Rightarrow> (string \<times> 'v) list \<Rightarrow> (string \<times> 'v) list" where
  "put k v [] = [(k, v)]"
| "put k v ((k', v') # m) =
     (if k = k' then (k, v) # m else if k < k' then (k, v) # (k', v') # m else (k', v') # put k v m)"

definition del :: "string \<Rightarrow> (string \<times> 'v) list \<Rightarrow> (string \<times> 'v) list" where
  "del k m = filter (\<lambda>(k', _). k' \<noteq> k) m"

text \<open>An index expression gives nil for a missing key.\<close>

definition index :: "members \<Rightarrow> string \<Rightarrow> any" where
  "index m k = (case map_of m k of None \<Rightarrow> VNil | Some v \<Rightarrow> v)"

definition map_wf :: "(string \<times> 'v) list \<Rightarrow> bool" where
  "map_wf m \<longleftrightarrow> sorted_wrt (<) (map fst m)"

lemma map_of_put: "map_of (put k v m) = (map_of m)(k \<mapsto> v)"
  by (induction m) (auto simp: fun_eq_iff)

lemma set_put: "fst ` set (put k v m) = insert k (fst ` set m)"
  by (induction m) (force split: if_splits)+

lemma map_wf_put: "map_wf m \<Longrightarrow> map_wf (put k v m)"
proof (induction m)
  case (Cons p m)
  then show ?case using set_put [of k v m] by (cases p) (force simp: map_wf_def)
qed (simp add: map_wf_def)

lemma map_wf_del: "map_wf m \<Longrightarrow> map_wf (del k m)"
  by (induction m) (auto simp: map_wf_def del_def)

lemma map_of_del: "map_of (del k m) = (map_of m)(k := None)"
  by (induction m) (auto simp: del_def fun_eq_iff)

lemma map_wf_distinct: "map_wf m \<Longrightarrow> distinct (map fst m)"
  by (auto simp: map_wf_def dest: strict_sorted_iff [THEN iffD1])

section \<open>Decoding\<close>

definition float_of_literal :: "string \<Rightarrow> any option" where
  "float_of_literal s =
     (case ParseFloat s of
        Some (Fin q) \<Rightarrow> Some (VFloat (case s of c # _ \<Rightarrow> c = CHR ''-'' | [] \<Rightarrow> False) \<bar>q\<bar>)
      | _ \<Rightarrow> None)"

fun any_of_json :: "json \<Rightarrow> any option" where
  "any_of_json JNull = Some VNil"
| "any_of_json (JBool b) = Some (VBool b)"
| "any_of_json (JNum s) = float_of_literal s"
| "any_of_json (JStr s) = Some (VStr s)"
| "any_of_json (JArr vs) = map_option VArr (those (map any_of_json vs))"
| "any_of_json (JObj kvs) =
     map_option (\<lambda>ms. VObj (foldl (\<lambda>m (k, v). put k v m) [] ms)) (those (map (\<lambda>(k, v). map_option (Pair k) (any_of_json v)) kvs))"

text \<open>The same with \<open>UseNumber\<close>.\<close>

fun any_of_json_number :: "json \<Rightarrow> any" where
  "any_of_json_number JNull = VNil"
| "any_of_json_number (JBool b) = VBool b"
| "any_of_json_number (JNum s) = VNumber s"
| "any_of_json_number (JStr s) = VStr s"
| "any_of_json_number (JArr vs) = VArr (map any_of_json_number vs)"
| "any_of_json_number (JObj kvs) =
     VObj (foldl (\<lambda>m (k, v). put k v m) [] (map (\<lambda>(k, v). (k, any_of_json_number v)) kvs))"

text \<open>\<open>json.Unmarshal\<close> into a \<open>map[string]any\<close>: null leaves the nil map, other values are refused.\<close>

definition unmarshal_map :: "string \<Rightarrow> members option" where
  "unmarshal_map body =
     (case json_parse body of
        None \<Rightarrow> None
      | Some v \<Rightarrow> (case any_of_json v of Some (VObj m) \<Rightarrow> Some m | Some VNil \<Rightarrow> Some [] | _ \<Rightarrow> None))"

section \<open>Printing\<close>

text \<open>
  The shortest decimal that reads back as a given positive float64, as digits and the position of
  the decimal point: for each number of digits the two decimals around the value are tried,
  and seventeen digits are always enough.
\<close>

definition pow10 :: "int \<Rightarrow> rat" where
  "pow10 e = (if 0 \<le> e then 10 ^ nat e else 1 / 10 ^ nat (- e))"

text \<open>The decimal digits of a non-negative integer, without the detour over \<open>nat\<close> that \<open>show_int\<close> takes.\<close>

function int_digits :: "int \<Rightarrow> string" where
  "int_digits n = (if n < 10 then [char_of (48 + nat n)] else int_digits (n div 10) @ [char_of (48 + nat (n mod 10))])"
  by pat_completeness auto
termination
  by (relation "measure nat") auto

declare int_digits.simps [simp del]

definition log10_floor :: "rat \<Rightarrow> int" where
  "log10_floor q =
     (case quotient_of q of (a, b) \<Rightarrow>
        let e = int (length (int_digits a)) - int (length (int_digits b))
        in if pow10 e \<le> q then e else e - 1)"

definition decimal_at :: "rat \<Rightarrow> int \<Rightarrow> int \<Rightarrow> int option" where
  "decimal_at q k n =
     (let u = pow10 (k + 1 - n); lo = \<lfloor>q / u\<rfloor>; hi = lo + 1;
          reads = (\<lambda>c. round_pos (of_int c * u) = q)
      in if reads lo \<and> (q / u - of_int lo \<le> 1 / 2 \<or> \<not> reads hi) \<and> 0 < lo then Some lo else if reads hi then Some hi else None)"

fun shortest_digits :: "rat \<Rightarrow> int \<Rightarrow> int list \<Rightarrow> string \<times> int" where
  "shortest_digits q k [] = ([], 0)"
| "shortest_digits q k (n # ns) =
     (case decimal_at q k n of
        None \<Rightarrow> shortest_digits q k ns
      | Some c \<Rightarrow> (let ds = int_digits c in (rev (dropWhile (\<lambda>d. d = CHR ''0'') (rev ds)), int (length ds) - n + k + 1)))"

definition format_f :: "string \<times> int \<Rightarrow> string" where
  "format_f p =
     (case p of (ds, dp) \<Rightarrow>
        if dp \<le> 0 then ''0.'' @ replicate (nat (- dp)) (CHR ''0'') @ ds
        else if int (length ds) \<le> dp then ds @ replicate (nat (dp - int (length ds))) (CHR ''0'')
        else take (nat dp) ds @ ''.'' @ drop (nat dp) ds)"

text \<open>The exponent has no leading zero, because the encoder cleans up \<open>e-09\<close> to \<open>e-9\<close>.\<close>

definition format_e :: "string \<times> int \<Rightarrow> string" where
  "format_e p =
     (case p of (ds, dp) \<Rightarrow>
        take 1 ds @ (if length ds > 1 then ''.'' @ drop 1 ds else []) @ ''e'' @
        (if dp - 1 < 0 then ''-'' else ''+'') @ int_digits \<bar>dp - 1\<bar>)"

definition format_float :: "bool \<Rightarrow> rat \<Rightarrow> string" where
  "format_float neg q =
     (if neg then ''-'' else []) @
     (if q = 0 then ''0''
      else let p = shortest_digits q (log10_floor q) [1 .. 17]
           in if q < pow10 (- 6) \<or> pow10 21 \<le> q then format_e p else format_f p)"

fun marshal_any :: "any \<Rightarrow> string" where
  "marshal_any VNil = ''null''"
| "marshal_any (VBool b) = (if b then ''true'' else ''false'')"
| "marshal_any (VFloat neg q) = format_float neg q"
| "marshal_any (VNumber s) = s"
| "marshal_any (VStr s) = json_quote s"
| "marshal_any (VArr vs) = ''['' @ join (map marshal_any vs) @ '']''"
| "marshal_any (VObj m) = ''{'' @ join (map (\<lambda>(k, v). json_quote k @ '':'' @ marshal_any v) m) @ ''}''"

section \<open>Well-formedness\<close>

text \<open>Every map of a decoded value is sorted by key without repetition.\<close>

fun any_wf :: "any \<Rightarrow> bool" where
  "any_wf (VArr vs) = list_all any_wf vs"
| "any_wf (VObj m) = (map_wf m \<and> list_all (\<lambda>(k, v). any_wf v) m)"
| "any_wf _ = True"

lemma put_members: "list_all (\<lambda>(k, v). P v) m \<Longrightarrow> P v \<Longrightarrow> list_all (\<lambda>(k, v). P v) (put k v m)"
  by (induction m) auto

lemma put_all_wf:
  "map_wf m \<Longrightarrow> list_all (\<lambda>(k, v). P v) m \<Longrightarrow> list_all (\<lambda>(k, v). P v) ms \<Longrightarrow>
     map_wf (foldl (\<lambda>m (k, v). put k v m) m ms) \<and> list_all (\<lambda>(k, v). P v) (foldl (\<lambda>m (k, v). put k v m) m ms)"
  by (induction ms arbitrary: m) (auto simp: map_wf_put put_members)

lemma those_Some: "those xs = Some ys \<Longrightarrow> xs = map Some ys"
  by (induction xs arbitrary: ys) (auto split: option.splits)

lemma any_of_json_wf: "any_of_json j = Some v \<Longrightarrow> any_wf v"
proof (induction j arbitrary: v rule: any_of_json.induct)
  case (5 vs)
  then obtain ws where ws: "those (map any_of_json vs) = Some ws" "v = VArr ws" by auto
  have "any_wf w" if "w \<in> set ws" for w
  proof -
    from that those_Some [OF ws(1)] have "Some w \<in> set (map any_of_json vs)" by (metis image_eqI list.set_map)
    with 5 show ?thesis by auto
  qed
  with ws show ?case by (simp add: list_all_iff)
next
  case (6 kvs)
  then obtain ms where ms: "those (map (\<lambda>(k, v). map_option (Pair k) (any_of_json v)) kvs) = Some ms"
    "v = VObj (foldl (\<lambda>m (k, v). put k v m) [] ms)" by auto
  have "any_wf w" if "(k, w) \<in> set ms" for k w
  proof -
    from that those_Some [OF ms(1)] have "Some (k, w) \<in> set (map (\<lambda>(k, v). map_option (Pair k) (any_of_json v)) kvs)"
      by (metis image_eqI list.set_map)
    then obtain j where "(k, j) \<in> set kvs" "any_of_json j = Some w" by (auto dest!: sym [of "Some (k, w)"])
    with 6(1) [OF this(1) refl] show ?thesis by simp
  qed
  then have "list_all (\<lambda>(k, v). any_wf v) ms" by (auto simp: list_all_iff)
  with put_all_wf [of "[]" any_wf ms] ms show ?case by (simp add: map_wf_def)
qed (auto simp: float_of_literal_def split: option.splits float64.splits)

lemma any_of_json_number_wf: "any_wf (any_of_json_number j)"
proof (induction j rule: any_of_json_number.induct)
  case (6 kvs)
  then have "list_all (\<lambda>(k, v). any_wf v) (map (\<lambda>(k, v). (k, any_of_json_number v)) kvs)" by (auto simp: list_all_iff)
  from put_all_wf [OF _ _ this, of "[]"] show ?case by (simp add: map_wf_def)
qed (auto simp: list_all_iff)

lemma unmarshal_map_wf: "unmarshal_map body = Some m \<Longrightarrow> any_wf (VObj m)"
  by (auto simp: unmarshal_map_def map_wf_def dest!: any_of_json_wf split: option.splits any.splits)

end
