(* ===== verification/RouterRequest.thy ===== *)
theory RouterRequest
  imports Router GoAny
begin

text \<open>
  \<open>internal/router/request.go\<close> and the two secret filters of \<open>router.go\<close>: the bounded subset of the
  OpenAI chat request that the router forwards. A validator returns the value it accepts, because
  the code changes the maps in place: it strips the dialect and the defaults of tool schemas and
  replaces the arguments of tool calls by their canonical text. The texts of the errors are kept,
  although the caller answers every one of them with the same message.
\<close>

section \<open>Results\<close>

definition require :: "bool \<Rightarrow> string \<Rightarrow> 'a result \<Rightarrow> 'a result" where
  "require b msg k = (if b then k else Inl (Err msg))"

definition andThen :: "'a result \<Rightarrow> ('a \<Rightarrow> 'b result) \<Rightarrow> 'b result" where
  "andThen r f = (case r of Inl e \<Rightarrow> Inl e | Inr x \<Rightarrow> f x)"

named_theorems returns_iff \<open>when a validator returns a value\<close>

lemma require_iff [returns_iff]: "require b msg k = Inr x \<longleftrightarrow> b \<and> k = Inr x"
  by (simp add: require_def)

lemma andThen_iff [returns_iff]: "andThen r f = Inr y \<longleftrightarrow> (\<exists>x. r = Inr x \<and> f x = Inr y)"
  by (cases r) (auto simp: andThen_def)

lemma require_cong [fundef_cong]: "b = b' \<Longrightarrow> msg = msg' \<Longrightarrow> (b' \<Longrightarrow> k = k') \<Longrightarrow> require b msg k = require b' msg' k'"
  by (simp add: require_def)

lemma andThen_cong [fundef_cong]: "r = r' \<Longrightarrow> (\<And>x. r' = Inr x \<Longrightarrow> f x = f' x) \<Longrightarrow> andThen r f = andThen r' f'"
  by (cases r') (auto simp: andThen_def)

section \<open>Limits\<close>

definition openCodeSchemaURI :: string where
  "openCodeSchemaURI = ''https://json-schema.org/draft/2020-12/schema''"

definition maxMessages :: int where "maxMessages = 128"
definition maxTextBytes :: int where "maxTextBytes = 128 * 1024"
definition maxTools :: int where "maxTools = 32"
definition maxToolCalls :: int where "maxToolCalls = 32"
definition maxToolDescription :: int where "maxToolDescription = 16 * 1024"
definition maxSchemaDepth :: int where "maxSchemaDepth = 3"
definition maxSchemaNodes :: int where "maxSchemaNodes = 128"
definition maxSchemaProperties :: int where "maxSchemaProperties = 64"
definition maxToolArgumentBytes :: int where "maxToolArgumentBytes = 32 * 1024"
definition maxArgumentDepth :: int where "maxArgumentDepth = 6"
definition maxArgumentNodes :: int where "maxArgumentNodes = 128"

lemmas limits = maxMessages_def maxTextBytes_def maxTools_def maxToolCalls_def maxToolDescription_def maxSchemaDepth_def
  maxSchemaNodes_def maxSchemaProperties_def maxToolArgumentBytes_def maxArgumentDepth_def maxArgumentNodes_def

definition len :: "'a list \<Rightarrow> int" where
  "len xs = int (length xs)"

text \<open>The expression \<open>^[A-Za-z0-9_-]{1,64}$\<close>.\<close>

definition safe_name :: "string \<Rightarrow> bool" where
  "safe_name s \<longleftrightarrow> list_all id_char s \<and> 1 \<le> len s \<and> len s \<le> 64"

section \<open>Secret filters\<close>

definition secret_key :: "string \<Rightarrow> bool" where
  "secret_key key \<longleftrightarrow>
     (let lower = ToLower key
      in Contains lower ''password'' \<or> Contains lower ''secret'' \<or> Contains lower ''api_key'' \<or> Contains lower ''apikey'' \<or>
         lower = ''token'' \<or> lower = ''auth'' \<or> lower = ''authorization'' \<or> lower = ''credential'' \<or> lower = ''credentials'' \<or>
         Contains lower ''private_key'' \<or> Contains lower ''client_key'')"

fun containsSecretKey :: "any \<Rightarrow> bool" where
  "containsSecretKey (VObj m) = list_ex (\<lambda>b. b) (map (\<lambda>(k, v). if secret_key k then True else containsSecretKey v) m)"
| "containsSecretKey (VArr vs) = list_ex (\<lambda>b. b) (map containsSecretKey vs)"
| "containsSecretKey _ = False"

text \<open>
  \<open>credentialPattern\<close>, case-insensitive: the text is folded to upper case first, which also folds
  the two runes that the flag \<open>(?i)\<close> identifies with an ASCII letter. Each function below decides
  whether an alternative of the expression matches at the start of a text. A class repeated
  \<open>{n,}\<close> at the end of an alternative needs n characters; before a dot or a class disjoint from it
  the repetition is maximal.
\<close>

definition upper_alnum :: "char \<Rightarrow> bool" where
  "upper_alnum c \<longleftrightarrow> is_digit c \<or> is_upper c"

definition word_char :: "char \<Rightarrow> bool" where
  "word_char c \<longleftrightarrow> upper_alnum c \<or> c = CHR ''_''"

definition dash_char :: "char \<Rightarrow> bool" where
  "dash_char c \<longleftrightarrow> word_char c \<or> c = CHR ''-''"

definition bearer_char :: "char \<Rightarrow> bool" where
  "bearer_char c \<longleftrightarrow> upper_alnum c \<or> c \<in> set ''._~+/=-''"

definition posix_space :: "char \<Rightarrow> bool" where
  "posix_space c \<longleftrightarrow> c = CHR 0x20 \<or> (CHR 0x09 \<le> c \<and> c \<le> CHR 0x0D)"

definition run_of :: "(char \<Rightarrow> bool) \<Rightarrow> nat \<Rightarrow> string \<Rightarrow> bool" where
  "run_of P n s \<longleftrightarrow> n \<le> length (takeWhile P s)"

definition after :: "string \<Rightarrow> string \<Rightarrow> (string \<Rightarrow> bool) \<Rightarrow> bool" where
  "after p s k \<longleftrightarrow> HasPrefix s p \<and> k (drop (length p) s)"

definition jwt_tail :: "(string \<Rightarrow> bool) \<Rightarrow> string \<Rightarrow> bool" where
  "jwt_tail k s \<longleftrightarrow> run_of dash_char 10 s \<and> after ''.'' (dropWhile dash_char s) k"

definition github_token :: "string \<Rightarrow> bool" where
  "github_token s \<longleftrightarrow> list_ex (\<lambda>c. after (''GH'' @ [c] @ ''_'') s (run_of word_char 20)) ''POUSR''"

definition private_key_header :: "string \<Rightarrow> bool" where
  "private_key_header s \<longleftrightarrow>
     after ''-----BEGIN '' s (\<lambda>r. list_ex (\<lambda>kind. HasPrefix r (kind @ ''PRIVATE KEY-----'')) [[], ''RSA '', ''EC '', ''OPENSSH ''])"

definition credential_at :: "string \<Rightarrow> bool" where
  "credential_at s \<longleftrightarrow>
     after ''BEARER'' s (\<lambda>r. run_of posix_space 1 r \<and> run_of bearer_char 8 (dropWhile posix_space r)) \<or>
     after ''RPA_'' s (run_of dash_char 8) \<or>
     after ''GITHUB_PAT_'' s (run_of word_char 20) \<or>
     github_token s \<or>
     after ''GLPAT-'' s (run_of dash_char 20) \<or>
     after ''AKIA'' s (run_of upper_alnum 16) \<or>
     private_key_header s \<or>
     after ''EYJ'' s (jwt_tail (jwt_tail (run_of dash_char 10)))"

fun somewhere :: "(string \<Rightarrow> bool) \<Rightarrow> string \<Rightarrow> bool" where
  "somewhere P [] = P []"
| "somewhere P (c # cs) = (P (c # cs) \<or> somewhere P cs)"

definition credentialPattern :: "string \<Rightarrow> bool" where
  "credentialPattern s = somewhere credential_at (foldName s)"

section \<open>Small validators\<close>

definition onlyKeys :: "members \<Rightarrow> string list \<Rightarrow> bool" where
  "onlyKeys m allowed \<longleftrightarrow> list_all (\<lambda>(k, _). List.member allowed k) m"

definition topLevelChatKeys :: "string list" where
  "topLevelChatKeys = [''model'', ''messages'', ''max_tokens'', ''temperature'', ''top_p'', ''frequency_penalty'', ''presence_penalty'',
     ''stop'', ''seed'', ''stream'', ''stream_options'', ''tools'', ''tool_choice'']"

definition validText :: "any \<Rightarrow> bool" where
  "validText v = (case v of VStr s \<Rightarrow> len s \<le> maxTextBytes | _ \<Rightarrow> False)"

definition validOptionalName :: "members \<Rightarrow> bool" where
  "validOptionalName m = (case map_of m ''name'' of None \<Rightarrow> True | Some (VStr s) \<Rightarrow> safe_name s | Some _ \<Rightarrow> False)"

text \<open>A decoded \<open>float64\<close> is finite, so \<open>math.IsNaN\<close> and \<open>math.IsInf\<close> are false.\<close>

definition number :: "any \<Rightarrow> rat option" where
  "number v = (case v of VFloat neg q \<Rightarrow> Some (if neg then - q else q) | _ \<Rightarrow> None)"

definition integer :: "any \<Rightarrow> rat option" where
  "integer v = (case number v of Some n \<Rightarrow> if of_int \<lfloor>n\<rfloor> = n then Some n else None | None \<Rightarrow> None)"

definition optionalNumberInRange :: "members \<Rightarrow> string \<Rightarrow> rat \<Rightarrow> rat \<Rightarrow> bool" where
  "optionalNumberInRange m key minimum maximum =
     (case map_of m key of
        None \<Rightarrow> True
      | Some raw \<Rightarrow> (case number raw of Some v \<Rightarrow> minimum \<le> v \<and> v \<le> maximum | None \<Rightarrow> False))"

fun string_elems :: "any list \<Rightarrow> int \<Rightarrow> string list option" where
  "string_elems [] maxBytes = Some []"
| "string_elems (VStr s # vs) maxBytes =
     (if s = [] \<or> len s > maxBytes then None else map_option (Cons s) (string_elems vs maxBytes))"
| "string_elems (_ # vs) maxBytes = None"

definition stringArray :: "any \<Rightarrow> int \<Rightarrow> int \<Rightarrow> string list option" where
  "stringArray v maximum maxBytes =
     (case v of VArr vs \<Rightarrow> if len vs > maximum then None else string_elems vs maxBytes | _ \<Rightarrow> None)"

definition jsonPrimitive :: "any \<Rightarrow> bool" where
  "jsonPrimitive v = (case v of VNil \<Rightarrow> True | VBool _ \<Rightarrow> True | VStr _ \<Rightarrow> True | VFloat _ _ \<Rightarrow> True | _ \<Rightarrow> False)"

definition schemaPrimitiveMatches :: "string \<Rightarrow> any \<Rightarrow> bool" where
  "schemaPrimitiveMatches typeName v =
     (if typeName = ''boolean'' then (case v of VBool _ \<Rightarrow> True | _ \<Rightarrow> False)
      else if typeName = ''string'' then (case v of VStr _ \<Rightarrow> True | _ \<Rightarrow> False)
      else if typeName = ''number'' then number v \<noteq> None
      else if typeName = ''integer'' then integer v \<noteq> None
      else False)"

definition validateStreamOptions :: "members \<Rightarrow> unit result" where
  "validateStreamOptions payload =
     (case map_of payload ''stream_options'' of
        None \<Rightarrow> Inr ()
      | Some (VObj options) \<Rightarrow>
          require (onlyKeys options [''include_usage''] \<and> len options = 1) ''invalid stream_options''
            (case index options ''include_usage'' of
               VBool _ \<Rightarrow> require (index payload ''stream'' = VBool True) ''stream_options requires streaming'' (Inr ())
             | _ \<Rightarrow> Inl (Err ''stream_options requires streaming''))
      | Some _ \<Rightarrow> Inl (Err ''invalid stream_options''))"

definition validateStop :: "any option \<Rightarrow> unit result" where
  "validateStop v =
     (case v of
        None \<Rightarrow> Inr ()
      | Some (VStr text) \<Rightarrow> require (\<not> (len text = 0 \<or> len text > 256)) ''invalid stop string'' (Inr ())
      | Some stop \<Rightarrow>
          (case stringArray stop 4 256 of
             Some values \<Rightarrow> require (len values \<noteq> 0) ''invalid stop array'' (Inr ())
           | None \<Rightarrow> Inl (Err ''invalid stop array'')))"

section \<open>Tool schemas\<close>

definition schema_keywords :: "int \<Rightarrow> string list" where
  "schema_keywords depth =
     [''type'', ''description'', ''default'', ''properties'', ''required'', ''items'', ''enum'', ''minimum'', ''maximum'', ''exclusiveMinimum''] @
     (if depth = 0 then [''$schema''] else [])"

definition schema_types :: "string list" where
  "schema_types = [''object'', ''array'', ''string'', ''number'', ''integer'', ''boolean'']"

text \<open>The dialect: required at the root, refused below, and stripped.\<close>

definition schema_dialect :: "members \<Rightarrow> int \<Rightarrow> members result" where
  "schema_dialect schema depth =
     (case map_of schema ''$schema'' of
        None \<Rightarrow> require (depth \<noteq> 0) ''root tool JSON Schema dialect is required'' (Inr schema)
      | Some raw \<Rightarrow>
          require (depth = 0 \<and> raw = VStr openCodeSchemaURI) ''tool JSON Schema dialect is not the pinned OpenCode dialect''
            (Inr (del ''$schema'' schema)))"

definition schema_type :: "members \<Rightarrow> int \<Rightarrow> string result" where
  "schema_type schema depth =
     (case index schema ''type'' of
        VStr typeName \<Rightarrow>
          require (List.member schema_types typeName) ''every tool JSON Schema node requires a supported type''
            (require (\<not> (depth = 0 \<and> typeName \<noteq> ''object'')) ''root tool JSON Schema must be an object'' (Inr typeName))
      | _ \<Rightarrow> Inl (Err ''every tool JSON Schema node requires a supported type''))"

text \<open>The description is bounded; a default of the node's primitive type is stripped.\<close>

definition schema_annotations :: "string \<Rightarrow> members \<Rightarrow> members result" where
  "schema_annotations typeName schema =
     require (case map_of schema ''description'' of None \<Rightarrow> True | Some (VStr s) \<Rightarrow> len s \<le> maxToolDescription | Some _ \<Rightarrow> False)
       ''invalid JSON Schema description''
       (case map_of schema ''default'' of
          None \<Rightarrow> Inr schema
        | Some raw \<Rightarrow> require (schemaPrimitiveMatches typeName raw) ''JSON Schema default must match its primitive type'' (Inr (del ''default'' schema)))"

definition schema_head :: "members \<Rightarrow> int \<Rightarrow> (string \<times> members) result" where
  "schema_head schema depth =
     require (onlyKeys schema (schema_keywords depth)) ''tool JSON Schema uses an unsupported keyword''
       (andThen (schema_dialect schema depth) (\<lambda>schema1.
        andThen (schema_type schema1 depth) (\<lambda>typeName.
        andThen (schema_annotations typeName schema1) (\<lambda>schema2. Inr (typeName, schema2)))))"

text \<open>The members that \<open>properties\<close> has to declare: none when the keyword is absent.\<close>

definition schema_properties :: "string \<Rightarrow> members \<Rightarrow> members result" where
  "schema_properties typeName schema =
     (case map_of schema ''properties'' of
        None \<Rightarrow> Inr []
      | Some raw \<Rightarrow>
          require (typeName = ''object'') ''JSON Schema properties require object type''
            (case raw of
               VObj properties \<Rightarrow> require (len properties \<le> maxSchemaProperties) ''invalid JSON Schema properties'' (Inr properties)
             | _ \<Rightarrow> Inl (Err ''invalid JSON Schema properties'')))"

fun required_declared :: "string list \<Rightarrow> members \<Rightarrow> string list \<Rightarrow> unit result" where
  "required_declared [] properties seen = Inr ()"
| "required_declared (name # names) properties seen =
     require (map_of properties name \<noteq> None) ''required property is not declared''
       (require (\<not> List.member seen name) ''duplicate required property'' (required_declared names properties (name # seen)))"

definition schema_required :: "string \<Rightarrow> members \<Rightarrow> members \<Rightarrow> unit result" where
  "schema_required typeName schema properties =
     andThen
       (case map_of schema ''required'' of
          None \<Rightarrow> Inr ()
        | Some raw \<Rightarrow>
            require (typeName = ''object'') ''JSON Schema required requires object type''
              (case stringArray raw maxSchemaProperties 128 of
                 None \<Rightarrow> Inl (Err ''invalid JSON Schema required list'')
               | Some required \<Rightarrow> required_declared required properties []))
       (\<lambda>_. if typeName = ''object'' then
          require (len properties \<noteq> 0) ''object tool JSON Schema requires non-empty properties''
            (case map_of schema ''required'' of
               None \<Rightarrow> Inl (Err ''object tool JSON Schema requires a non-empty required list'')
             | Some raw \<Rightarrow>
                 (case stringArray raw maxSchemaProperties 128 of
                    None \<Rightarrow> Inl (Err ''object tool JSON Schema requires a non-empty required list'')
                  | Some required \<Rightarrow> require (len required \<noteq> 0) ''object tool JSON Schema requires a non-empty required list'' (Inr ())))
        else Inr ())"

definition schema_enum :: "string \<Rightarrow> members \<Rightarrow> unit result" where
  "schema_enum typeName schema =
     (case map_of schema ''enum'' of
        None \<Rightarrow> Inr ()
      | Some raw \<Rightarrow>
          require (\<not> (typeName = ''object'' \<or> typeName = ''array'')) ''JSON Schema enum is limited to captured primitive types''
            (case raw of
               VArr values \<Rightarrow>
                 require (\<not> (len values = 0 \<or> len values > 64)) ''invalid JSON Schema enum''
                   (require (list_all (schemaPrimitiveMatches typeName) values) ''JSON Schema enum value does not match its declared type'' (Inr ()))
             | _ \<Rightarrow> Inl (Err ''invalid JSON Schema enum'')))"

fun schema_bounds :: "string list \<Rightarrow> string \<Rightarrow> members \<Rightarrow> unit result" where
  "schema_bounds [] typeName schema = Inr ()"
| "schema_bounds (keyword # keywords) typeName schema =
     (case map_of schema keyword of
        None \<Rightarrow> schema_bounds keywords typeName schema
      | Some raw \<Rightarrow>
          require (\<not> (typeName \<noteq> ''number'' \<and> typeName \<noteq> ''integer'')) ''numeric JSON Schema bound requires number or integer type''
            (require (number raw \<noteq> None) ''invalid numeric JSON Schema bound'' (schema_bounds keywords typeName schema)))"

definition schema_tail :: "string \<Rightarrow> members \<Rightarrow> unit result" where
  "schema_tail typeName schema =
     require (\<not> (typeName = ''array'' \<and> map_of schema ''items'' = None)) ''array tool JSON Schema requires items''
       (andThen (schema_enum typeName schema) (\<lambda>_. schema_bounds [''minimum'', ''maximum'', ''exclusiveMinimum''] typeName schema))"

definition schema_items :: "string \<Rightarrow> members \<Rightarrow> any option result" where
  "schema_items typeName schema =
     (case map_of schema ''items'' of
        None \<Rightarrow> Inr None
      | Some raw \<Rightarrow> require (typeName = ''array'') ''JSON Schema items require array type'' (Inr (Some raw)))"

text \<open>
  The recursion shares one budget of nodes. Children are validated in the order of the sorted
  properties; the result is the stripped schema and the budget left.
\<close>

function (sequential) validateJSONSchema :: "any \<Rightarrow> int \<Rightarrow> int \<Rightarrow> (any \<times> int) result"
  and validateProperties :: "members \<Rightarrow> int \<Rightarrow> int \<Rightarrow> (members \<times> int) result" where
  "validateJSONSchema value depth budget =
     (if depth > maxSchemaDepth \<or> budget \<le> 0 then Inl (Err ''tool JSON Schema exceeds complexity limits'')
      else case value of
        VObj schema \<Rightarrow>
          andThen (schema_head schema depth) (\<lambda>(typeName, schema1).
          andThen (schema_properties typeName schema1) (\<lambda>properties.
          andThen (validateProperties properties (depth + 1) (budget - 1)) (\<lambda>(properties', budget1).
          andThen (schema_required typeName schema1 properties) (\<lambda>_.
          andThen (schema_items typeName schema1) (\<lambda>items.
          andThen (case items of
                     None \<Rightarrow> Inr (None, budget1)
                   | Some raw \<Rightarrow> andThen (validateJSONSchema raw (depth + 1) budget1) (\<lambda>(items', budget2). Inr (Some items', budget2)))
            (\<lambda>(items', budget2).
          andThen (schema_tail typeName schema1) (\<lambda>_.
            Inr (VObj (map (\<lambda>(k, v).
                   (k, if k = ''properties'' then VObj properties' else if k = ''items'' then (case items' of Some i \<Rightarrow> i | None \<Rightarrow> v) else v)) schema1),
                 budget2))))))))
      | _ \<Rightarrow> Inl (Err ''tool JSON Schema must be an object''))"
| "validateProperties [] depth budget = Inr ([], budget)"
| "validateProperties ((name, child) # rest) depth budget =
     require (\<not> (name = [] \<or> len name > 128)) ''invalid JSON Schema property name''
       (andThen (validateJSONSchema child depth budget) (\<lambda>(child', budget1).
        andThen (validateProperties rest depth budget1) (\<lambda>(rest', budget2). Inr ((name, child') # rest', budget2))))"
  by pat_completeness auto
termination
  by (relation "measures [\<lambda>x. case x of Inl (_, d, _) \<Rightarrow> nat (4 - d) | Inr (_, d, _) \<Rightarrow> nat (4 - d),
      \<lambda>x. case x of Inl _ \<Rightarrow> 0 | Inr (m, _, _) \<Rightarrow> Suc (length m)]")
    (auto simp: maxSchemaDepth_def)

declare validateJSONSchema.simps [simp del]

section \<open>Tool arguments\<close>

text \<open>
  \<open>decodeStrictJSONValue\<close> reads tokens from a \<open>json.Decoder\<close>. The decoder's token state and the
  recursion of the function are the mode and the stack of the pushdown parser of \<open>GoJson\<close>: the depth
  is the height of the stack. Before a value begins, the depth and the budget of nodes are
  checked; a key is checked for its length and for repetition, and keys and strings count
  against a budget of text. The text is scanned as a whole first, so a malformed token after the
  value is reported as invalid JSON, where the code reports trailing JSON.
\<close>

definition begins_value :: "mode \<Rightarrow> token \<Rightarrow> bool" where
  "begins_value m t \<longleftrightarrow> (case m of MVal \<Rightarrow> True | MValOrEnd \<Rightarrow> t \<noteq> TDelim (CHR '']'') | _ \<Rightarrow> False)"

definition token_text :: "token \<Rightarrow> int" where
  "token_text t = (case t of TStr s \<Rightarrow> len s | _ \<Rightarrow> 0)"

definition strict_key_ok :: "mode \<Rightarrow> token \<Rightarrow> bool" where
  "strict_key_ok m t \<longleftrightarrow>
     (case t of
        TStr key \<Rightarrow>
          (case m of
             MKeyOrEnd \<Rightarrow> \<not> (key = [] \<or> len key > 128)
           | MKey kvs \<Rightarrow> \<not> (key = [] \<or> len key > 128) \<and> \<not> List.member (map fst kvs) key
           | _ \<Rightarrow> True)
      | _ \<Rightarrow> True)"

definition strict_step :: "mode \<Rightarrow> frame list \<Rightarrow> int \<Rightarrow> int \<Rightarrow> token \<Rightarrow> (mode \<times> frame list \<times> int \<times> int) option" where
  "strict_step m fs budget textBudget t =
     (if begins_value m t \<and> (len fs > maxArgumentDepth \<or> budget \<le> 0) then None
      else if \<not> strict_key_ok m t \<or> textBudget - token_text t < 0 then None
      else case parse_step m fs t of
             None \<Rightarrow> None
           | Some (m', fs') \<Rightarrow> Some (m', fs', if begins_value m t then budget - 1 else budget, textBudget - token_text t))"

fun strict_run :: "mode \<Rightarrow> frame list \<Rightarrow> int \<Rightarrow> int \<Rightarrow> token list \<Rightarrow> (json \<times> token list) option" where
  "strict_run m fs budget textBudget [] = (case (m, fs) of (MAfter v, []) \<Rightarrow> Some (v, []) | _ \<Rightarrow> None)"
| "strict_run m fs budget textBudget (t # ts) =
     (case (m, fs) of
        (MAfter v, []) \<Rightarrow> Some (v, t # ts)
      | _ \<Rightarrow> (case strict_step m fs budget textBudget t of
                None \<Rightarrow> None
              | Some (m', fs', budget', textBudget') \<Rightarrow> strict_run m' fs' budget' textBudget' ts))"

definition decodeStrictJSONValue :: "token list \<Rightarrow> (any \<times> token list) option" where
  "decodeStrictJSONValue ts =
     map_option (\<lambda>(v, rest). (any_of_json_number v, rest)) (strict_run MVal [] maxArgumentNodes maxToolArgumentBytes ts)"

definition validateToolArguments :: "string \<Rightarrow> string result" where
  "validateToolArguments encoded =
     (case lex LStart encoded of
        None \<Rightarrow> Inl (Err ''invalid function arguments JSON'')
      | Some ts \<Rightarrow>
          (case decodeStrictJSONValue ts of
             None \<Rightarrow> Inl (Err ''invalid function arguments JSON'')
           | Some (VObj object, rest) \<Rightarrow>
               require (rest = []) ''function arguments contain trailing JSON''
                 (require (\<not> containsSecretKey (VObj object)) ''function arguments contain a secret-labelled field''
                   (let canonical = marshal_any (VObj object)
                    in require (\<not> (len canonical > maxToolArgumentBytes \<or> credentialPattern canonical))
                         ''function arguments contain credential-like material'' (Inr canonical)))
           | Some _ \<Rightarrow> Inl (Err ''function arguments must be exactly one JSON object'')))"

section \<open>Tools, tool calls and messages\<close>

definition validateFunction :: "any \<Rightarrow> string list \<Rightarrow> int \<Rightarrow> (string \<times> any \<times> int) result" where
  "validateFunction value names budget =
     (case value of
        VObj function \<Rightarrow>
          require (onlyKeys function [''name'', ''description'', ''parameters''] \<and> len function = 3) ''invalid function definition''
            (case index function ''name'' of
               VStr name \<Rightarrow>
                 require (safe_name name) ''invalid function name''
                   (require (\<not> List.member names name) ''duplicate function name''
                     (require (case index function ''description'' of VStr s \<Rightarrow> len s \<le> maxToolDescription | _ \<Rightarrow> False) ''invalid function description''
                       (case map_of function ''parameters'' of
                          None \<Rightarrow> Inl (Err ''function parameters are required'')
                        | Some parameters \<Rightarrow>
                            andThen (validateJSONSchema parameters 0 budget) (\<lambda>(parameters', budget').
                              Inr (name, VObj (put ''parameters'' parameters' function), budget')))))
             | _ \<Rightarrow> Inl (Err ''invalid function name''))
      | _ \<Rightarrow> Inl (Err ''invalid function definition''))"

fun validateTools_loop :: "any list \<Rightarrow> string list \<Rightarrow> int \<Rightarrow> (string list \<times> any list) result" where
  "validateTools_loop [] names budget = Inr (names, [])"
| "validateTools_loop (VObj tool # tools) names budget =
     require (onlyKeys tool [''type'', ''function''] \<and> index tool ''type'' = VStr ''function'') ''only exact function tools are accepted''
       (andThen (validateFunction (index tool ''function'') names budget) (\<lambda>(name, function', budget').
        andThen (validateTools_loop tools (name # names) budget') (\<lambda>(names', tools').
          Inr (names', VObj (put ''function'' function' tool) # tools'))))"
| "validateTools_loop (_ # tools) names budget = Inl (Err ''only exact function tools are accepted'')"

definition validateTools :: "any option \<Rightarrow> (string list \<times> any option) result" where
  "validateTools v =
     (case v of
        None \<Rightarrow> Inr ([], None)
      | Some (VArr tools) \<Rightarrow>
          require (\<not> (len tools = 0 \<or> len tools > maxTools)) ''tools must be a bounded non-empty array''
            (andThen (validateTools_loop tools [] maxSchemaNodes) (\<lambda>(names, tools'). Inr (names, Some (VArr tools'))))
      | Some _ \<Rightarrow> Inl (Err ''tools must be a bounded non-empty array''))"

definition validateCalledFunction :: "any \<Rightarrow> string list \<Rightarrow> any result" where
  "validateCalledFunction value declared =
     (case value of
        VObj function \<Rightarrow>
          require (onlyKeys function [''name'', ''arguments'']) ''invalid called function''
            (case index function ''name'' of
               VStr name \<Rightarrow>
                 require (safe_name name) ''invalid called function name''
                   (require (List.member declared name) ''called function was not declared''
                     (case index function ''arguments'' of
                        VStr arguments \<Rightarrow>
                          require (\<not> (len arguments = 0 \<or> len arguments > maxToolArgumentBytes)) ''invalid function arguments''
                            (andThen (validateToolArguments arguments) (\<lambda>canonical. Inr (VObj (put ''arguments'' (VStr canonical) function))))
                      | _ \<Rightarrow> Inl (Err ''invalid function arguments'')))
             | _ \<Rightarrow> Inl (Err ''invalid called function name''))
      | _ \<Rightarrow> Inl (Err ''invalid called function''))"

fun validateToolCalls_loop :: "any list \<Rightarrow> string list \<Rightarrow> string list \<Rightarrow> (string list \<times> any list) result" where
  "validateToolCalls_loop [] declared ids = Inr (ids, [])"
| "validateToolCalls_loop (VObj call # calls) declared ids =
     require (onlyKeys call [''id'', ''type'', ''function''] \<and> index call ''type'' = VStr ''function'') ''invalid tool call''
       (case index call ''id'' of
          VStr cid \<Rightarrow>
            require (safe_name cid) ''invalid tool call ID''
              (require (\<not> List.member ids cid) ''duplicate tool call ID''
                (andThen (validateCalledFunction (index call ''function'') declared) (\<lambda>function'.
                 andThen (validateToolCalls_loop calls declared (cid # ids)) (\<lambda>(ids', calls').
                   Inr (ids', VObj (put ''function'' function' call) # calls')))))
        | _ \<Rightarrow> Inl (Err ''invalid tool call ID''))"
| "validateToolCalls_loop (_ # calls) declared ids = Inl (Err ''invalid tool call'')"

definition validateToolCalls :: "any \<Rightarrow> string list \<Rightarrow> (string list \<times> any) result" where
  "validateToolCalls value declared =
     (case value of
        VArr calls \<Rightarrow>
          require (\<not> (len calls = 0 \<or> len calls > maxToolCalls)) ''tool_calls must be a bounded non-empty array''
            (andThen (validateToolCalls_loop calls declared []) (\<lambda>(ids, calls'). Inr (ids, VArr calls')))
      | _ \<Rightarrow> Inl (Err ''tool_calls must be a bounded non-empty array''))"

definition valid_part :: "any \<Rightarrow> bool" where
  "valid_part raw =
     (case raw of
        VObj part \<Rightarrow> onlyKeys part [''type'', ''text''] \<and> index part ''type'' = VStr ''text'' \<and> validText (index part ''text'')
      | _ \<Rightarrow> False)"

definition validUserContent :: "any \<Rightarrow> bool" where
  "validUserContent v =
     (if validText v then True
      else case v of VArr parts \<Rightarrow> \<not> (len parts = 0 \<or> len parts > 128) \<and> list_all valid_part parts | _ \<Rightarrow> False)"

definition validateAssistant :: "members \<Rightarrow> string list \<Rightarrow> (string list \<times> members) result" where
  "validateAssistant message declared =
     require (onlyKeys message [''role'', ''content'', ''name'', ''tool_calls''] \<and> validOptionalName message) ''invalid assistant message shape''
       (let content = map_of message ''content''; calls = map_of message ''tool_calls''
        in require (\<not> (content \<noteq> None \<and> content \<noteq> Some VNil \<and> \<not> validText (the content))) ''assistant content must be text or null''
             (require (\<not> ((content = None \<or> content = Some VNil) \<and> calls = None)) ''assistant message needs content or tool calls''
               (case calls of
                  None \<Rightarrow> Inr ([], message)
                | Some raw \<Rightarrow>
                    andThen (validateToolCalls raw declared) (\<lambda>(ids, calls'). Inr (ids, put ''tool_calls'' calls' message)))))"

text \<open>One message: the identifiers of its tool calls and the message as it is forwarded.\<close>

definition validateMessage :: "members \<Rightarrow> string list \<Rightarrow> (string list \<times> members) result" where
  "validateMessage message declared =
     (case index message ''role'' of
        VStr role \<Rightarrow>
          if role = ''system'' then
            require (onlyKeys message [''role'', ''content'', ''name''] \<and> validText (index message ''content'') \<and> validOptionalName message)
              ''invalid system message'' (Inr ([], message))
          else if role = ''user'' then
            require (onlyKeys message [''role'', ''content'', ''name''] \<and> validUserContent (index message ''content'') \<and> validOptionalName message)
              ''invalid user message'' (Inr ([], message))
          else if role = ''assistant'' then validateAssistant message declared
          else if role = ''tool'' then
            require (onlyKeys message [''role'', ''content'', ''tool_call_id''] \<and> validText (index message ''content'')) ''invalid tool message''
              (require (case index message ''tool_call_id'' of VStr cid \<Rightarrow> safe_name cid | _ \<Rightarrow> False) ''invalid tool_call_id'' (Inr ([], message)))
          else Inl (Err ''unsupported message role'')
      | _ \<Rightarrow> Inl (Err ''message role is required''))"

fun validateMessages_loop :: "any list \<Rightarrow> string list \<Rightarrow> string list \<Rightarrow> (string list \<times> any list) result" where
  "validateMessages_loop [] declared callIDs = Inr (callIDs, [])"
| "validateMessages_loop (VObj message # messages) declared callIDs =
     andThen (validateMessage message declared) (\<lambda>(ids, message').
       require (\<not> list_ex (List.member callIDs) ids) ''duplicate tool call ID''
         (andThen (validateMessages_loop messages declared (ids @ callIDs)) (\<lambda>(callIDs', messages').
            Inr (callIDs', VObj message' # messages'))))"
| "validateMessages_loop (_ # messages) declared callIDs = Inl (Err ''message must be an object'')"

definition tool_result_known :: "string list \<Rightarrow> any \<Rightarrow> bool" where
  "tool_result_known callIDs raw =
     (case raw of
        VObj message \<Rightarrow>
          index message ''role'' = VStr ''tool'' \<longrightarrow> (case index message ''tool_call_id'' of VStr cid \<Rightarrow> List.member callIDs cid | _ \<Rightarrow> False)
      | _ \<Rightarrow> True)"

definition validateMessages :: "any \<Rightarrow> string list \<Rightarrow> (string list \<times> any) result" where
  "validateMessages value declared =
     (case value of
        VArr messages \<Rightarrow>
          require (\<not> (len messages = 0 \<or> len messages > maxMessages)) ''messages must be a bounded non-empty array''
            (andThen (validateMessages_loop messages declared []) (\<lambda>(callIDs, messages').
              require (list_all (tool_result_known callIDs) messages') ''tool message references an undeclared call'' (Inr (callIDs, VArr messages'))))
      | _ \<Rightarrow> Inl (Err ''messages must be a bounded non-empty array''))"

definition validateToolChoice :: "any option \<Rightarrow> string list \<Rightarrow> unit result" where
  "validateToolChoice v declared =
     (case v of
        None \<Rightarrow> Inr ()
      | Some (VStr choice) \<Rightarrow> require (List.member [''auto'', ''none'', ''required''] choice) ''invalid tool_choice'' (Inr ())
      | Some (VObj choice) \<Rightarrow>
          require (onlyKeys choice [''type'', ''function''] \<and> index choice ''type'' = VStr ''function'') ''invalid named tool_choice''
            (case index choice ''function'' of
               VObj function \<Rightarrow>
                 require (onlyKeys function [''name'']) ''invalid named tool_choice function''
                   (case index function ''name'' of
                      VStr name \<Rightarrow> require (List.member declared name) ''tool_choice references an undeclared function'' (Inr ())
                    | _ \<Rightarrow> Inl (Err ''invalid named tool_choice function''))
             | _ \<Rightarrow> Inl (Err ''invalid named tool_choice function''))
      | Some _ \<Rightarrow> Inl (Err ''invalid named tool_choice''))"

section \<open>The request\<close>

definition validSampling :: "members \<Rightarrow> bool" where
  "validSampling payload \<longleftrightarrow>
     optionalNumberInRange payload ''temperature'' 0 2 \<and> optionalNumberInRange payload ''top_p'' 0 1 \<and>
     optionalNumberInRange payload ''frequency_penalty'' (- 2) 2 \<and> optionalNumberInRange payload ''presence_penalty'' (- 2) 2"

definition put_some :: "string \<Rightarrow> any option \<Rightarrow> members \<Rightarrow> members" where
  "put_some k v m = (case v of None \<Rightarrow> m | Some x \<Rightarrow> put k x m)"

definition validateChatPayload :: "members \<Rightarrow> members result" where
  "validateChatPayload payload =
     require (onlyKeys payload topLevelChatKeys) ''unknown top-level field''
     (require (index payload ''model'' = VStr LogicalModelID) ''invalid logical model''
     (require (case integer (index payload ''max_tokens'') of Some n \<Rightarrow> \<not> (n < 1 \<or> n > 4096) | None \<Rightarrow> False)
        ''max_tokens must be between 1 and 4096''
     (require (validSampling payload) ''sampling field is out of bounds''
     (require (case map_of payload ''seed'' of
                 None \<Rightarrow> True
               | Some v \<Rightarrow> (case integer v of Some n \<Rightarrow> \<not> (n < - (2 ^ 31) \<or> n > 2 ^ 31 - 1) | None \<Rightarrow> False)) ''seed is out of bounds''
     (require (case map_of payload ''stream'' of None \<Rightarrow> True | Some (VBool _) \<Rightarrow> True | Some _ \<Rightarrow> False) ''stream must be boolean''
     (andThen (validateStreamOptions payload) (\<lambda>_.
      andThen (validateStop (map_of payload ''stop'')) (\<lambda>_.
      andThen (validateTools (map_of payload ''tools'')) (\<lambda>(declaredTools, tools').
      andThen (validateMessages (index payload ''messages'') declaredTools) (\<lambda>(callIDs, messages').
      andThen (validateToolChoice (map_of payload ''tool_choice'') declaredTools) (\<lambda>_.
        Inr (put ''messages'' messages' (put_some ''tools'' tools' payload)))))))))))))"

end
