(* ===== verification/RouterServe.thy ===== *)
theory RouterServe
  imports RouterRequest
begin

text \<open>
  The HTTP side of \<open>internal/router/router.go\<close>: \<open>ServeHTTP\<close>, \<open>proxyChat\<close>, the bounded copy of the
  response and the single inference slot. A client request and the reply to it are records. How
  the transport cuts the upstream body into reads is an argument, and so is the connection to the
  client, which may fail at any write. Everything a request sends upstream is in the trace.
\<close>

section \<open>Constants and records\<close>

definition maxRequestBytes :: int where
  "maxRequestBytes = 256 * 1024"

definition maxResponseBytes :: int where
  "maxResponseBytes = 32 * 1024 * 1024"

record client_request =
  cq_Method :: string
  cq_Path :: string
  cq_RawQuery :: string
  cq_Header :: strmap
  cq_Body :: string
  cq_ReadErr :: "string option"

record reply =
  re_Status :: int
  re_Header :: strmap
  re_Body :: string

definition upstreamBase :: string where
  "upstreamBase = ''https://api.runpod.ai''"

text \<open>The expression \<open>^[A-Za-z0-9][A-Za-z0-9._:-]{0,127}$\<close>.\<close>

definition safeUpstreamRequestID :: "string \<Rightarrow> bool" where
  "safeUpstreamRequestID s =
     (case s of [] \<Rightarrow> False | c # cs \<Rightarrow> is_alnum c \<and> list_all (\<lambda>d. is_alnum d \<or> d \<in> set ''._:-'') cs \<and> len cs \<le> 127)"

text \<open>\<open>json.NewEncoder(w).Encode\<close> appends a newline.\<close>

definition encode_line :: "any \<Rightarrow> string" where
  "encode_line v = marshal_any v @ [CHR 0x0A]"

definition writeError :: "int \<Rightarrow> string \<Rightarrow> reply" where
  "writeError status message =
     \<lparr>re_Status = status,
      re_Header = [''Content-Type'' \<mapsto> ''application/json'', ''Cache-Control'' \<mapsto> ''no-store'', ''X-Content-Type-Options'' \<mapsto> ''nosniff''],
      re_Body = encode_line (VObj [(''error'', VObj [(''message'', VStr message), (''type'', VStr (''router_http_'' @ show_int status))])])\<rparr>"

section \<open>The bounded copy\<close>

datatype read_err = ReadOK | ReadEOF | ReadFailed string

datatype copy_err = LimitExceeded | CopyFailed string | ShortWrite

type_synonym reads = "(string \<times> read_err) list"

text \<open>One \<open>Read\<close> into a buffer: at most its size; what does not fit is delivered by the next read.\<close>

fun read_into :: "int \<Rightarrow> reads \<Rightarrow> string \<times> read_err \<times> reads" where
  "read_into n [] = ([], ReadEOF, [])"
| "read_into n ((c, e) # rs) =
     (if len c > n then (take (nat n) c, ReadOK, (drop (nat n) c, e) # rs) else (c, e, rs))"

text \<open>
  A write to the client connection, given what was written before: the number of bytes it took and
  its error. \<open>copy_loop\<close> is the loop of \<open>copyBoundedAndFlush\<close>; the buffer has 32 KiB.
\<close>

type_synonym client_writer = "string \<Rightarrow> string \<Rightarrow> nat \<times> string option"

definition bufferSize :: int where
  "bufferSize = 32 * 1024"

definition read_end :: "read_err \<Rightarrow> copy_err option option" where
  "read_end e = (case e of ReadOK \<Rightarrow> None | ReadEOF \<Rightarrow> Some None | ReadFailed msg \<Rightarrow> Some (Some (CopyFailed msg)))"

function (sequential) copy_loop :: "client_writer \<Rightarrow> reads \<Rightarrow> int \<Rightarrow> string \<Rightarrow> copy_err option \<times> string" where
  "copy_loop W [] remaining out = (None, out)"
| "copy_loop W (r # rs) remaining out =
     (if remaining \<le> 0 then
        (case read_into 1 (r # rs) of
           (p, e, rest) \<Rightarrow>
             if p \<noteq> [] then (Some LimitExceeded, out)
             else (case read_end e of Some result \<Rightarrow> (result, out) | None \<Rightarrow> copy_loop W rest remaining out))
      else
        (case read_into (min bufferSize remaining) (r # rs) of
           (p, e, rest) \<Rightarrow>
             if p = [] then (case read_end e of Some result \<Rightarrow> (result, out) | None \<Rightarrow> copy_loop W rest remaining out)
             else (case W out p of
                     (written, Some msg) \<Rightarrow> (Some (CopyFailed msg), out @ take written p)
                   | (written, None) \<Rightarrow>
                       if written \<noteq> length p then (Some ShortWrite, out @ take written p)
                       else (case read_end e of
                               Some result \<Rightarrow> (result, out @ p)
                             | None \<Rightarrow> copy_loop W rest (remaining - len p) (out @ p)))))"
  by pat_completeness auto
termination
  by (relation "measure (\<lambda>(W, rs, remaining, out). sum_list (map (\<lambda>(c, e). Suc (length c)) rs))")
    (auto simp: len_def bufferSize_def split: if_splits)

definition copyBoundedAndFlush :: "client_writer \<Rightarrow> reads \<Rightarrow> int \<Rightarrow> copy_err option \<times> string" where
  "copyBoundedAndFlush W src limit = (if limit \<le> 0 then (Some LimitExceeded, []) else copy_loop W src limit [])"

section \<open>The inference slot\<close>

text \<open>The channel of capacity one: the number of slots taken.\<close>

definition acquireInferenceSlot :: "nat \<Rightarrow> bool \<times> nat" where
  "acquireInferenceSlot taken = (if taken < 1 then (True, Suc taken) else (False, taken))"

definition releaseInferenceSlot :: "nat \<Rightarrow> nat" where
  "releaseInferenceSlot taken = taken - 1"

section \<open>The proxied request\<close>

text \<open>The body that goes upstream, or the status and message of the refusal.\<close>

definition chat_upstream_body :: "client_request \<Rightarrow> route \<Rightarrow> (int \<times> string) + string" where
  "chat_upstream_body req active =
     (if len (cq_Body req) > maxRequestBytes \<or> cq_ReadErr req \<noteq> None then Inl (413, ''request body is invalid or too large'')
      else if credentialPattern (cq_Body req) then Inl (400, ''request contains credential-like material'')
      else case unmarshal_map (cq_Body req) of
        None \<Rightarrow> Inl (400, ''request must be JSON and contain no secret fields'')
      | Some payload \<Rightarrow>
          if containsSecretKey (VObj payload) then Inl (400, ''request must be JSON and contain no secret fields'')
          else (case validateChatPayload payload of
             Inl _ \<Rightarrow> Inl (400, ''request is outside the bounded OpenAI chat schema'')
           | Inr payload' \<Rightarrow>
               if credentialPattern (marshal_any (VObj payload')) then Inl (400, ''request contains credential-like material'')
               else if index payload' ''model'' \<noteq> VStr LogicalModelID then Inl (400, ''model must be '' @ LogicalModelID)
               else Inr (marshal_any (VObj (put ''model'' (VStr (ro_expectedModelID active)) payload')))))"

definition chat_request :: "route \<Rightarrow> string \<Rightarrow> http_request" where
  "chat_request active body =
     \<lparr>rq_Method = MethodPost,
      rq_URL = TrimRight upstreamBase (CHR ''/'') @ ''/v2/'' @ PathEscape (ro_endpointID active) @ ''/openai/v1/chat/completions'',
      rq_Header = [(''Authorization'', ''Bearer '' @ ro_token active), (''Accept'', ''application/json, text/event-stream''),
                   (''Content-Type'', ''application/json'')],
      rq_Body = body\<rparr>"

text \<open>The headers the handler sets before the body is copied.\<close>

definition chat_headers :: "http_response \<Rightarrow> strmap" where
  "chat_headers resp =
     (let contentType = Header_Get (rs_Header resp) ''Content-Type''; requestID = Header_Get (rs_Header resp) ''X-Request-Id'';
          h0 = (if contentType \<noteq> [] then [''Content-Type'' \<mapsto> contentType] else Map.empty);
          h1 = h0(''Cache-Control'' \<mapsto> ''no-store'');
          h2 = (if safeUpstreamRequestID requestID then h1(''X-Request-Id'' \<mapsto> requestID) else h1)
      in h2(''X-Content-Type-Options'' \<mapsto> ''nosniff'', ''Trailer'' \<mapsto> ''X-Provider-Runpod-Error''))"

definition chat_reply :: "client_writer \<Rightarrow> (http_response \<Rightarrow> reads) \<Rightarrow> http_response \<Rightarrow> reply" where
  "chat_reply W rd resp =
     (case copyBoundedAndFlush W (rd resp) maxResponseBytes of
        (None, out) \<Rightarrow> \<lparr>re_Status = rs_StatusCode resp, re_Header = chat_headers resp, re_Body = out\<rparr>
      | (Some err, out) \<Rightarrow>
          \<lparr>re_Status = rs_StatusCode resp,
           re_Header = (chat_headers resp)(''X-Provider-Runpod-Error'' \<mapsto>
             (if err = LimitExceeded then ''response-limit-exceeded'' else ''upstream-read-failed'')),
           re_Body = out\<rparr>)"

definition proxyChat :: "env \<Rightarrow> client_writer \<Rightarrow> (http_response \<Rightarrow> reads) \<Rightarrow> client_request \<Rightarrow> route \<Rightarrow> nat \<Rightarrow> trace \<Rightarrow> reply \<times> nat \<times> trace" where
  "proxyChat E W rd req active slots h =
     (case chat_upstream_body req active of
        Inl (status, message) \<Rightarrow> (writeError status message, slots, h)
      | Inr body \<Rightarrow>
          (case acquireInferenceSlot slots of
             (False, slots') \<Rightarrow> (writeError 429 ''model-router concurrency limit reached'', slots', h)
           | (True, slots') \<Rightarrow>
               (let upstream = chat_request active body
                in case env_NewRequest E MethodPost (rq_URL upstream) of
                     Some _ \<Rightarrow> (writeError 502 ''cannot construct upstream request'', releaseInferenceSlot slots', h)
                   | None \<Rightarrow>
                       (case env_Do E h upstream of
                          DoErr _ \<Rightarrow> (writeError 502 ''inference endpoint unavailable'', releaseInferenceSlot slots', h @ [EvHTTP upstream])
                        | Resp resp \<Rightarrow> (chat_reply W rd resp, releaseInferenceSlot slots', h @ [EvHTTP upstream])))))"

section \<open>The handler\<close>

definition plain_reply :: "string \<Rightarrow> reply" where
  "plain_reply body = \<lparr>re_Status = 200, re_Header = [''Content-Type'' \<mapsto> ''application/json''], re_Body = body\<rparr>"

definition ready_body :: string where
  "ready_body = unquoted (''{~status~:~ready~,~model~:~'' @ LogicalModelID @ ''~}'')"

definition models_body :: string where
  "models_body = encode_line (VObj [(''data'', VArr [VObj [(''id'', VStr LogicalModelID), (''object'', VStr ''model''), (''owned_by'', VStr ''provider-runpod'')]]),
     (''object'', VStr ''list'')])"

definition errorState :: "router \<Rightarrow> string" where
  "errorState r = rr_stateError r"

definition serve_routed :: "env \<Rightarrow> client_writer \<Rightarrow> (http_response \<Rightarrow> reads) \<Rightarrow> client_request \<Rightarrow> route \<Rightarrow> nat \<Rightarrow> trace \<Rightarrow> reply \<times> nat \<times> trace" where
  "serve_routed E W rd req active slots h =
     (if cq_Method req = MethodGet \<and> (cq_Path req = ''/readyz'' \<or> cq_Path req = ''/v1/models'')
      then (plain_reply (if cq_Path req = ''/readyz'' then ready_body else models_body), slots, h)
      else if cq_Method req \<noteq> MethodPost \<or> cq_Path req \<noteq> ''/v1/chat/completions''
      then (writeError 404 ''unsupported OpenAI operation'', slots, h)
      else proxyChat E W rd req active slots h)"

definition ServeHTTP :: "env \<Rightarrow> xp \<Rightarrow> (endpoint_check list \<Rightarrow> string + string) \<Rightarrow> string \<Rightarrow> client_writer \<Rightarrow> (http_response \<Rightarrow> reads) \<Rightarrow>
    client_request \<Rightarrow> router \<Rightarrow> nat \<Rightarrow> trace \<Rightarrow> reply \<times> router \<times> nat \<times> trace" where
  "ServeHTTP E x marshal namespace W rd req r slots h =
     (if cq_RawQuery req \<noteq> [] \<or> Header_Get (cq_Header req) ''Authorization'' \<noteq> [] \<or> Header_Get (cq_Header req) ''X-Api-Key'' \<noteq> []
      then (writeError 400 ''client credentials and query parameters are not accepted'', r, slots, h)
      else if cq_Method req = MethodGet \<and> cq_Path req = ''/healthz''
      then (plain_reply (unquoted ''{~status~:~ok~}''), r, slots, h)
      else case Refresh E x marshal namespace r h of
        ((Some _, r1), h1) \<Rightarrow> (writeError 503 (errorState r1), r1, slots, h1)
      | ((None, r1), h1) \<Rightarrow>
          (case acquire r1 of
             (r2, None) \<Rightarrow> (writeError 503 (errorState r2), r2, slots, h1)
           | (r2, Some active) \<Rightarrow>
               (case serve_routed E W rd req (le_route (rr_store r2 ! active)) slots h1 of
                  (rep, slots', h2) \<Rightarrow> (rep, release active r2, slots', h2))))"

section \<open>Construction and the background loop\<close>

text \<open>The checks of \<open>New\<close> on its arguments; the fields of the router it builds are \<open>initial_router\<close> and the empty slot.\<close>

definition router_New :: "bool \<Rightarrow> string \<Rightarrow> (router \<times> nat) result" where
  "router_New hasKube namespace =
     (if \<not> hasKube \<or> namespace = [] then Inl (Err ''Kubernetes client and namespace are required'') else Inr (initial_router, 0))"

definition run_interval :: "duration \<Rightarrow> duration" where
  "run_interval interval = (if sint interval \<le> 0 then 2 * Second else interval)"

text \<open>
  \<open>Run\<close>: a refresh at once and after each of the ticks that come before the context ends; then the
  route is withdrawn.
\<close>

primrec Run :: "nat \<Rightarrow> env \<Rightarrow> xp \<Rightarrow> (endpoint_check list \<Rightarrow> string + string) \<Rightarrow> string \<Rightarrow> router \<Rightarrow> trace \<Rightarrow> router \<times> trace" where
  "Run 0 E x marshal namespace r h =
     (case Refresh E x marshal namespace r h of ((_, r1), h1) \<Rightarrow> router_withdraw ''router stopped'' r1 h1)"
| "Run (Suc ticks) E x marshal namespace r h =
     (case Refresh E x marshal namespace r h of ((_, r1), h1) \<Rightarrow> Run ticks E x marshal namespace r1 h1)"

text \<open>The copy of the active route that the tests inspect.\<close>

definition snapshot :: "router \<Rightarrow> route ptr" where
  "snapshot r = map_option (\<lambda>i. le_route (rr_store r ! i)) (rr_active r)"

lemma Run_withdraws: "snapshot (fst (Run ticks E x marshal namespace r h)) = None"
proof (induction ticks arbitrary: r h)
  case 0
  have "rr_active (fst (router_withdraw ''router stopped'' r1 h1)) = None" for r1 h1
    by (auto simp: router_change_defs Let_def replace_def replace_swap_def cancel_def clear_token_def update_lease_def split: option.splits)
  then show ?case by (simp add: snapshot_def split: prod.splits)
qed (simp split: prod.splits)

end
