(* ===== verification/SchemaBounds.thy ===== *)
theory SchemaBounds
  imports RouterRequest
begin

text \<open>
  What the tool schemas are that the router forwards: the specification \<open>bounded_schema\<close> of the
  grammar the workers may be given, independent of the validator, and the number of its nodes. The
  validator's result meets it, and the nodes it counted are exactly those of the result.
\<close>

section \<open>The specification\<close>

definition worker_keywords :: "string list" where
  "worker_keywords = [''type'', ''description'', ''properties'', ''required'', ''items'', ''enum'', ''minimum'', ''maximum'', ''exclusiveMinimum'']"

inductive bounded_schema :: "int \<Rightarrow> any \<Rightarrow> bool" where
  node: "depth \<le> maxSchemaDepth \<Longrightarrow> onlyKeys schema worker_keywords \<Longrightarrow>
    map_of schema ''type'' = Some (VStr typeName) \<Longrightarrow> typeName \<in> set schema_types \<Longrightarrow> (depth = 0 \<Longrightarrow> typeName = ''object'') \<Longrightarrow>
    (\<And>raw. map_of schema ''properties'' = Some raw \<Longrightarrow>
       \<exists>ps. raw = VObj ps \<and> len ps \<le> maxSchemaProperties \<and>
         (\<forall>(name, child) \<in> set ps. name \<noteq> [] \<and> len name \<le> 128 \<and> bounded_schema (depth + 1) child)) \<Longrightarrow>
    (\<And>item. map_of schema ''items'' = Some item \<Longrightarrow> bounded_schema (depth + 1) item) \<Longrightarrow>
    bounded_schema depth (VObj schema)"

lemma size_member: "map_of m k = Some v \<Longrightarrow> size v < Suc (size_list (size_prod (\<lambda>_. 0) size) m)"
  by (induction m) (auto split: if_splits)

lemma size_elem: "(k, v) \<in> set m \<Longrightarrow> size v < Suc (size_list (size_prod (\<lambda>_. 0) size) m)"
  by (induction m) auto

function schema_nodes :: "any \<Rightarrow> int" where
  "schema_nodes v =
     (case v of
        VObj schema \<Rightarrow>
          1 + (case map_of schema ''properties'' of Some (VObj ps) \<Rightarrow> sum_list (map (\<lambda>(name, child). schema_nodes child) ps) | _ \<Rightarrow> 0)
            + (case map_of schema ''items'' of Some item \<Rightarrow> schema_nodes item | None \<Rightarrow> 0)
      | _ \<Rightarrow> 1)"
  by pat_completeness auto
termination
proof (relation "measure size", goal_cases)
  case (2 v schema raw ps p name child)
  then show ?case using size_member [of schema "''properties''" "VObj ps"] size_elem [of name child ps] by auto
next
  case (3 v schema item)
  then show ?case using size_member [of schema "''items''" item] by auto
qed simp

declare schema_nodes.simps [simp del]

section \<open>Changes to maps\<close>

lemma onlyKeys_iff: "onlyKeys m ks \<longleftrightarrow> fst ` set m \<subseteq> set ks"
  by (auto simp: onlyKeys_def list_all_iff)

lemma onlyKeys_put: "onlyKeys (put k v m) ks \<longleftrightarrow> k \<in> set ks \<and> onlyKeys m ks"
  by (simp add: onlyKeys_iff set_put)

lemma index_put [simp]: "index (put k v m) k' = (if k' = k then v else index m k')"
  by (simp add: index_def map_of_put)

lemma index_Some: "index m k = v \<Longrightarrow> v \<noteq> VNil \<Longrightarrow> map_of m k = Some v"
  by (simp add: index_def split: option.splits)

lemma map_of_values: "map_of (map (\<lambda>(k, v). (k, f k v)) m) k = map_option (f k) (map_of m k)"
  by (induction m) auto

section \<open>The parts of a node\<close>

lemma schema_head_Inr:
  assumes "schema_head schema depth = Inr (typeName, schema2)"
  shows "onlyKeys schema2 worker_keywords" "map_of schema2 ''type'' = Some (VStr typeName)" "typeName \<in> set schema_types"
    "depth = 0 \<Longrightarrow> typeName = ''object''"
proof -
  from assms obtain schema1 where keys: "onlyKeys schema (schema_keywords depth)" and dialect: "schema_dialect schema depth = Inr schema1"
    and ty: "schema_type schema1 depth = Inr typeName" and ann: "schema_annotations typeName schema1 = Inr schema2"
    by (auto simp: schema_head_def returns_iff)
  from ty show "typeName \<in> set schema_types" "depth = 0 \<Longrightarrow> typeName = ''object''"
    by (auto simp: schema_type_def returns_iff split: any.splits)
  from ty have t1: "map_of schema1 ''type'' = Some (VStr typeName)"
    by (auto simp: schema_type_def returns_iff split: any.splits dest: index_Some)
  with ann show "map_of schema2 ''type'' = Some (VStr typeName)"
    by (auto simp: schema_annotations_def returns_iff map_of_del split: option.splits)
  from keys dialect have "fst ` set schema1 \<subseteq> set (''default'' # worker_keywords)"
    by (auto simp: schema_dialect_def returns_iff del_def onlyKeys_iff schema_keywords_def worker_keywords_def subset_iff map_of_eq_None_iff
        split: option.splits if_splits) force+
  with ann show "onlyKeys schema2 worker_keywords"
    by (auto simp: schema_annotations_def returns_iff del_def onlyKeys_iff worker_keywords_def subset_iff map_of_eq_None_iff
        split: option.splits if_splits) force+
qed

lemma schema_properties_Inr:
  assumes "schema_properties typeName schema = Inr ps"
  shows "len ps \<le> maxSchemaProperties" "map_of schema ''properties'' = Some raw \<Longrightarrow> raw = VObj ps" "map_of schema ''properties'' = None \<Longrightarrow> ps = []"
  using assms by (auto simp: schema_properties_def returns_iff len_def maxSchemaProperties_def split: option.splits any.splits)

lemma schema_items_Inr: "schema_items typeName schema = Inr items \<Longrightarrow> items = map_of schema ''items''"
  by (auto simp: schema_items_def returns_iff split: option.splits)

text \<open>The node that the validator returns, in terms of its validated children.\<close>

definition schema_result :: "members \<Rightarrow> members \<Rightarrow> any option \<Rightarrow> any" where
  "schema_result schema1 properties' items' =
     VObj (map (\<lambda>(k, v). (k, if k = ''properties'' then VObj properties' else if k = ''items'' then (case items' of Some i \<Rightarrow> i | None \<Rightarrow> v) else v)) schema1)"

lemma schema_result_nodes:
  assumes "map_of schema1 ''properties'' = None \<Longrightarrow> properties' = []" "items' = None \<longleftrightarrow> map_of schema1 ''items'' = None"
  shows "schema_nodes (schema_result schema1 properties' items') =
    1 + sum_list (map (\<lambda>(name, child). schema_nodes child) properties') + (case items' of Some i \<Rightarrow> schema_nodes i | None \<Rightarrow> 0)"
  using assms unfolding schema_result_def
  by (subst schema_nodes.simps) (auto simp: map_of_values split: option.splits)

lemma schema_result_bounded:
  assumes head: "schema_head schema depth = Inr (typeName, schema1)" and "depth \<le> maxSchemaDepth" "len properties' \<le> maxSchemaProperties"
    and "\<forall>(name, child) \<in> set properties'. name \<noteq> [] \<and> len name \<le> 128 \<and> bounded_schema (depth + 1) child"
    and "\<And>i. items' = Some i \<Longrightarrow> bounded_schema (depth + 1) i" "items' = None \<longleftrightarrow> map_of schema1 ''items'' = None"
  shows "bounded_schema depth (schema_result schema1 properties' items')"
  unfolding schema_result_def
proof (rule bounded_schema.node [where typeName = typeName])
  show "onlyKeys (map (\<lambda>(k, v). (k, if k = ''properties'' then VObj properties' else if k = ''items'' then (case items' of Some i \<Rightarrow> i | None \<Rightarrow> v) else v)) schema1) worker_keywords"
    using schema_head_Inr(1) [OF head] by (auto simp: onlyKeys_iff image_iff)
qed (use schema_head_Inr [OF head] assms in \<open>auto simp: map_of_values split: option.splits\<close>)

text \<open>What a validated node is made of.\<close>

lemma validateJSONSchema_Inr:
  assumes "validateJSONSchema value depth budget = Inr (value', budget')"
  obtains schema typeName schema1 properties properties' budget1 items' where
    "value = VObj schema" "depth \<le> maxSchemaDepth" "0 < budget" "schema_head schema depth = Inr (typeName, schema1)"
    "schema_properties typeName schema1 = Inr properties" "validateProperties properties (depth + 1) (budget - 1) = Inr (properties', budget1)"
    "value' = schema_result schema1 properties' items'"
    "case map_of schema1 ''items'' of
       None \<Rightarrow> items' = None \<and> budget' = budget1
     | Some raw \<Rightarrow> \<exists>i. items' = Some i \<and> validateJSONSchema raw (depth + 1) budget1 = Inr (i, budget')"
proof -
  from assms obtain schema where schema: "value = VObj schema" "depth \<le> maxSchemaDepth" "0 < budget"
    by (subst (asm) validateJSONSchema.simps) (auto split: if_splits any.splits)
  from assms obtain typeName schema1 properties properties' budget1 items items' where
    parts: "schema_head schema depth = Inr (typeName, schema1)" "schema_properties typeName schema1 = Inr properties"
    "validateProperties properties (depth + 1) (budget - 1) = Inr (properties', budget1)" "schema_items typeName schema1 = Inr items"
    and kid: "(case items of
       None \<Rightarrow> Inr (None, budget1)
     | Some raw \<Rightarrow> andThen (validateJSONSchema raw (depth + 1) budget1) (\<lambda>(items', budget2). Inr (Some items', budget2))) = Inr (items', budget')"
    and result: "value' = schema_result schema1 properties' items'"
    using schema by (subst (asm) validateJSONSchema.simps) (auto simp: returns_iff schema_result_def)
  have "case map_of schema1 ''items'' of
       None \<Rightarrow> items' = None \<and> budget' = budget1
     | Some raw \<Rightarrow> \<exists>i. items' = Some i \<and> validateJSONSchema raw (depth + 1) budget1 = Inr (i, budget')"
    using kid schema_items_Inr [OF parts(4)] by (auto simp: returns_iff split: option.splits)
  with schema parts(1-3) result show thesis by (rule that)
qed

definition schema_sound :: "int \<Rightarrow> any \<Rightarrow> int \<Rightarrow> int \<Rightarrow> bool" where
  "schema_sound depth value' budget budget' \<longleftrightarrow>
     bounded_schema depth value' \<and> schema_nodes value' = budget - budget' \<and> 0 \<le> budget'"

lemma validateProperties_sound:
  assumes node: "\<And>child budget child' budget'. validateJSONSchema child depth budget = Inr (child', budget') \<Longrightarrow> schema_sound depth child' budget budget'"
  shows "validateProperties ps depth budget = Inr (ps', budget') \<Longrightarrow> 0 \<le> budget \<Longrightarrow>
     (\<forall>(name, child) \<in> set ps'. name \<noteq> [] \<and> len name \<le> 128 \<and> bounded_schema depth child)
     \<and> length ps' = length ps \<and> sum_list (map (\<lambda>(name, child). schema_nodes child) ps') = budget - budget' \<and> 0 \<le> budget'"
proof (induction ps arbitrary: budget ps')
  case (Cons p ps)
  obtain name child where p: "p = (name, child)" by (cases p)
  from Cons.prems p obtain child' budget1 ps1 where name: "name \<noteq> []" "len name \<le> 128"
    and child: "validateJSONSchema child depth budget = Inr (child', budget1)"
    and rest: "validateProperties ps depth budget1 = Inr (ps1, budget')" and ps': "ps' = (name, child') # ps1"
    by (auto simp: returns_iff)
  from node [OF child] have c: "bounded_schema depth child'" "schema_nodes child' = budget - budget1" "0 \<le> budget1"
    by (auto simp: schema_sound_def)
  from Cons.IH [OF rest c(3)] c name ps' show ?case by auto
qed auto

lemma validateJSONSchema_sound:
  "validateJSONSchema value depth budget = Inr (value', budget') \<Longrightarrow> schema_sound depth value' budget budget'"
proof (induction "nat (4 - depth)" arbitrary: "value" depth budget value' budget' rule: less_induct)
  case less
  from less.prems obtain schema typeName schema1 properties properties' budget1 items' where
    v: "value = VObj schema" "depth \<le> maxSchemaDepth" "0 < budget" and head: "schema_head schema depth = Inr (typeName, schema1)"
    and props: "schema_properties typeName schema1 = Inr properties" "validateProperties properties (depth + 1) (budget - 1) = Inr (properties', budget1)"
    and v': "value' = schema_result schema1 properties' items'"
    and items: "case map_of schema1 ''items'' of
       None \<Rightarrow> items' = None \<and> budget' = budget1
     | Some raw \<Rightarrow> \<exists>i. items' = Some i \<and> validateJSONSchema raw (depth + 1) budget1 = Inr (i, budget')"
    by (rule validateJSONSchema_Inr)
  have IH: "schema_sound (depth + 1) c' b b'" if "validateJSONSchema c (depth + 1) b = Inr (c', b')" for c c' b b'
    using less.hyps [of "depth + 1" c b c' b'] that v(2) by (simp add: maxSchemaDepth_def)
  have ps: "\<forall>(name, child) \<in> set properties'. name \<noteq> [] \<and> len name \<le> 128 \<and> bounded_schema (depth + 1) child"
      "length properties' = length properties" "sum_list (map (\<lambda>(name, child). schema_nodes child) properties') = budget - 1 - budget1"
      "0 \<le> budget1"
    using validateProperties_sound [OF IH props(2)] v(3) by auto
  have none: "items' = None \<longleftrightarrow> map_of schema1 ''items'' = None" using items by (auto split: option.splits)
  have item: "bounded_schema (depth + 1) i \<and> schema_nodes i = budget1 - budget' \<and> 0 \<le> budget'" if "items' = Some i" for i
    using items that IH by (auto simp: schema_sound_def split: option.splits)
  have empty: "map_of schema1 ''properties'' = None \<Longrightarrow> properties' = []"
    using schema_properties_Inr(3) [OF props(1)] ps(2) by auto
  have "bounded_schema depth value'"
    unfolding v' using schema_properties_Inr(1) [OF props(1)] ps(1,2) item none
    by (intro schema_result_bounded [OF head v(2)]) (auto simp: len_def)
  moreover have "schema_nodes value' = 1 + sum_list (map (\<lambda>(name, child). schema_nodes child) properties')
      + (case items' of Some i \<Rightarrow> schema_nodes i | None \<Rightarrow> 0)"
    unfolding v' using empty none by (rule schema_result_nodes)
  then have "schema_nodes value' = budget - budget' \<and> 0 \<le> budget'"
    using ps(3,4) item items none by (auto split: option.splits)
  ultimately show ?case by (simp add: schema_sound_def)
qed

section \<open>Tools\<close>

definition tool_function :: "any \<Rightarrow> members" where
  "tool_function t = (case t of VObj tool \<Rightarrow> (case index tool ''function'' of VObj f \<Rightarrow> f | _ \<Rightarrow> []) | _ \<Rightarrow> [])"

definition tool_name :: "any \<Rightarrow> string" where
  "tool_name t = (case index (tool_function t) ''name'' of VStr n \<Rightarrow> n | _ \<Rightarrow> [])"

definition tool_nodes :: "any \<Rightarrow> int" where
  "tool_nodes t = schema_nodes (index (tool_function t) ''parameters'')"

definition bounded_tool :: "any \<Rightarrow> bool" where
  "bounded_tool t \<longleftrightarrow>
     (\<exists>tool. t = VObj tool \<and> onlyKeys tool [''type'', ''function''] \<and> index tool ''type'' = VStr ''function'')
   \<and> onlyKeys (tool_function t) [''name'', ''description'', ''parameters''] \<and> safe_name (tool_name t)
   \<and> (\<exists>d. index (tool_function t) ''description'' = VStr d \<and> len d \<le> maxToolDescription)
   \<and> bounded_schema 0 (index (tool_function t) ''parameters'')"

lemma validateFunction_Inr:
  assumes "validateFunction value names budget = Inr (name, value', budget')"
  obtains f d where "value' = VObj f" "onlyKeys f [''name'', ''description'', ''parameters'']" "index f ''name'' = VStr name" "safe_name name"
    "name \<notin> set names" "index f ''description'' = VStr d" "len d \<le> maxToolDescription"
    "schema_sound 0 (index f ''parameters'') budget budget'"
proof -
  from assms obtain g parameters parameters' where g: "value = VObj g" "onlyKeys g [''name'', ''description'', ''parameters'']"
      "index g ''name'' = VStr name" "safe_name name" "name \<notin> set names"
    and d: "case index g ''description'' of VStr s \<Rightarrow> len s \<le> maxToolDescription | _ \<Rightarrow> False"
    and p: "validateJSONSchema parameters 0 budget = Inr (parameters', budget')" "value' = VObj (put ''parameters'' parameters' g)"
    by (auto simp: validateFunction_def returns_iff split: any.splits option.splits)
  from d obtain s where "index g ''description'' = VStr s" "len s \<le> maxToolDescription" by (auto split: any.splits)
  with g p validateJSONSchema_sound [OF p(1)] show thesis
    by (intro that [of "put ''parameters'' parameters' g" s]) (auto simp: onlyKeys_put)
qed

lemma validateTools_loop_sound:
  "validateTools_loop tools names budget = Inr (names', tools') \<Longrightarrow> 0 \<le> budget \<Longrightarrow> distinct names \<Longrightarrow>
     length tools' = length tools \<and> list_all bounded_tool tools' \<and> sum_list (map tool_nodes tools') \<le> budget
   \<and> distinct names' \<and> set names' = tool_name ` set tools' \<union> set names
   \<and> distinct (map tool_name tools') \<and> tool_name ` set tools' \<inter> set names = {}"
proof (induction tools names budget arbitrary: names' tools' rule: validateTools_loop.induct)
  case (2 tool tools names budget)
  from 2(2) obtain name f budget1 tools1 where tool: "onlyKeys tool [''type'', ''function'']" "index tool ''type'' = VStr ''function''"
    and f: "validateFunction (index tool ''function'') names budget = Inr (name, f, budget1)"
    and rest: "validateTools_loop tools (name # names) budget1 = Inr (names', tools1)" and tools': "tools' = VObj (put ''function'' f tool) # tools1"
    by (auto simp: returns_iff)
  from f obtain g d where g: "f = VObj g" "onlyKeys g [''name'', ''description'', ''parameters'']" "index g ''name'' = VStr name" "safe_name name"
      "name \<notin> set names" "index g ''description'' = VStr d" "len d \<le> maxToolDescription"
    and s: "schema_sound 0 (index g ''parameters'') budget budget1" by (rule validateFunction_Inr)
  let ?t = "VObj (put ''function'' f tool)"
  have tf: "tool_function (VObj (put ''function'' (VObj g) tool)) = g" by (simp add: tool_function_def)
  have t: "bounded_tool ?t" "tool_nodes ?t = budget - budget1" "tool_name ?t = name" "0 \<le> budget1"
    using tool g s by (auto simp: bounded_tool_def tf tool_nodes_def tool_name_def onlyKeys_put schema_sound_def)
  have IH: "length tools1 = length tools \<and> list_all bounded_tool tools1 \<and> sum_list (map tool_nodes tools1) \<le> budget1
      \<and> distinct names' \<and> set names' = tool_name ` set tools1 \<union> set (name # names)
      \<and> distinct (map tool_name tools1) \<and> tool_name ` set tools1 \<inter> set (name # names) = {}"
    using 2(1) [of "(name, f, budget1)" name "(f, budget1)" f budget1 names' tools1] tool f rest t(4) g(5) 2(4) by auto
  from IH t tools' g(5) show ?case by auto
qed (auto simp: returns_iff)

text \<open>
  The tools the router forwards are bounded as a whole: at most 32 function tools with distinct
  safe names, whose parameter schemas are bounded (four levels, at most 64 properties per node, the
  pinned keywords only, without dialect and defaults) and have at most 128 nodes together.
\<close>

lemma validateTools_Some:
  assumes "validateTools (Some v) = Inr (names, v')"
  shows "\<exists>tools. v' = Some (VArr tools) \<and> 1 \<le> len tools \<and> len tools \<le> maxTools \<and> list_all bounded_tool tools
    \<and> sum_list (map tool_nodes tools) \<le> maxSchemaNodes \<and> distinct names \<and> set names = tool_name ` set tools \<and> distinct (map tool_name tools)"
proof -
  from assms obtain raw tools' where raw: "v = VArr raw" "len raw \<noteq> 0" "len raw \<le> maxTools"
    and loop: "validateTools_loop raw [] maxSchemaNodes = Inr (names, tools')" and v': "v' = Some (VArr tools')"
    by (auto simp: validateTools_def returns_iff split: any.splits)
  from validateTools_loop_sound [OF loop] raw v' show ?thesis by (auto simp: limits len_def Suc_le_eq)
qed

definition demo_tools :: any where
  "demo_tools = VArr [VObj [(''function'', VObj [(''description'', VStr ''find''), (''name'', VStr ''lookup''),
     (''parameters'', VObj [(''$schema'', VStr openCodeSchemaURI), (''properties'', VObj [(''q'', VObj [(''default'', VStr ''x''), (''type'', VStr ''string'')])]),
       (''required'', VArr [VStr ''q'']), (''type'', VStr ''object'')])]), (''type'', VStr ''function'')]]"

end
