(* ===== verification/JsonRoundtrip.thy ===== *)
theory JsonRoundtrip
  imports GoJson
begin

text \<open>
  What \<open>json.Marshal\<close> prints, \<open>json.Unmarshal\<close> parses_as back: for values whose strings are well-formed
  UTF-8 and whose numbers are JSON literals. Every value that the parser returns is of this kind,
  because the decoder of string literals only produces well-formed UTF-8.
\<close>

section \<open>Well-formed UTF-8\<close>

inductive utf8_ok :: "string \<Rightarrow> bool" where
  nil: "utf8_ok []"
| rune: "utf8_len s = k \<Longrightarrow> 0 < k \<Longrightarrow> utf8_ok (drop k s) \<Longrightarrow> utf8_ok s"

lemma utf8_len_bounds: "utf8_len s \<le> length s" "utf8_len s \<le> 4"
  by (cases s rule: utf8_len.cases; auto split: list.splits if_splits)+

lemma utf8_len_take: "utf8_len s = k \<Longrightarrow> 0 < k \<Longrightarrow> utf8_len (take k s @ rest) = k"
  by (cases s rule: utf8_len.cases) (auto split: list.splits if_splits)

lemma utf8_len_ascii [simp]: "byte c < 128 \<Longrightarrow> utf8_len (c # cs) = 1"
  by simp

lemma utf8_ok_single: "utf8_len r = length r \<Longrightarrow> r \<noteq> [] \<Longrightarrow> utf8_ok r"
  by (rule utf8_ok.rune) (auto intro: utf8_ok.nil)

lemma utf8_ok_append: "utf8_ok a \<Longrightarrow> utf8_ok b \<Longrightarrow> utf8_ok (a @ b)"
proof (induction rule: utf8_ok.induct)
  case (rune s k)
  have "k \<le> length s" using utf8_len_bounds(1) [of s] rune(1) by simp
  have split: "s @ b = take k s @ (drop k s @ b)" by simp
  have "utf8_len (s @ b) = k" unfolding split by (rule utf8_len_take [OF rune(1,2)])
  moreover have "utf8_ok (drop k (s @ b))" using rune \<open>k \<le> length s\<close> by simp
  ultimately show ?case using rune(2) by (metis utf8_ok.rune)
qed simp

lemma byte_char_of [simp]: "n < 256 \<Longrightarrow> byte (char_of n) = n"
  by (simp add: byte_def)

lemma utf8_len_multi:
  "194 \<le> byte a \<Longrightarrow> byte a < 224 \<Longrightarrow> cont_byte b \<Longrightarrow> utf8_len [a, b] = 2"
  "224 \<le> byte a \<Longrightarrow> byte a < 240 \<Longrightarrow> cont_byte b \<Longrightarrow> cont_byte c \<Longrightarrow> (byte a = 224 \<Longrightarrow> 160 \<le> byte b) \<Longrightarrow>
     (byte a = 237 \<Longrightarrow> byte b < 160) \<Longrightarrow> utf8_len [a, b, c] = 3"
  "240 \<le> byte a \<Longrightarrow> byte a < 245 \<Longrightarrow> cont_byte b \<Longrightarrow> cont_byte c \<Longrightarrow> cont_byte d \<Longrightarrow> (byte a = 240 \<Longrightarrow> 144 \<le> byte b) \<Longrightarrow>
     (byte a = 244 \<Longrightarrow> byte b < 144) \<Longrightarrow> utf8_len [a, b, c, d] = 4"
  by auto

lemma cont_byte_char_of: "(n :: nat) < 64 \<Longrightarrow> cont_byte (char_of (128 + n))"
  by (simp add: cont_byte_def)

lemma utf8_encode_len:
  assumes "r < 1114112" "r < 55296 \<or> 57344 \<le> r"
  shows "utf8_len (utf8_encode r) = length (utf8_encode r)"
proof -
  have low: "cont_byte (char_of (128 + r mod 64))" "cont_byte (char_of (128 + r div 64 mod 64))" "cont_byte (char_of (128 + r div 4096 mod 64))"
    by (rule cont_byte_char_of; simp)+
  consider "r < 128" | "128 \<le> r" "r < 2048" | "2048 \<le> r" "r < 65536" | "65536 \<le> r" by linarith
  then show ?thesis
  proof cases
    case 1
    then show ?thesis by (simp add: utf8_encode_def)
  next
    case 2
    then have b: "byte (char_of (192 + r div 64)) = 192 + r div 64" "2 \<le> r div 64" "r div 64 < 32" by auto
    have "utf8_len [char_of (192 + r div 64), char_of (128 + r mod 64)] = 2"
      by (rule utf8_len_multi(1)) (use b low in auto)
    with 2 show ?thesis by (simp add: utf8_encode_def del: utf8_len.simps)
  next
    case 3
    then have b: "byte (char_of (224 + r div 4096)) = 224 + r div 4096" "r div 4096 < 16"
      "byte (char_of (128 + r div 64 mod 64)) = 128 + r div 64 mod 64" by auto
    moreover have q: "r div 4096 * 64 + r div 64 mod 64 = r div 64" "r div 64 * 64 + r mod 64 = r"
      using div_mult2_eq [of r 64 64] by simp_all
    moreover have "r div 4096 = 0 \<Longrightarrow> 32 \<le> r div 64 mod 64" using 3 q by linarith
    moreover have "r div 4096 = 13 \<Longrightarrow> r div 64 mod 64 < 32" using 3 assms(2) q by linarith
    ultimately have "utf8_len [char_of (224 + r div 4096), char_of (128 + r div 64 mod 64), char_of (128 + r mod 64)] = 3"
      by (intro utf8_len_multi(2) low) auto
    with 3 show ?thesis by (simp add: utf8_encode_def del: utf8_len.simps)
  next
    case 4
    then have b: "byte (char_of (240 + r div 262144)) = 240 + r div 262144" "r div 262144 < 5"
      "byte (char_of (128 + r div 4096 mod 64)) = 128 + r div 4096 mod 64" using assms(1) by auto
    moreover have q: "r div 262144 * 64 + r div 4096 mod 64 = r div 4096" "r div 4096 * 4096 + r mod 4096 = r"
      using div_mult2_eq [of r 4096 64] by simp_all
    moreover have "r mod 4096 < 4096" by simp
    moreover have "r div 262144 = 0 \<Longrightarrow> 16 \<le> r div 4096 mod 64" using 4 q calculation by linarith
    moreover have "r div 262144 = 4 \<Longrightarrow> r div 4096 mod 64 < 16" using assms(1) q by linarith
    ultimately have "utf8_len [char_of (240 + r div 262144), char_of (128 + r div 4096 mod 64), char_of (128 + r div 64 mod 64), char_of (128 + r mod 64)] = 4"
      by (intro utf8_len_multi(3) low) auto
    with 4 show ?thesis by (simp add: utf8_encode_def del: utf8_len.simps)
  qed
qed

lemma utf8_encode_ok: "r < 1114112 \<Longrightarrow> r < 55296 \<or> 57344 \<le> r \<Longrightarrow> utf8_ok (utf8_encode r)"
  by (rule utf8_ok_single) (simp add: utf8_encode_len, simp add: utf8_encode_def)

lemma hex_val_less: "hex_val c = Some n \<Longrightarrow> n < 16"
  by (auto simp: hex_val_def is_digit_def byte_def less_eq_char_def split: if_splits)

lemma hex4_less: "hex4 a b c d = Some n \<Longrightarrow> n < 65536"
  by (auto simp: hex4_def split: option.splits dest!: hex_val_less)

lemma utf8_ok_ascii: "byte c < 128 \<Longrightarrow> utf8_ok s \<Longrightarrow> utf8_ok (c # s)"
  by (rule utf8_ok.rune [of _ 1]) auto

lemma replacement_ok: "utf8_ok replacement"
  by (rule utf8_ok_single) (simp_all add: replacement_def cont_byte_def byte_def)

section \<open>String literals\<close>

text \<open>The decoder of a literal only produces well-formed UTF-8.\<close>

lemma utf8_ok_take:
  assumes "utf8_len s = Suc k"
  shows "utf8_ok (take (Suc k) s)"
proof (rule utf8_ok_single)
  show "utf8_len (take (Suc k) s) = length (take (Suc k) s)"
    using utf8_len_take [OF assms, of "[]"] utf8_len_bounds(1) [of s] assms by (simp del: utf8_len.simps take_Suc)
  show "take (Suc k) s \<noteq> []" using utf8_len_bounds(1) [of s] assms by (auto simp del: utf8_len.simps)
qed

lemma surrogate_bounds: "r < 56320 \<Longrightarrow> 55296 \<le> r \<Longrightarrow> 56320 \<le> r' \<Longrightarrow> r' < 57344 \<Longrightarrow>
    utf8_ok (utf8_encode (9216 + ((r - 55296) * 1024 + r')))" for r r' :: nat
  by (rule utf8_encode_ok) linarith+

lemma unquote_escape_ok:
  assumes IH: "\<And>t r. unquote_fuel n t = Some r \<Longrightarrow> utf8_ok r" and "unquote_fuel (Suc n) (CHR 0x5C # xs) = Some r"
  shows "utf8_ok r"
proof (cases xs)
  case (Cons e es)
  show ?thesis
  proof (cases "e = CHR ''u''")
    case False
    with assms Cons show ?thesis by (auto split: if_splits intro!: utf8_ok_ascii simp: byte_def)
  next
    case True
    with assms(2) Cons obtain a b c d rest where es: "es = a # b # c # d # rest" by (auto split: list.splits)
    with True assms(2) Cons obtain p where p: "hex4 a b c d = Some p" by (auto split: option.splits)
    note bound = hex4_less [OF p]
    show ?thesis
    proof (cases "p < 55296 \<or> 57344 \<le> p")
      case plain: True
      with True Cons es p assms(2) bound show ?thesis by (auto intro!: utf8_ok_append utf8_encode_ok dest: IH)
    next
      case surr: False
      with True Cons es p assms(2) show ?thesis
        by (auto split: list.splits option.splits if_splits intro!: utf8_ok_append surrogate_bounds replacement_ok dest: IH)
    qed
  qed
qed (use assms in simp)

lemma unquote_fuel_ok: "unquote_fuel n s = Some r \<Longrightarrow> utf8_ok r"
proof (induction n arbitrary: s r)
  case (Suc n)
  show ?case
  proof (cases s)
    case (Cons x xs)
    show ?thesis
    proof (cases "x = CHR 0x5C")
      case True
      with unquote_escape_ok [of n xs r] Suc.IH Suc.prems Cons show ?thesis by blast
    next
      case False
      show ?thesis
      proof (cases "utf8_len s")
        case 0
        with False Suc Cons show ?thesis by (auto split: if_splits intro: utf8_ok_append replacement_ok simp del: utf8_len.simps)
      next
        case k: (Suc k)
        with False Suc Cons utf8_ok_take [OF k] show ?thesis
          by (auto split: if_splits intro: utf8_ok_append simp del: utf8_len.simps take_Suc_Cons drop_Suc_Cons)
      qed
    qed
  qed (use Suc in \<open>auto intro: utf8_ok.nil\<close>)
qed (auto intro: utf8_ok.nil split: if_splits)

lemma unquote_ok: "unquote s = Some r \<Longrightarrow> utf8_ok r"
  by (auto simp: unquote_def dest: unquote_fuel_ok)

text \<open>What the encoder prints for a string is decoded to the string.\<close>

lemma hex_val_hexl: "n < 16 \<Longrightarrow> hex_val (hexl n) = Some n"
proof -
  have "\<forall>n \<in> set [0..<16]. hex_val (hexl n) = Some n" by code_simp
  then show "n < 16 \<Longrightarrow> hex_val (hexl n) = Some n" by simp
qed

lemma unquote_u_escape:
  assumes "n < 128 \<or> n = 8232 \<or> n = 8233"
  shows "unquote_fuel (Suc m) (u_escape n @ t) = map_option (append (utf8_encode n)) (unquote_fuel m t)"
proof -
  have "hex4 (hexl (n div 4096 mod 16)) (hexl (n div 256 mod 16)) (hexl (n div 16 mod 16)) (hexl (n mod 16)) = Some n"
    using assms by (auto simp: hex4_def hex_val_hexl)
  with assms show ?thesis by (auto simp: u_escape_def)
qed

lemma unquote_escape_ascii:
  assumes "byte c < 128"
  shows "unquote_fuel (Suc m) (escape_ascii c @ t) = map_option (Cons c) (unquote_fuel m t)"
proof (cases "escape_ascii c = u_escape (byte c)")
  case True
  have "utf8_encode (byte c) = [c]" using assms by (simp add: utf8_encode_def) (simp add: byte_def)
  with unquote_u_escape [of "byte c" m t] assms True show ?thesis by (cases "unquote_fuel m t") auto
next
  case False
  with assms show ?thesis
    by (auto simp: escape_ascii_def split: if_splits intro!: map_option_cong)
qed

lemma unquote_rune:
  assumes "utf8_len s = k" "0 < k" "128 \<le> byte (hd s)"
  shows "unquote_fuel (Suc m) (take k s @ t) = map_option (append (take k s)) (unquote_fuel m t)"
proof -
  from assms obtain c cs where s: "s = c # cs" by (cases s) auto
  obtain j where k: "k = Suc j" using assms(2) by (cases k) auto
  have "utf8_len (take k s @ t) = k" by (rule utf8_len_take [OF assms(1,2)])
  moreover have "j \<le> length cs" using utf8_len_bounds(1) [of s] assms(1) s k by simp
  moreover have "c \<noteq> CHR 0x5C" "\<not> byte c < 32" using assms(3) s by (auto simp: byte_def)
  ultimately show ?thesis by (simp add: s k del: utf8_len.simps)
qed

lemma line_separators:
  "utf8_encode 8232 = [CHR 0xE2, CHR 0x80, CHR 0xA8]" "utf8_encode 8233 = [CHR 0xE2, CHR 0x80, CHR 0xA9]"
  by (simp_all add: utf8_encode_def char_of_def bit_0)

lemma quote_unquote:
  "utf8_ok s \<Longrightarrow> length s \<le> n \<Longrightarrow> length (quote_fuel n s) \<le> m \<Longrightarrow> unquote_fuel m (quote_fuel n s) = Some s"
proof (induction arbitrary: n m rule: utf8_ok.induct)
  case nil
  then show ?case by (cases n; cases m) auto
next
  case (rune s k)
  then obtain c cs where s: "s = c # cs" by (cases s) auto
  with rune obtain n' where n: "n = Suc n'" by (cases n) auto
  let ?q = "quote_fuel n' (drop k s)"
  have k: "k \<le> length s" using utf8_len_bounds(1) [of s] rune(1) by simp
  have IH: "unquote_fuel m' ?q = Some (drop k s)" if "length ?q \<le> m'" for m'
    using rune.IH [of n' m'] that rune.prems(1) rune.hyps(2) k n by simp
  show ?case
  proof (cases "byte c < 128")
    case True
    then have k1: "k = 1" using s rune(1) by simp
    with True have q: "quote_fuel n s = escape_ascii c @ ?q" using s n by simp
    have "0 < length (escape_ascii c)" by (simp add: escape_ascii_def u_escape_def)
    with rune.prems(2) q obtain m' where m: "m = Suc m'" "length ?q \<le> m'" by (cases m; cases "escape_ascii c") auto
    with IH [of m'] q k1 s unquote_escape_ascii [OF True, of m' ?q] show ?thesis by simp
  next
    case False
    define unit where "unit = (if take k s = [CHR 0xE2, CHR 0x80, CHR 0xA8] then u_escape 8232
      else if take k s = [CHR 0xE2, CHR 0x80, CHR 0xA9] then u_escape 8233 else take k s)"
    have q: "quote_fuel n s = unit @ ?q"
      using s n False rune(1,2) by (cases k) (simp_all add: unit_def Let_def del: utf8_len.simps)
    have "unit \<noteq> []" using k rune(2) by (auto simp: unit_def u_escape_def)
    with rune.prems(2) q obtain m' where m: "m = Suc m'" "length ?q \<le> m'" by (cases m; cases unit) auto
    have "unquote_fuel (Suc m') (unit @ ?q) = map_option (append (take k s)) (unquote_fuel m' ?q)"
      using unquote_rune [OF rune(1,2), of m' ?q] unquote_u_escape [of 8232 m' ?q] unquote_u_escape [of 8233 m' ?q] False s
      by (simp add: unit_def line_separators del: unquote_fuel.simps)
    with IH [OF m(2)] q m(1) show ?thesis by simp
  qed
qed

section \<open>The scanner on printed text\<close>

text \<open>Text that the scanner passes over inside a string literal.\<close>

definition lex_safe :: "string \<Rightarrow> bool" where
  "lex_safe u \<longleftrightarrow> (\<forall>acc rest. lex (LStr acc) (u @ rest) = lex (LStr (rev u @ acc)) rest)"

lemma lex_safe_append: "lex_safe a \<Longrightarrow> lex_safe b \<Longrightarrow> lex_safe (a @ b)"
  by (simp add: lex_safe_def)

lemma lex_safe_char: "c \<noteq> CHR 0x22 \<Longrightarrow> c \<noteq> CHR 0x5C \<Longrightarrow> lex_safe [c]"
  by (simp add: lex_safe_def)

lemma lex_safe_chars: "list_all (\<lambda>c. c \<noteq> CHR 0x22 \<and> c \<noteq> CHR 0x5C) u \<Longrightarrow> lex_safe u"
proof (induction u)
  case (Cons c u)
  then show ?case using lex_safe_append [OF lex_safe_char, of c u] by simp
qed (simp add: lex_safe_def)

lemma lex_safe_escape: "lex_safe u \<Longrightarrow> lex_safe (CHR 0x5C # c # u)"
  by (simp add: lex_safe_def)

lemma hexl_plain: "n < 16 \<Longrightarrow> hexl n \<noteq> CHR 0x22 \<and> hexl n \<noteq> CHR 0x5C"
proof -
  have "\<forall>n \<in> set [0..<16]. hexl n \<noteq> CHR 0x22 \<and> hexl n \<noteq> CHR 0x5C" by code_simp
  then show "n < 16 \<Longrightarrow> hexl n \<noteq> CHR 0x22 \<and> hexl n \<noteq> CHR 0x5C" by simp
qed

lemma lex_safe_u_escape: "lex_safe (u_escape n)"
  unfolding u_escape_def by (intro lex_safe_escape lex_safe_chars) (simp add: hexl_plain)

lemma lex_safe_nil: "lex_safe []"
  by (simp add: lex_safe_def)

lemma lex_safe_escape_ascii: "lex_safe (escape_ascii c)"
  by (auto simp: escape_ascii_def intro!: lex_safe_escape lex_safe_u_escape lex_safe_char lex_safe_nil)

lemma rune_bytes_high:
  assumes "128 \<le> byte a"
  shows "list_all (\<lambda>c. 128 \<le> byte c) (take (utf8_len (a # cs)) (a # cs))"
  using assms by (auto simp: cont_byte_def split: list.splits)

lemma lex_safe_quote: "lex_safe (quote_fuel n s)"
proof (induction n s rule: quote_fuel.induct)
  case (3 n c cs)
  show ?case
  proof (cases "byte c < 128")
    case True
    with 3 show ?thesis by (auto intro: lex_safe_append lex_safe_escape_ascii)
  next
    case False
    then have "list_all (\<lambda>c. c \<noteq> CHR 0x22 \<and> c \<noteq> CHR 0x5C) (take (utf8_len (c # cs)) (c # cs))"
      using rune_bytes_high [of c cs] by (auto simp: list_all_iff byte_def)
    then have rune: "lex_safe (take (utf8_len (c # cs)) (c # cs))" by (rule lex_safe_chars)
    show ?thesis
    proof (cases "utf8_len (c # cs)")
      case 0
      with False 3 show ?thesis by (auto intro: lex_safe_append lex_safe_u_escape simp del: utf8_len.simps)
    next
      case (Suc k)
      have "lex_safe (quote_fuel n (drop (Suc k) (c # cs)))" using 3(3) [OF False Suc] by simp
      with False Suc rune show ?thesis
        by (auto simp: Let_def simp del: utf8_len.simps take_Suc_Cons drop_Suc_Cons intro!: lex_safe_append lex_safe_u_escape)
    qed
  qed
qed (simp_all add: lex_safe_nil)

lemma lex_string:
  assumes "utf8_ok s"
  shows "lex LStart (json_quote s @ rest) = map_option (Cons (TStr s)) (lex LStart rest)"
proof -
  let ?q = "quote_fuel (length s) s"
  have "lex (LStr []) (?q @ [CHR 0x22] @ rest) = lex (LStr (rev ?q)) ([CHR 0x22] @ rest)"
    using lex_safe_quote [of "length s" s] by (simp add: lex_safe_def)
  also have "\<dots> = map_option (Cons (TStr s)) (lex LStart rest)"
    using quote_unquote [OF assms order_refl order_refl] by (simp add: unquote_def)
  finally show ?thesis
    by (cases "lex LStart rest") (simp_all add: json_quote_def lex_start_def is_json_space_def is_digit_def)
qed

text \<open>The numbers of the grammar are runs of the scanner's number characters.\<close>

lemma valid_exp_chars: "valid_exp s \<Longrightarrow> list_all num_char s"
  by (auto simp: valid_exp_def num_char_def list_all_iff split: list.splits if_splits)

lemma digits_then:
  assumes "list_all num_char (dropWhile is_digit s)"
  shows "list_all num_char s"
proof -
  have "list_all num_char (takeWhile is_digit s)" by (auto simp: list_all_iff num_char_def dest: set_takeWhileD)
  with assms have "list_all num_char (takeWhile is_digit s @ dropWhile is_digit s)" by (simp only: list_all_append simp_thms)
  then show ?thesis by simp
qed

lemma valid_frac_chars: "valid_frac s \<Longrightarrow> list_all num_char s"
proof (cases s)
  case (Cons c cs)
  assume v: "valid_frac s"
  show ?thesis
  proof (cases "c = CHR ''.''")
    case True
    with v Cons have "list_all num_char (dropWhile is_digit cs)"
      by (intro valid_exp_chars) (simp add: valid_frac_def)
    then have "list_all num_char cs" by (rule digits_then)
    with Cons True show ?thesis by (simp add: num_char_def)
  next
    case False
    with v Cons show ?thesis by (intro valid_exp_chars) (simp add: valid_frac_def)
  qed
qed simp

lemma valid_num_chars:
  assumes "valid_num s"
  obtains c cs where "s = c # cs" "is_digit c \<or> c = CHR ''-''" "list_all num_char s"
proof -
  have *: "list_all num_char u" if "valid_frac (dropWhile is_digit u)" for u
    by (rule digits_then) (rule valid_frac_chars [OF that])
  from assms have "s \<noteq> []" by (auto simp: valid_num_def)
  then obtain c cs where s: "s = c # cs" by (cases s) auto
  show thesis
  proof (cases "c = CHR ''-''")
    case True
    with assms s have "list_all num_char cs" by (auto simp: valid_num_def Let_def intro: *)
    with that s True show ?thesis by (simp add: num_char_def)
  next
    case False
    with assms s have "valid_frac (dropWhile is_digit (c # cs))" "is_digit c"
      by (auto simp: valid_num_def Let_def split: if_splits)
    with * have "list_all num_char (c # cs)" "is_digit c" by blast+
    with that s show ?thesis by simp
  qed
qed

text \<open>A text that ends a literal: the next character opens no number and no word.\<close>

fun terminated :: "string \<Rightarrow> bool" where
  "terminated [] = True"
| "terminated (c # cs) = (c \<in> set '',:]}'')"

lemma terminated_char:
  "c \<in> set '',:]}'' \<Longrightarrow> \<not> num_char c \<and> \<not> is_lower c \<and> lex_start c = Some ([TDelim c], LStart)"
  by (auto simp: num_char_def is_digit_def is_lower_def lex_start_def is_json_space_def)

lemma lex_num_run:
  assumes "list_all num_char u" "valid_num (rev acc @ u)" "terminated rest"
  shows "lex (LNum acc) (u @ rest) = map_option (Cons (TNum (rev acc @ u))) (lex LStart rest)"
  using assms
proof (induction u arbitrary: acc)
  case Nil
  show ?case
  proof (cases rest)
    case (Cons c cs)
    with Nil terminated_char [of c] show ?thesis by (cases "lex LStart cs") auto
  qed (use Nil in auto)
qed simp

lemma lex_start_num:
  assumes "is_digit c \<or> c = CHR ''-''"
  shows "lex_start c = Some ([], LNum [c])"
proof -
  have "\<forall>d \<in> set ('' {}[],:'' @ [CHR 0x22, CHR 0x09, CHR 0x0A, CHR 0x0D]). \<not> is_digit d \<and> d \<noteq> CHR ''-''" by code_simp
  then have "c \<notin> set ('' {}[],:'' @ [CHR 0x22, CHR 0x09, CHR 0x0A, CHR 0x0D])" using assms by blast
  then show ?thesis using assms by (simp add: lex_start_def is_json_space_def)
qed

lemma lex_num:
  assumes "valid_num s" "terminated rest"
  shows "lex LStart (s @ rest) = map_option (Cons (TNum s)) (lex LStart rest)"
proof -
  from valid_num_chars [OF assms(1)] obtain c cs where s: "s = c # cs" "is_digit c \<or> c = CHR ''-''" "list_all num_char s" .
  then have "lex_start c = Some ([], LNum [c])" by (simp add: lex_start_num)
  moreover have "lex (LNum [c]) (cs @ rest) = map_option (Cons (TNum s)) (lex LStart rest)"
    using lex_num_run [of cs "[c]" rest] s assms by simp
  ultimately show ?thesis using s(1) by (cases "lex LStart rest") simp_all
qed

lemma lex_word_run:
  assumes "list_all is_lower u" "word_token (rev acc @ u) = Some t" "terminated rest"
  shows "lex (LWord acc) (u @ rest) = map_option (Cons t) (lex LStart rest)"
  using assms
proof (induction u arbitrary: acc)
  case Nil
  show ?case
  proof (cases rest)
    case (Cons c cs)
    with Nil terminated_char [of c] show ?thesis by (cases "lex LStart cs") auto
  qed (use Nil in auto)
qed simp

lemma lex_word:
  assumes "word_token w = Some t" "terminated rest"
  shows "lex LStart (w @ rest) = map_option (Cons t) (lex LStart rest)"
proof -
  from assms(1) have w: "w \<in> {''true'', ''false'', ''null''}" by (auto simp: word_token_def split: if_splits)
  moreover have "\<forall>w \<in> set [''true'', ''false'', ''null'']. lex_start (hd w) = Some ([], LWord [hd w]) \<and> list_all is_lower (tl w)"
    by code_simp
  ultimately obtain c cs where s: "w = c # cs" "lex_start c = Some ([], LWord [c])" "list_all is_lower cs"
    by (cases w) auto
  with lex_word_run [of cs "[c]" t rest] assms show ?thesis by (cases "lex LStart rest") simp_all
qed


section \<open>The text of a value\<close>

text \<open>The values that can be printed: the strings are well-formed UTF-8 and the numbers follow the grammar.\<close>

fun printable :: "json \<Rightarrow> bool" where
  "printable (JNum s) = valid_num s"
| "printable (JStr s) = utf8_ok s"
| "printable (JArr vs) = list_all printable vs"
| "printable (JObj kvs) = list_all (\<lambda>(k, v). utf8_ok k \<and> printable v) kvs"
| "printable _ = True"

lemma map_option_append: "map_option (append []) x = x" "map_option (append [t]) x = map_option (Cons t) x"
  by (cases x; simp)+

definition lexes :: "string \<Rightarrow> token list \<Rightarrow> bool" where
  "lexes s ts \<longleftrightarrow> (\<forall>rest. terminated rest \<longrightarrow> lex LStart (s @ rest) = map_option (append ts) (lex LStart rest))"

lemma lexesD: "lexes s ts \<Longrightarrow> terminated rest \<Longrightarrow> lex LStart (s @ rest) = map_option (append ts) (lex LStart rest)"
  by (simp add: lexes_def)

lemma lex_delim: "c \<in> set ''{}[],:'' \<Longrightarrow> lex LStart (c # rest) = map_option (Cons (TDelim c)) (lex LStart rest)"
proof -
  assume "c \<in> set ''{}[],:''"
  then have "lex_start c = Some ([TDelim c], LStart)" by (auto simp: lex_start_def is_json_space_def)
  then show ?thesis by (cases "lex LStart rest") simp_all
qed

lemma lexes_join:
  "list_all2 lexes ss tss \<Longrightarrow> lexes (join ss) (separated tss)"
proof (induction ss tss rule: list_all2_induct)
  case (Cons s ss ts tss)
  show ?case
  proof (cases ss)
    case Nil
    with Cons show ?thesis by (simp add: lexes_def)
  next
    case (Cons s' ss')
    with Cons.hyps obtain ts' tss' where tss: "tss = ts' # tss'" by (cases tss) auto
    show ?thesis unfolding lexes_def
    proof (intro allI impI)
      fix rest :: string
      assume "terminated rest"
      then have "lex LStart (join ss @ rest) = map_option (append (separated tss)) (lex LStart rest)"
        using Cons.IH by (simp add: lexes_def)
      moreover have "lex LStart (s @ CHR '','' # (join ss @ rest)) = map_option (append ts) (lex LStart (CHR '','' # (join ss @ rest)))"
        using Cons.hyps(1) by (intro lexesD) simp_all
      ultimately show "lex LStart (join (s # ss) @ rest) = map_option (append (separated (ts # tss))) (lex LStart rest)"
        using lex_delim [of "CHR '',''" "join ss @ rest"]
        by (cases "lex LStart rest") (simp_all add: Cons tss del: lex.simps)
    qed
  qed
qed (simp add: lexes_def map_option_append)

lemma lexes_enclosed:
  assumes "lexes s ts" "a \<in> set ''{[''" "b \<in> set ''}]''"
  shows "lexes (a # s @ [b]) (TDelim a # ts @ [TDelim b])"
  unfolding lexes_def
proof (intro allI impI)
  fix rest :: string
  have "lex LStart (s @ b # rest) = map_option (append ts) (lex LStart (b # rest))"
    using assms by (intro lexesD) auto
  moreover have "lex LStart (b # rest) = map_option (Cons (TDelim b)) (lex LStart rest)"
    using assms by (intro lex_delim) auto
  moreover have "lex LStart (a # s @ b # rest) = map_option (Cons (TDelim a)) (lex LStart (s @ b # rest))"
    using assms by (intro lex_delim) auto
  ultimately show "lex LStart ((a # s @ [b]) @ rest) = map_option (append (TDelim a # ts @ [TDelim b])) (lex LStart rest)"
    by (cases "lex LStart rest") (simp_all del: lex.simps)
qed

lemma lexes_member:
  assumes "utf8_ok k" "lexes s ts"
  shows "lexes (json_quote k @ CHR '':'' # s) (TStr k # TDelim (CHR '':'') # ts)"
  unfolding lexes_def
proof (intro allI impI)
  fix rest :: string
  assume "terminated rest"
  then show "lex LStart ((json_quote k @ CHR '':'' # s) @ rest)
      = map_option (append (TStr k # TDelim (CHR '':'') # ts)) (lex LStart rest)"
    using lex_string [OF assms(1), of "CHR '':'' # s @ rest"] lex_delim [of "CHR '':''" "s @ rest"]
      lexesD [OF assms(2)] by (cases "lex LStart rest") (simp_all del: lex.simps)
qed

lemma lex_text: "printable j \<Longrightarrow> lexes (json_text j) (tokens j)"
proof (induction j)
  case JNull
  show ?case using lex_word [of "''null''" TNull] by (simp add: lexes_def word_token_def map_option_append del: lex.simps)
next
  case (JBool b)
  show ?case using lex_word [of "''true''" "TBool True"] lex_word [of "''false''" "TBool False"]
    by (simp add: lexes_def word_token_def map_option_append del: lex.simps)
next
  case (JNum s)
  then show ?case by (simp add: lexes_def lex_num map_option_append)
next
  case (JStr s)
  then show ?case by (simp add: lexes_def lex_string map_option_append)
next
  case (JArr vs)
  then have "list_all2 lexes (map json_text vs) (map tokens vs)"
    by (auto simp: list_all_iff list.rel_map intro!: list.rel_refl_strong)
  then show ?case using lexes_enclosed [OF lexes_join, of _ _ "CHR ''[''" "CHR '']''"] by simp
next
  case (JObj kvs)
  then have "list_all2 lexes (map (\<lambda>(k, v). json_quote k @ '':'' @ json_text v) kvs)
      (map (\<lambda>(k, v). TStr k # TDelim (CHR '':'') # tokens v) kvs)"
    by (fastforce simp: list_all_iff list.rel_map intro!: list.rel_refl_strong lexes_member)
  then show ?case using lexes_enclosed [OF lexes_join, of _ _ "CHR ''{''" "CHR ''}''"] by simp
qed


section \<open>The parser on the tokens of a value\<close>

text \<open>Nesting: a value that fits under \<open>d\<close> more levels of arrays and objects.\<close>

fun fits_depth :: "int \<Rightarrow> json \<Rightarrow> bool" where
  "fits_depth d (JArr vs) = (0 < d \<and> list_all (fits_depth (d - 1)) vs)"
| "fits_depth d (JObj kvs) = (0 < d \<and> list_all (\<lambda>(k, v). fits_depth (d - 1) v) kvs)"
| "fits_depth d _ = True"

lemma parse_ValOrEnd: "parse MValOrEnd fs (tokens v @ ts) = parse MVal fs (tokens v @ ts)"
  by (cases v) (simp_all add: parse_step_def)

definition parses_as :: "frame list \<Rightarrow> json \<Rightarrow> bool" where
  "parses_as fs v \<longleftrightarrow> (\<forall>ts. parse MVal fs (tokens v @ ts) = parse (MAfter v) fs ts)"

lemma parse_elements:
  assumes "\<And>w us. w \<in> set (v # vs) \<Longrightarrow> parses_as (FArr us # fs) w"
  shows "parse MVal (FArr us # fs) (separated (map tokens (v # vs)) @ TDelim (CHR '']'') # ts)
    = parse (MAfter (JArr (rev us @ v # vs))) fs ts"
  using assms
proof (induction vs arbitrary: v us)
  case Nil
  then show ?case by (simp add: parses_as_def parse_step_def)
next
  case (Cons w vs)
  have "parse MVal (FArr (v # us) # fs) (separated (map tokens (w # vs)) @ TDelim (CHR '']'') # ts)
    = parse (MAfter (JArr (rev (v # us) @ w # vs))) fs ts"
    by (rule Cons.IH) (use Cons.prems in auto)
  with Cons.prems [of v us] show ?case by (simp add: parses_as_def parse_step_def)
qed

lemma parse_members:
  assumes "\<And>k w us k'. (k, w) \<in> set (m # ms) \<Longrightarrow> parses_as (FObj us k' # fs) w"
  shows "parse (MKey us) fs (separated (map member_tokens (m # ms)) @ TDelim (CHR ''}'') # ts)
    = parse (MAfter (JObj (rev us @ m # ms))) fs ts"
  using assms
proof (induction ms arbitrary: m us)
  case Nil
  then show ?case by (cases m) (simp add: parses_as_def parse_step_def member_tokens_def)
next
  case (Cons n ms)
  obtain k v where m: "m = (k, v)" by (cases m)
  have "parse (MKey (m # us)) fs (separated (map member_tokens (n # ms)) @ TDelim (CHR ''}'') # ts)
    = parse (MAfter (JObj (rev (m # us) @ n # ms))) fs ts"
    by (rule Cons.IH) (use Cons.prems in auto)
  with Cons.prems [of k v us k] show ?case by (simp add: parses_as_def parse_step_def member_tokens_def m)
qed

lemma parse_KeyOrEnd:
  "parse MKeyOrEnd fs (separated (map member_tokens (m # ms)) @ ts) = parse (MKey []) fs (separated (map member_tokens (m # ms)) @ ts)"
  by (cases m; cases ms) (simp_all add: parse_step_def member_tokens_def)

lemma parse_completes: "fits_depth (maxNestingDepth - int (length fs)) v \<Longrightarrow> parses_as fs v"
proof (induction v arbitrary: fs)
  case (JArr vs)
  have el: "parses_as (FArr us # fs) w" if "w \<in> set vs" for w us
    using JArr that by (auto simp: list_all_iff algebra_simps)
  show ?case
  proof (cases vs)
    case Nil
    with JArr show ?thesis by (simp add: parses_as_def parse_step_def open_value_def)
  next
    case (Cons w ws)
    have "parse MValOrEnd (FArr [] # fs) (separated (map tokens vs) @ TDelim (CHR '']'') # ts) = parse (MAfter (JArr vs)) fs ts" for ts
      using parse_elements [of w ws fs "[]" ts] el parse_ValOrEnd [of "FArr [] # fs" w]
      by (cases ws) (simp_all add: Cons)
    with JArr show ?thesis by (simp add: parses_as_def parse_step_def open_value_def)
  qed
next
  case (JObj kvs)
  have el: "parses_as (FObj us k' # fs) w" if "(k, w) \<in> set kvs" for k w us k'
    using JObj.IH [OF that, of w "FObj us k' # fs"] JObj.prems that by (auto simp: list_all_iff algebra_simps)
  show ?case
  proof (cases kvs)
    case Nil
    with JObj show ?thesis by (simp add: parses_as_def parse_step_def open_value_def)
  next
    case (Cons m ms)
    have "parse MKeyOrEnd fs (separated (map member_tokens kvs) @ TDelim (CHR ''}'') # ts) = parse (MAfter (JObj kvs)) fs ts" for ts
      using parse_members [of m ms fs "[]" ts] el parse_KeyOrEnd [of fs m ms] by (simp add: Cons)
    with JObj show ?thesis by (simp add: parses_as_def parse_step_def open_value_def member_tokens_def)
  qed
qed (simp_all add: parses_as_def parse_step_def open_value_def)

lemma parse_text:
  assumes "printable v" "fits_depth maxNestingDepth v"
  shows "json_parse (json_text v) = Some v"
proof -
  have "lex LStart (json_text v) = Some (tokens v)"
    using lexesD [OF lex_text [OF assms(1)], of "[]"] by simp
  moreover have "parse MVal [] (tokens v) = Some v"
    using parse_completes [of "[]" v] assms(2) by (simp add: parses_as_def) (metis append_Nil2 mode.case(6) list.case(1) parse.simps(1) prod.case)
  ultimately show ?thesis by (simp add: json_parse_def)
qed

section \<open>Every parsed value can be printed\<close>

fun token_ok :: "token \<Rightarrow> bool" where
  "token_ok (TStr s) = utf8_ok s"
| "token_ok (TNum s) = valid_num s"
| "token_ok _ = True"

lemma lex_start_ok: "lex_start c = Some (ts, st) \<Longrightarrow> list_all token_ok ts"
  by (auto simp: lex_start_def split: if_splits)

lemma word_token_ok: "word_token w = Some t \<Longrightarrow> token_ok t"
  by (auto simp: word_token_def split: if_splits)

lemma lex_ok: "lex st s = Some ts \<Longrightarrow> list_all token_ok ts"
  by (induction st s arbitrary: ts rule: lex.induct)
    (auto split: option.splits if_splits prod.splits dest: lex_start_ok word_token_ok unquote_ok)

lemma list_all_separated: "list_all P (separated tss) \<Longrightarrow> list_all (list_all P) tss"
  by (induction tss rule: separated.induct) auto

lemma tokens_printable: "list_all token_ok (tokens v) \<Longrightarrow> printable v"
proof (induction v)
  case (JArr vs)
  then show ?case using list_all_separated [of token_ok "map tokens vs"] by (auto simp: list_all_iff)
next
  case (JObj kvs)
  then show ?case
    using list_all_separated [of token_ok "map (\<lambda>(k, v). TStr k # TDelim (CHR '':'') # tokens v) kvs"]
    by (fastforce simp: list_all_iff)
qed auto

fun frames_within :: "frame list \<Rightarrow> bool" where
  "frames_within [] = True"
| "frames_within (FArr vs # fs) =
     (int (length fs) < maxNestingDepth \<and> list_all (fits_depth (maxNestingDepth - int (length fs) - 1)) vs \<and> frames_within fs)"
| "frames_within (FObj kvs k # fs) =
     (int (length fs) < maxNestingDepth \<and> list_all (\<lambda>(k, v). fits_depth (maxNestingDepth - int (length fs) - 1) v) kvs \<and> frames_within fs)"

fun mode_within :: "int \<Rightarrow> mode \<Rightarrow> bool" where
  "mode_within d (MAfter v) = fits_depth d v"
| "mode_within d (MKey kvs) = (0 < d \<and> list_all (\<lambda>(k, v). fits_depth (d - 1) v) kvs)"
| "mode_within d (MColon kvs k) = (0 < d \<and> list_all (\<lambda>(k, v). fits_depth (d - 1) v) kvs)"
| "mode_within d MKeyOrEnd = (0 < d)"
| "mode_within d _ = True"

definition state_within :: "mode \<Rightarrow> frame list \<Rightarrow> bool" where
  "state_within m fs \<longleftrightarrow> mode_within (maxNestingDepth - int (length fs)) m \<and> frames_within fs"

lemma open_value_within: "open_value fs t = Some (m', fs') \<Longrightarrow> frames_within fs \<Longrightarrow> state_within m' fs'"
  by (auto simp: open_value_def state_within_def split: token.splits if_splits)

lemma parse_step_within:
  assumes "parse_step m fs t = Some (m', fs')" "state_within m fs"
  shows "state_within m' fs'"
proof (cases m)
  case (MAfter v)
  with assms show ?thesis
    by (auto simp: parse_step_def state_within_def algebra_simps split: list.splits frame.splits if_splits)
next
  case MVal
  with assms open_value_within show ?thesis by (auto simp: parse_step_def state_within_def)
next
  case MValOrEnd
  with assms open_value_within show ?thesis
    by (auto simp: parse_step_def state_within_def split: if_splits list.splits frame.splits)
qed (use assms in \<open>auto simp: parse_step_def state_within_def split: token.splits if_splits\<close>)

lemma parse_within: "parse m fs ts = Some v \<Longrightarrow> state_within m fs \<Longrightarrow> fits_depth maxNestingDepth v"
proof (induction m fs ts rule: parse.induct)
  case (1 m fs)
  then show ?case by (auto simp: state_within_def split: mode.splits list.splits)
next
  case (2 m fs t ts)
  then obtain m' fs' where s: "parse_step m fs t = Some (m', fs')" "parse m' fs' ts = Some v" by (auto split: option.splits)
  with 2 parse_step_within [OF s(1)] show ?case by simp
qed

lemma json_parse_printable:
  assumes "json_parse s = Some v"
  shows "printable v" "fits_depth maxNestingDepth v"
  using assms lex_ok [OF json_parse_tokens [OF assms]] parse_within [of MVal "[]"]
  by (auto simp: json_parse_def state_within_def tokens_printable split: option.splits)

end
