(* ===== verification/ToolArguments.thy ===== *)
theory ToolArguments
  imports RouterRequest
begin

text \<open>
  The strict decoder of tool arguments against its specification: on the tokens of a text it
  returns a value exactly when the plain parser returns it and the value is within the limits of
  depth, nodes and text, with short, non-empty, distinct keys in every object. The streaming checks
  neither miss nor invent a violation.
\<close>

section \<open>The specification\<close>

fun json_nodes :: "json \<Rightarrow> int" where
  "json_nodes (JArr vs) = 1 + sum_list (map json_nodes vs)"
| "json_nodes (JObj kvs) = 1 + sum_list (map (\<lambda>(k, v). json_nodes v) kvs)"
| "json_nodes _ = 1"

text \<open>The bytes of the keys and strings.\<close>

definition json_text_bytes :: "json \<Rightarrow> int" where
  "json_text_bytes v = sum_list (map token_text (tokens v))"

definition key_ok :: "string \<Rightarrow> bool" where
  "key_ok k \<longleftrightarrow> k \<noteq> [] \<and> len k \<le> 128"

fun argument_ok :: "int \<Rightarrow> json \<Rightarrow> bool" where
  "argument_ok depth (JArr vs) \<longleftrightarrow> depth \<le> maxArgumentDepth \<and> (\<forall>v \<in> set vs. argument_ok (depth + 1) v)"
| "argument_ok depth (JObj kvs) \<longleftrightarrow>
     depth \<le> maxArgumentDepth \<and> distinct (map fst kvs) \<and> (\<forall>(k, v) \<in> set kvs. key_ok k \<and> argument_ok (depth + 1) v)"
| "argument_ok depth _ \<longleftrightarrow> depth \<le> maxArgumentDepth"

definition bounded_argument :: "json \<Rightarrow> bool" where
  "bounded_argument v \<longleftrightarrow> argument_ok 0 v \<and> json_nodes v \<le> maxArgumentNodes \<and> json_text_bytes v \<le> maxToolArgumentBytes"

section \<open>The same for a state of the parser\<close>

definition members_ok :: "int \<Rightarrow> (string \<times> json) list \<Rightarrow> bool" where
  "members_ok depth kvs \<longleftrightarrow>
     depth \<le> maxArgumentDepth \<and> distinct (map fst kvs) \<and> (\<forall>(k, v) \<in> set kvs. key_ok k \<and> argument_ok (depth + 1) v)"

definition new_key :: "string \<Rightarrow> (string \<times> json) list \<Rightarrow> bool" where
  "new_key k kvs \<longleftrightarrow> key_ok k \<and> k \<notin> fst ` set kvs"

fun frames_ok :: "frame list \<Rightarrow> bool" where
  "frames_ok [] \<longleftrightarrow> True"
| "frames_ok (FArr vs # fs) \<longleftrightarrow> len fs \<le> maxArgumentDepth \<and> (\<forall>v \<in> set vs. argument_ok (len fs + 1) v) \<and> frames_ok fs"
| "frames_ok (FObj kvs k # fs) \<longleftrightarrow> members_ok (len fs) kvs \<and> new_key k kvs \<and> frames_ok fs"

fun mode_ok :: "mode \<Rightarrow> frame list \<Rightarrow> bool" where
  "mode_ok MKeyOrEnd fs \<longleftrightarrow> len fs \<le> maxArgumentDepth"
| "mode_ok (MKey kvs) fs \<longleftrightarrow> members_ok (len fs) kvs"
| "mode_ok (MColon kvs k) fs \<longleftrightarrow> members_ok (len fs) kvs \<and> new_key k kvs"
| "mode_ok (MAfter v) fs \<longleftrightarrow> argument_ok (len fs) v"
| "mode_ok _ fs \<longleftrightarrow> True"

fun frame_nodes :: "frame \<Rightarrow> int" where
  "frame_nodes (FArr vs) = 1 + sum_list (map json_nodes vs)"
| "frame_nodes (FObj kvs k) = 1 + sum_list (map (\<lambda>(k, v). json_nodes v) kvs)"

fun mode_nodes :: "mode \<Rightarrow> int" where
  "mode_nodes MKeyOrEnd = 1"
| "mode_nodes (MKey kvs) = 1 + sum_list (map (\<lambda>(k, v). json_nodes v) kvs)"
| "mode_nodes (MColon kvs k) = 1 + sum_list (map (\<lambda>(k, v). json_nodes v) kvs)"
| "mode_nodes (MAfter v) = json_nodes v"
| "mode_nodes _ = 0"

definition state_nodes :: "mode \<Rightarrow> frame list \<Rightarrow> int" where
  "state_nodes m fs = mode_nodes m + sum_list (map frame_nodes fs)"

definition state_ok :: "mode \<Rightarrow> frame list \<Rightarrow> bool" where
  "state_ok m fs \<longleftrightarrow> frames_ok fs \<and> mode_ok m fs"

definition state_text :: "mode \<Rightarrow> frame list \<Rightarrow> int" where
  "state_text m fs = sum_list (map token_text (read_tokens m fs))"

section \<open>One token\<close>

lemma len_Cons [simp]: "len (x # xs) = len xs + 1" and len_Nil [simp]: "len [] = 0"
  by (simp_all add: len_def)

lemma in_fst: "(a, b) \<in> S \<Longrightarrow> a \<in> fst ` S"
  by (auto intro: rev_image_eqI)

lemma sum_list_rev_int: "sum_list (map f (rev xs)) = (sum_list (map f xs) :: int)"
  by (induction xs) auto

lemma open_value_state:
  assumes "open_value fs t = Some (m', fs')"
  shows "state_nodes m' fs' = sum_list (map frame_nodes fs) + 1"
    "state_ok m' fs' \<longleftrightarrow> frames_ok fs \<and> len fs \<le> maxArgumentDepth"
  using assms by (auto simp: open_value_def state_nodes_def state_ok_def split: token.splits if_splits)

lemma parse_step_nodes:
  assumes "parse_step m fs t = Some (m', fs')" "parser_wf m fs"
  shows "state_nodes m' fs' = state_nodes m fs + (if begins_value m t then 1 else 0)"
proof (cases m)
  case (MAfter v)
  with assms show ?thesis
    by (auto simp: parse_step_def state_nodes_def begins_value_def sum_list_rev_int split: list.splits frame.splits if_splits)
next
  case MVal
  with assms open_value_state [of fs t m' fs'] show ?thesis by (simp add: parse_step_def state_nodes_def begins_value_def)
next
  case MValOrEnd
  with assms open_value_state [of fs t m' fs'] show ?thesis
    by (auto simp: parse_step_def parser_wf_def state_nodes_def begins_value_def split: if_splits)
qed (use assms in \<open>auto simp: parse_step_def state_nodes_def begins_value_def split: token.splits if_splits\<close>)

lemma parse_step_ok:
  assumes "parse_step m fs t = Some (m', fs')" "parser_wf m fs"
  shows "state_ok m' fs' \<longleftrightarrow> state_ok m fs \<and> (begins_value m t \<longrightarrow> len fs \<le> maxArgumentDepth) \<and> strict_key_ok m t"
proof (cases m)
  case (MAfter v)
  with assms show ?thesis
    by (auto simp: parse_step_def state_ok_def begins_value_def strict_key_ok_def members_ok_def new_key_def rev_map [symmetric]
        split: list.splits frame.splits if_splits token.splits dest: in_fst)
next
  case MVal
  with assms open_value_state [of fs t m' fs'] show ?thesis
    by (auto simp: parse_step_def state_ok_def begins_value_def strict_key_ok_def split: token.splits)
next
  case MValOrEnd
  with assms open_value_state [of fs t m' fs'] show ?thesis
    by (auto simp: parse_step_def parser_wf_def state_ok_def begins_value_def strict_key_ok_def split: if_splits token.splits)
qed (use assms in \<open>auto simp: parse_step_def state_ok_def begins_value_def strict_key_ok_def members_ok_def new_key_def key_ok_def
      split: token.splits if_splits dest: in_fst\<close>)

lemma parse_step_text:
  assumes "parse_step m fs t = Some (m', fs')" "parser_wf m fs"
  shows "state_text m' fs' = state_text m fs + token_text t"
  using parse_step_tokens [OF assms] by (simp add: state_text_def)

section \<open>The whole text\<close>

text \<open>Along a parse the nodes and the text only grow, and a violation stays.\<close>

lemma parse_monotone:
  "parse m fs ts = Some v \<Longrightarrow> parser_wf m fs \<Longrightarrow>
     state_nodes m fs \<le> json_nodes v \<and> state_text m fs \<le> json_text_bytes v \<and> (argument_ok 0 v \<longrightarrow> state_ok m fs)"
proof (induction m fs ts rule: parse.induct)
  case (1 m fs)
  then show ?case
    by (auto simp: state_nodes_def state_text_def state_ok_def json_text_bytes_def read_tokens_def split: mode.splits list.splits)
next
  case (2 m fs t ts)
  then obtain m' fs' where s: "parse_step m fs t = Some (m', fs')" "parse m' fs' ts = Some v" by (auto split: option.splits)
  have wf: "parser_wf m' fs'" using parse_step_tokens [OF s(1) 2(3)] by simp
  have "0 \<le> token_text t" by (simp add: token_text_def len_def split: token.splits)
  with 2(1) [of "(m', fs')"] s wf parse_step_nodes [OF s(1) 2(3)] parse_step_ok [OF s(1) 2(3)] parse_step_text [OF s(1) 2(3)]
  show ?case by (auto split: if_splits)
qed

text \<open>The strict run and the parser with the budgets written as what is left of a total.\<close>

lemma strict_run_iff:
  assumes "parser_wf m fs" "state_ok m fs" "state_nodes m fs \<le> N" "state_text m fs \<le> T"
  shows "strict_run m fs (N - state_nodes m fs) (T - state_text m fs) ts = Some (v, []) \<longleftrightarrow>
    parse m fs ts = Some v \<and> argument_ok 0 v \<and> json_nodes v \<le> N \<and> json_text_bytes v \<le> T"
  using assms
proof (induction ts arbitrary: m fs)
  case Nil
  then show ?case
    by (auto simp: state_nodes_def state_text_def state_ok_def json_text_bytes_def read_tokens_def split: mode.splits list.splits)
next
  case (Cons t ts)
  show ?case
  proof (cases "\<exists>w. m = MAfter w \<and> fs = []")
    case True
    then show ?thesis by (auto simp: parse_step_def)
  next
    case False
    then have run: "strict_run m fs b tb (t # ts) = (case strict_step m fs b tb t of
        None \<Rightarrow> None | Some (m', fs', b', tb') \<Rightarrow> strict_run m' fs' b' tb' ts)" for b tb
      by (auto split: mode.splits list.splits)
    show ?thesis
    proof (cases "parse_step m fs t")
      case None
      then show ?thesis by (auto simp: run strict_step_def simp del: strict_run.simps)
    next
      case (Some p)
      obtain m' fs' where p: "p = (m', fs')" by (cases p)
      note step = Some [unfolded p]
      note N = parse_step_nodes [OF step Cons.prems(1)] and T = parse_step_text [OF step Cons.prems(1)]
        and ok = parse_step_ok [OF step Cons.prems(1)]
      have wf: "parser_wf m' fs'" using parse_step_tokens [OF step Cons.prems(1)] by simp
      show ?thesis
      proof (cases "state_ok m' fs' \<and> state_nodes m' fs' \<le> N \<and> state_text m' fs' \<le> T")
        case True
        with N T ok have "strict_step m fs (N - state_nodes m fs) (T - state_text m fs) t =
            Some (m', fs', N - state_nodes m' fs', T - state_text m' fs')"
          using step by (auto simp: strict_step_def split: if_splits)
        with Cons.IH [OF wf] True step show ?thesis by (simp add: run del: strict_run.simps)
      next
        case False
        with N T ok Cons.prems have "strict_step m fs (N - state_nodes m fs) (T - state_text m fs) t = None"
          by (auto simp: strict_step_def split: if_splits)
        with False step parse_monotone [OF _ wf, of ts v] show ?thesis by (auto simp: run simp del: strict_run.simps)
      qed
    qed
  qed
qed

lemma decodeStrict_accepts:
  "lex LStart s = Some ts \<Longrightarrow>
   decodeStrictJSONValue ts = Some (a, []) \<longleftrightarrow> (\<exists>v. json_parse s = Some v \<and> bounded_argument v \<and> a = any_of_json_number v)"
proof -
  assume "lex LStart s = Some ts"
  moreover have "strict_run MVal [] maxArgumentNodes maxToolArgumentBytes ts = Some (v, []) \<longleftrightarrow> parse MVal [] ts = Some v \<and> bounded_argument v" for v
    using strict_run_iff [of MVal "[]" maxArgumentNodes maxToolArgumentBytes ts v]
    by (simp add: parser_wf_def state_ok_def state_nodes_def state_text_def read_tokens_def bounded_argument_def limits)
  ultimately show ?thesis by (auto simp: decodeStrictJSONValue_def json_parse_def)
qed

text \<open>
  C24: The strict decoder accepts exactly the bounded values: for the tokens of a text it returns a
  value, with nothing left over, if and only if the plain JSON parser returns the same value and
  the value has depth at most six, at most 128 nodes, at most 32 KiB of keys and strings, and
  distinct, non-empty keys of at most 128 bytes in every object.
\<close>

theorem decodeStrict_iff:
  "lex LStart s = Some ts \<Longrightarrow>
   decodeStrictJSONValue ts = Some (a, []) \<longleftrightarrow> (\<exists>v. json_parse s = Some v \<and> bounded_argument v \<and> a = any_of_json_number v)"
  by (rule decodeStrict_accepts)

definition demo_arguments :: string where
  "demo_arguments = unquoted ''{ ~q~ : [1, ~x~] }''"

theorem decodeStrict_iff_witness:
  "\<exists>ts. lex LStart demo_arguments = Some ts \<and> decodeStrictJSONValue ts = Some (VObj [(''q'', VArr [VNumber ''1'', VStr ''x''])], [])"
proof -
  let ?v = "JObj [(''q'', JArr [JNum ''1'', JStr ''x''])]"
  have p: "json_parse demo_arguments = Some ?v" by code_simp
  then obtain ts where ts: "lex LStart demo_arguments = Some ts" using json_parse_tokens by blast
  have "bounded_argument ?v" by code_simp
  with p decodeStrict_iff [OF ts] ts show ?thesis by (auto intro!: exI [of _ ts])
qed

end
