(* ===== verification/ArgumentRoundtrip.thy ===== *)
theory ArgumentRoundtrip
  imports JsonRoundtrip ToolArguments "HOL-Library.Multiset"
begin

text \<open>
  The canonical text of tool arguments. The router decodes the arguments strictly into a map and
  forwards what \<open>json.Marshal\<close> prints for it. The canonical form of a value has the members of its
  objects in the order of their keys; its text is what the router prints, it parses back to the
  canonical form, and the strict decoder reads the same map from it.
\<close>

section \<open>Members in the order of their keys\<close>

definition sorted_members :: "(string \<times> 'v) list \<Rightarrow> (string \<times> 'v) list" where
  "sorted_members ms = foldl (\<lambda>m (k, v). put k v m) [] ms"

lemma put_map: "map (\<lambda>(k, v). (k, f v)) (put k v m) = put k (f v) (map (\<lambda>(k, v). (k, f v)) m)"
  by (induction m) auto

lemma sorted_members_map: "map (\<lambda>(k, v). (k, f v)) (sorted_members ms) = sorted_members (map (\<lambda>(k, v). (k, f v)) ms)"
proof -
  have "map (\<lambda>(k, v). (k, f v)) (foldl (\<lambda>m (k, v). put k v m) m ms)
      = foldl (\<lambda>m (k, v). put k v m) (map (\<lambda>(k, v). (k, f v)) m) (map (\<lambda>(k, v). (k, f v)) ms)" for m
    by (induction ms arbitrary: m) (auto simp: put_map)
  from this [of "[]"] show ?thesis by (simp add: sorted_members_def)
qed

lemma set_put_subset: "set (put k v m) \<subseteq> insert (k, v) (set m)"
  by (induction m) (auto split: if_splits)

lemma set_sorted_members: "set (sorted_members ms) \<subseteq> set ms"
proof -
  have "set (foldl (\<lambda>m (k, v). put k v m) m ms) \<subseteq> set m \<union> set ms" for m
  proof (induction ms arbitrary: m)
    case (Cons p ms)
    obtain k v where p: "p = (k, v)" by (cases p)
    show ?case using Cons [of "put k v m"] set_put_subset [of k v m] by (auto simp: p)
  qed simp
  from this [of "[]"] show ?thesis by (simp add: sorted_members_def)
qed

lemma map_wf_sorted_members: "map_wf (sorted_members ms)"
  using put_all_wf [of "[]" "\<lambda>_. True" ms] by (simp add: sorted_members_def map_wf_def case_prod_beta list_all_iff)

lemma put_snoc: "\<forall>x \<in> set m. fst x < k \<Longrightarrow> put k v m = m @ [(k, v)]"
  by (induction m) auto

lemma sorted_members_id: "map_wf m \<Longrightarrow> sorted_members m = m"
proof (induction m rule: rev_induct)
  case (snoc p m)
  obtain k v where p: "p = (k, v)" by (cases p)
  from snoc.prems have "map_wf m" "\<forall>x \<in> set m. fst x < k" by (auto simp: map_wf_def sorted_wrt_append p)
  with snoc.IH put_snoc [of m k v] show ?case by (simp add: sorted_members_def p)
qed (simp add: sorted_members_def)

lemma mset_put: "k \<notin> fst ` set m \<Longrightarrow> mset (put k v m) = add_mset (k, v) (mset m)"
  by (induction m) auto

lemma mset_sorted_members:
  assumes "distinct (map fst ms)"
  shows "mset (sorted_members ms) = mset ms"
proof -
  have "mset (foldl (\<lambda>m (k, v). put k v m) m ms) = mset m + mset ms"
    if "distinct (map fst ms)" "fst ` set m \<inter> fst ` set ms = {}" for m
    using that
  proof (induction ms arbitrary: m)
    case (Cons p ms)
    obtain k v where p: "p = (k, v)" by (cases p)
    from Cons.prems have "k \<notin> fst ` set m" "fst ` set (put k v m) \<inter> fst ` set ms = {}" by (auto simp: p set_put)
    with Cons.IH [of "put k v m"] Cons.prems mset_put [of k m v] show ?case by (simp add: p)
  qed simp
  from this [of "[]"] assms show ?thesis by (simp add: sorted_members_def)
qed

section \<open>The canonical form\<close>

fun canonical :: "json \<Rightarrow> json" where
  "canonical (JArr vs) = JArr (map canonical vs)"
| "canonical (JObj kvs) = JObj (sorted_members (map (\<lambda>(k, v). (k, canonical v)) kvs))"
| "canonical v = v"

lemma any_of_json_number_obj:
  "any_of_json_number (JObj kvs) = VObj (sorted_members (map (\<lambda>(k, v). (k, any_of_json_number v)) kvs))"
  by (simp add: sorted_members_def)

lemma members_cong:
  "(\<And>k v. (k, v) \<in> set kvs \<Longrightarrow> f v = g v) \<Longrightarrow> map (\<lambda>(k, v). (k, f v)) kvs = map (\<lambda>(k, v). (k, g v)) kvs"
  by auto

lemma map_members: "map (\<lambda>(k, v). (k, f v)) (map (\<lambda>(k, v). (k, g v)) kvs) = map (\<lambda>(k, v). (k, f (g v))) kvs"
  by auto

lemma marshal_canonical: "marshal_any (any_of_json_number v) = json_text (canonical v)"
proof (induction v)
  case (JArr vs)
  then have "map (\<lambda>v. marshal_any (any_of_json_number v)) vs = map (\<lambda>v. json_text (canonical v)) vs" by simp
  then show ?case by (simp add: o_def cong: map_cong)
next
  case (JObj kvs)
  let ?text = "\<lambda>(k, s). json_quote k @ '':'' @ s"
  have "map (\<lambda>(k, v). (k, marshal_any v)) (sorted_members (map (\<lambda>(k, v). (k, any_of_json_number v)) kvs))
      = map (\<lambda>(k, v). (k, json_text v)) (sorted_members (map (\<lambda>(k, v). (k, canonical v)) kvs))"
    unfolding sorted_members_map map_members using JObj by (intro arg_cong [of _ _ sorted_members] members_cong) auto
  then have "map ?text (map (\<lambda>(k, v). (k, marshal_any v)) (sorted_members (map (\<lambda>(k, v). (k, any_of_json_number v)) kvs)))
      = map ?text (map (\<lambda>(k, v). (k, json_text v)) (sorted_members (map (\<lambda>(k, v). (k, canonical v)) kvs)))"
    by (rule arg_cong)
  then show ?case by (simp add: any_of_json_number_obj o_def case_prod_unfold del: any_of_json_number.simps(6))
qed simp_all

lemma any_canonical: "any_of_json_number (canonical v) = any_of_json_number v"
proof (induction v)
  case (JObj kvs)
  then have IH: "map (\<lambda>(k, v). (k, any_of_json_number (canonical v))) kvs = map (\<lambda>(k, v). (k, any_of_json_number v)) kvs"
    by (intro members_cong) auto
  show ?case
    unfolding canonical.simps any_of_json_number_obj sorted_members_map map_members IH
    by (simp add: sorted_members_id map_wf_sorted_members)
qed simp_all

lemma canonical_printable: "printable v \<Longrightarrow> printable (canonical v)"
proof (induction v)
  case (JObj kvs)
  then have "\<forall>(k, v) \<in> set (map (\<lambda>(k, v). (k, canonical v)) kvs). utf8_ok k \<and> printable v"
    by (fastforce simp: list_all_iff)
  with set_sorted_members [of "map (\<lambda>(k, v). (k, canonical v)) kvs"] show ?case by (auto simp: list_all_iff)
qed (auto simp: list_all_iff)

lemma canonical_within: "fits_depth d v \<Longrightarrow> fits_depth d (canonical v)"
proof (induction v arbitrary: d)
  case (JObj kvs)
  then have "\<forall>(k, v) \<in> set (map (\<lambda>(k, v). (k, canonical v)) kvs). fits_depth (d - 1) v"
    by (fastforce simp: list_all_iff)
  with JObj.prems set_sorted_members [of "map (\<lambda>(k, v). (k, canonical v)) kvs"] show ?case by (auto simp: list_all_iff)
qed (auto simp: list_all_iff)

text \<open>The text of a value is what the router prints for it, and it parses to the canonical form.\<close>

lemma canonical_parse:
  assumes "json_parse s = Some v"
  shows "json_parse (marshal_any (any_of_json_number v)) = Some (canonical v)"
  unfolding marshal_canonical
  by (intro parse_text canonical_printable canonical_within json_parse_printable [OF assms])


section \<open>The limits hold for the canonical form\<close>

lemma sum_list_mset: "mset xs = mset ys \<Longrightarrow> sum_list (map f xs) = (sum_list (map f ys) :: int)"
  by (metis mset_map sum_mset_sum_list)

lemma text_bytes_simps [simp]:
  "json_text_bytes (JArr vs) = sum_list (map json_text_bytes vs)"
  "json_text_bytes (JObj kvs) = sum_list (map (\<lambda>(k, v). len k + json_text_bytes v) kvs)"
proof -
  have sep: "sum_list (map token_text (separated tss)) = sum_list (map (\<lambda>ts. sum_list (map token_text ts)) tss)" for tss
    by (induction tss rule: separated.induct) (auto simp: token_text_def)
  have delim: "token_text (TDelim c) = 0" "token_text (TStr k) = len k" for c k by (simp_all add: token_text_def)
  have bytes: "json_text_bytes = (\<lambda>v. sum_list (map token_text (tokens v)))" by (simp add: json_text_bytes_def fun_eq_iff)
  show "json_text_bytes (JArr vs) = sum_list (map json_text_bytes vs)"
    by (simp add: bytes sep delim o_def)
  show "json_text_bytes (JObj kvs) = sum_list (map (\<lambda>(k, v). len k + json_text_bytes v) kvs)"
    by (simp add: bytes sep delim o_def case_prod_unfold)
qed

lemma canonical_limits:
  "argument_ok d v \<Longrightarrow>
     argument_ok d (canonical v) \<and> json_nodes (canonical v) = json_nodes v \<and> json_text_bytes (canonical v) = json_text_bytes v"
proof (induction v arbitrary: d)
  case (JArr vs)
  then have "map (\<lambda>v. json_nodes (canonical v)) vs = map json_nodes vs" "map (\<lambda>v. json_text_bytes (canonical v)) vs = map json_text_bytes vs"
    by auto
  with JArr show ?case by (auto simp: o_def simp del: map_eq_conv)
next
  case (JObj kvs)
  let ?ms = "map (\<lambda>(k, v). (k, canonical v)) kvs"
  have d: "distinct (map fst ?ms)" using JObj.prems by (simp add: o_def case_prod_unfold)
  note perm = mset_sorted_members [OF d]
  have IH: "argument_ok (d + 1) (canonical v) \<and> json_nodes (canonical v) = json_nodes v \<and> json_text_bytes (canonical v) = json_text_bytes v"
    if "(k, v) \<in> set kvs" for k v
    using JObj.IH [OF that, of v] JObj.prems that by auto
  have "distinct (map fst (sorted_members ?ms))" by (rule map_wf_distinct [OF map_wf_sorted_members])
  moreover have "\<forall>(k, v) \<in> set ?ms. key_ok k \<and> argument_ok (d + 1) v" using JObj.prems IH by auto
  then have "\<forall>(k, v) \<in> set (sorted_members ?ms). key_ok k \<and> argument_ok (d + 1) v" using set_sorted_members [of ?ms] by blast
  moreover have "sum_list (map (\<lambda>(k, v). json_nodes v) ?ms) = sum_list (map (\<lambda>(k, v). json_nodes v) kvs)"
    "sum_list (map (\<lambda>(k, v). len k + json_text_bytes v) ?ms) = sum_list (map (\<lambda>(k, v). len k + json_text_bytes v) kvs)"
    using IH by (intro arg_cong [of _ _ sum_list], auto)+
  ultimately show ?case
    using JObj.prems sum_list_mset [OF perm, of "\<lambda>(k, v). json_nodes v"] sum_list_mset [OF perm, of "\<lambda>(k, v). len k + json_text_bytes v"]
    by simp
qed auto

lemma decode_canonical:
  assumes "lex LStart s = Some ts" "decodeStrictJSONValue ts = Some (a, [])"
  obtains ts' where "lex LStart (marshal_any a) = Some ts'" "decodeStrictJSONValue ts' = Some (a, [])"
proof -
  from assms obtain v where v: "json_parse s = Some v" "bounded_argument v" "a = any_of_json_number v"
    by (auto simp: decodeStrict_accepts)
  have p: "json_parse (marshal_any a) = Some (canonical v)" using canonical_parse [OF v(1)] v(3) by simp
  moreover have "bounded_argument (canonical v)" using v(2) canonical_limits [of 0 v] by (simp add: bounded_argument_def)
  ultimately show thesis
    using that [OF json_parse_tokens [OF p]] decodeStrict_accepts [OF json_parse_tokens [OF p], of a] any_canonical [of v] v(3)
    by (auto simp: json_parse_tokens)
qed

text \<open>
  C17: The text that the router forwards in place of the tool arguments of a message denotes the
  value that it checked: the strict decoder reads from it the very map it read from the client's
  text, and validating it again accepts it and gives the same text. In between stand the whole
  JSON scanner, parser and printer: escapes, number literals, repeated keys and member order.
\<close>

theorem toolArguments_roundtrip:
  assumes "validateToolArguments encoded = Inr forwarded"
  shows "\<exists>object ts ts'.
    lex LStart encoded = Some ts \<and> decodeStrictJSONValue ts = Some (VObj object, []) \<and>
    lex LStart forwarded = Some ts' \<and> decodeStrictJSONValue ts' = Some (VObj object, []) \<and>
    validateToolArguments forwarded = Inr forwarded"
proof -
  from assms obtain ts object where dec: "lex LStart encoded = Some ts" "decodeStrictJSONValue ts = Some (VObj object, [])"
    and c: "forwarded = marshal_any (VObj object)"
    and ok: "\<not> containsSecretKey (VObj object)" "\<not> (len forwarded > maxToolArgumentBytes \<or> credentialPattern forwarded)"
    by (auto simp: validateToolArguments_def returns_iff Let_def split: option.splits any.splits)
  from decode_canonical [OF dec] c obtain ts' where again: "lex LStart forwarded = Some ts'" "decodeStrictJSONValue ts' = Some (VObj object, [])"
    by auto
  then have "validateToolArguments forwarded = Inr forwarded"
    using ok c by (auto simp: validateToolArguments_def require_def Let_def)
  with dec again show ?thesis by blast
qed

definition demo_forwarded :: string where
  "demo_forwarded = unquoted ''{~q~:[1,~x~]}''"

theorem toolArguments_roundtrip_witness:
  "validateToolArguments demo_arguments = Inr demo_forwarded \<and>
   (\<exists>object ts ts'. lex LStart demo_arguments = Some ts \<and> decodeStrictJSONValue ts = Some (VObj object, []) \<and>
      lex LStart demo_forwarded = Some ts' \<and> decodeStrictJSONValue ts' = Some (VObj object, []))"
proof -
  have v: "validateToolArguments demo_arguments = Inr demo_forwarded" by code_simp
  from toolArguments_roundtrip [OF this] v show ?thesis by blast
qed

end
