(* ===== verification/ChatPayload.thy ===== *)
theory ChatPayload
  imports SchemaBounds ArgumentRoundtrip
begin

text \<open>
  What the router forwards: the specification \<open>bounded_chat\<close> of a chat request, and that every
  payload that \<open>validateChatPayload\<close> returns meets it. The conversation in it is closed: each tool
  call names a declared function and carries arguments in canonical form, the call identifiers
  are distinct over the whole conversation, and each tool result answers one of them.
\<close>

section \<open>The specification\<close>

definition forwarded_arguments :: "string \<Rightarrow> bool" where
  "forwarded_arguments s \<longleftrightarrow> len s \<le> maxToolArgumentBytes \<and> \<not> credentialPattern s \<and>
     (\<exists>kvs. json_parse s = Some (JObj kvs) \<and> bounded_argument (JObj kvs) \<and> \<not> containsSecretKey (any_of_json_number (JObj kvs)))"

definition called_ok :: "string list \<Rightarrow> any \<Rightarrow> bool" where
  "called_ok declared v \<longleftrightarrow>
     (\<exists>function. v = VObj function \<and> onlyKeys function [''name'', ''arguments'']
        \<and> (\<exists>name \<in> set declared. index function ''name'' = VStr name)
        \<and> (\<exists>s. index function ''arguments'' = VStr s \<and> forwarded_arguments s))"

definition call_id :: "any \<Rightarrow> string" where
  "call_id v = (case v of VObj call \<Rightarrow> (case index call ''id'' of VStr s \<Rightarrow> s | _ \<Rightarrow> []) | _ \<Rightarrow> [])"

definition call_ok :: "string list \<Rightarrow> any \<Rightarrow> bool" where
  "call_ok declared v \<longleftrightarrow>
     (\<exists>call. v = VObj call \<and> onlyKeys call [''id'', ''type'', ''function''] \<and> index call ''type'' = VStr ''function''
        \<and> safe_name (call_id v) \<and> called_ok declared (index call ''function''))"

definition calls_of :: "any \<Rightarrow> any list" where
  "calls_of v = (case v of VObj message \<Rightarrow> (case index message ''tool_calls'' of VArr calls \<Rightarrow> calls | _ \<Rightarrow> []) | _ \<Rightarrow> [])"

inductive message_ok :: "string list \<Rightarrow> any \<Rightarrow> bool" for declared where
  system: "index m ''role'' = VStr ''system'' \<Longrightarrow> onlyKeys m [''role'', ''content'', ''name''] \<Longrightarrow>
    validText (index m ''content'') \<Longrightarrow> validOptionalName m \<Longrightarrow> message_ok declared (VObj m)"
| user: "index m ''role'' = VStr ''user'' \<Longrightarrow> onlyKeys m [''role'', ''content'', ''name''] \<Longrightarrow>
    validUserContent (index m ''content'') \<Longrightarrow> validOptionalName m \<Longrightarrow> message_ok declared (VObj m)"
| answer: "index m ''role'' = VStr ''assistant'' \<Longrightarrow> onlyKeys m [''role'', ''content'', ''name''] \<Longrightarrow>
    validText (index m ''content'') \<Longrightarrow> validOptionalName m \<Longrightarrow> message_ok declared (VObj m)"
| calls: "index m ''role'' = VStr ''assistant'' \<Longrightarrow> onlyKeys m [''role'', ''content'', ''name'', ''tool_calls''] \<Longrightarrow>
    index m ''content'' = VNil \<or> validText (index m ''content'') \<Longrightarrow> validOptionalName m \<Longrightarrow>
    map_of m ''tool_calls'' = Some (VArr cs) \<Longrightarrow> 1 \<le> len cs \<Longrightarrow> len cs \<le> maxToolCalls \<Longrightarrow> list_all (call_ok declared) cs \<Longrightarrow>
    message_ok declared (VObj m)"
| tool: "index m ''role'' = VStr ''tool'' \<Longrightarrow> onlyKeys m [''role'', ''content'', ''tool_call_id''] \<Longrightarrow>
    validText (index m ''content'') \<Longrightarrow> index m ''tool_call_id'' = VStr cid \<Longrightarrow> safe_name cid \<Longrightarrow> message_ok declared (VObj m)"

text \<open>The call identifiers of a conversation.\<close>

definition conversation_ids :: "any list \<Rightarrow> string list" where
  "conversation_ids ms = map call_id (concat (map calls_of ms))"

definition conversation_ok :: "string list \<Rightarrow> any \<Rightarrow> bool" where
  "conversation_ok declared v \<longleftrightarrow>
     (\<exists>ms. v = VArr ms \<and> 1 \<le> len ms \<and> len ms \<le> maxMessages \<and> list_all (message_ok declared) ms
        \<and> distinct (conversation_ids ms) \<and> list_all (tool_result_known (conversation_ids ms)) ms)"

definition declared_tools :: "members \<Rightarrow> string list" where
  "declared_tools p = (case index p ''tools'' of VArr tools \<Rightarrow> map tool_name tools | _ \<Rightarrow> [])"

definition tools_ok :: "members \<Rightarrow> bool" where
  "tools_ok p \<longleftrightarrow>
     (case map_of p ''tools'' of
        None \<Rightarrow> True
      | Some v \<Rightarrow> (\<exists>tools. v = VArr tools \<and> 1 \<le> len tools \<and> len tools \<le> maxTools \<and> list_all bounded_tool tools
                     \<and> sum_list (map tool_nodes tools) \<le> maxSchemaNodes \<and> distinct (map tool_name tools)))"

definition bounded_chat :: "members \<Rightarrow> bool" where
  "bounded_chat p \<longleftrightarrow>
     onlyKeys p topLevelChatKeys \<and> index p ''model'' = VStr LogicalModelID
     \<and> (\<exists>n. integer (index p ''max_tokens'') = Some n \<and> 1 \<le> n \<and> n \<le> 4096)
     \<and> validSampling p \<and> tools_ok p \<and> conversation_ok (declared_tools p) (index p ''messages'')
     \<and> (\<forall>choice. map_of p ''tool_choice'' = Some choice \<longrightarrow>
          (\<exists>s \<in> {''auto'', ''none'', ''required''}. choice = VStr s) \<or>
          (\<exists>c f. choice = VObj c \<and> index c ''function'' = VObj f \<and> (\<exists>name \<in> set (declared_tools p). index f ''name'' = VStr name)))"

section \<open>Tool calls\<close>

lemma validateToolArguments_forwarded:
  assumes "validateToolArguments s = Inr c"
  shows "forwarded_arguments c"
proof -
  from assms obtain ts m where dec: "lex LStart s = Some ts" "decodeStrictJSONValue ts = Some (VObj m, [])"
    and c: "c = marshal_any (VObj m)"
    and ok: "\<not> containsSecretKey (VObj m)" "\<not> (len c > maxToolArgumentBytes \<or> credentialPattern c)"
    by (auto simp: validateToolArguments_def returns_iff Let_def split: option.splits any.splits)
  from decode_canonical [OF dec] obtain ts' where "lex LStart c = Some ts'" "decodeStrictJSONValue ts' = Some (VObj m, [])"
    using c by auto
  then obtain v where v: "json_parse c = Some v" "bounded_argument v" "VObj m = any_of_json_number v"
    using decodeStrict_accepts by blast
  then obtain kvs where "v = JObj kvs" by (cases v) auto
  with v ok show ?thesis by (auto simp: forwarded_arguments_def simp del: any_of_json_number.simps)
qed

lemma validateCalledFunction_ok:
  assumes "validateCalledFunction v declared = Inr v'"
  shows "called_ok declared v'"
  using assms validateToolArguments_forwarded
  by (auto simp: validateCalledFunction_def called_ok_def returns_iff onlyKeys_put split: any.splits)

lemma validateToolCalls_loop_ok:
  assumes "validateToolCalls_loop calls declared ids = Inr (ids', calls')"
  shows "list_all (call_ok declared) calls' \<and> length calls' = length calls \<and> distinct (map call_id calls')
    \<and> set ids \<inter> call_id ` set calls' = {} \<and> set ids' = set ids \<union> call_id ` set calls'"
  using assms
proof (induction calls declared ids arbitrary: ids' calls' rule: validateToolCalls_loop.induct)
  case (2 call calls declared ids)
  from 2(2) obtain cid function' calls1 where c: "onlyKeys call [''id'', ''type'', ''function'']" "index call ''type'' = VStr ''function''"
    "index call ''id'' = VStr cid" "safe_name cid" "cid \<notin> set ids" "validateCalledFunction (index call ''function'') declared = Inr function'"
    and rest: "validateToolCalls_loop calls declared (cid # ids) = Inr (ids', calls1)"
    and calls': "calls' = VObj (put ''function'' function' call) # calls1"
    by (auto simp: returns_iff split: any.splits)
  let ?call = "VObj (put ''function'' function' call)"
  have cid: "call_id ?call = cid" using c(3) by (simp add: call_id_def)
  have "call_ok declared ?call"
    using c cid validateCalledFunction_ok [OF c(6)] by (auto simp: call_ok_def onlyKeys_put)
  moreover from 2(1) [OF _ c(3) _ _ c(6) rest] c
  have "list_all (call_ok declared) calls1 \<and> length calls1 = length calls \<and> distinct (map call_id calls1)
    \<and> set (cid # ids) \<inter> call_id ` set calls1 = {} \<and> set ids' = set (cid # ids) \<union> call_id ` set calls1" by auto
  ultimately show ?case using cid c(5) by (auto simp: calls')
qed auto

section \<open>Messages\<close>

lemma validateToolCalls_ok:
  assumes "validateToolCalls v declared = Inr (ids, v')"
  obtains calls where "v' = VArr calls" "1 \<le> len calls" "len calls \<le> maxToolCalls" "list_all (call_ok declared) calls"
    "distinct (map call_id calls)" "set ids = call_id ` set calls"
proof -
  from assms obtain raw calls where raw: "v = VArr raw" "len raw \<noteq> 0" "len raw \<le> maxToolCalls"
    and loop: "validateToolCalls_loop raw declared [] = Inr (ids, calls)" and v': "v' = VArr calls"
    by (auto simp: validateToolCalls_def returns_iff split: any.splits)
  show thesis using that [OF v'] validateToolCalls_loop_ok [OF loop] raw by (auto simp: len_def Suc_le_eq)
qed

lemma validOptionalName_put: "k \<noteq> ''name'' \<Longrightarrow> validOptionalName (put k v m) = validOptionalName m"
  by (simp add: validOptionalName_def map_of_put)

lemma no_calls: "onlyKeys m ks \<Longrightarrow> ''tool_calls'' \<notin> set ks \<Longrightarrow> calls_of (VObj m) = []"
  by (auto simp: calls_of_def index_def onlyKeys_iff split: option.splits dest!: map_of_SomeD)

lemma onlyKeys_butlast: "onlyKeys m (ks @ [k]) \<Longrightarrow> map_of m k = None \<Longrightarrow> onlyKeys m ks"
  by (induction m) (auto simp: onlyKeys_def split: if_splits)

lemma validateAssistant_ok:
  assumes "validateAssistant m declared = Inr (ids, m')" "index m ''role'' = VStr ''assistant''"
  shows "message_ok declared (VObj m') \<and> distinct (map call_id (calls_of (VObj m'))) \<and> set ids = call_id ` set (calls_of (VObj m'))"
proof -
  from assms(1) have keys: "onlyKeys m [''role'', ''content'', ''name'', ''tool_calls'']" "validOptionalName m"
    and content: "index m ''content'' = VNil \<or> validText (index m ''content'')"
    by (auto simp: validateAssistant_def returns_iff Let_def index_def split: option.splits)
  show ?thesis
  proof (cases "map_of m ''tool_calls''")
    case None
    with assms(1) have m': "m' = m" "ids = []" "validText (index m ''content'')"
      by (auto simp: validateAssistant_def returns_iff Let_def index_def split: option.splits)
    have "onlyKeys m [''role'', ''content'', ''name'']"
      using keys(1) None onlyKeys_butlast [of m "[''role'', ''content'', ''name'']" "''tool_calls''"] by simp
    with m' assms(2) keys no_calls [of m "[''role'', ''content'', ''name'']"] show ?thesis by (auto intro: message_ok.answer)
  next
    case (Some raw)
    with assms(1) obtain calls' where v: "validateToolCalls raw declared = Inr (ids, calls')" "m' = put ''tool_calls'' calls' m"
      by (auto simp: validateAssistant_def returns_iff Let_def)
    from validateToolCalls_ok [OF v(1)] obtain cs where cs: "calls' = VArr cs" "1 \<le> len cs" "len cs \<le> maxToolCalls"
      "list_all (call_ok declared) cs" "distinct (map call_id cs)" "set ids = call_id ` set cs" .
    have "message_ok declared (VObj m')"
      using keys content assms(2) cs unfolding v(2)
      by (intro message_ok.calls [where cs = cs]) (auto simp: onlyKeys_put validOptionalName_put map_of_put)
    with cs show ?thesis by (simp add: v(2) calls_of_def)
  qed
qed

lemma validateMessage_ok:
  assumes "validateMessage m declared = Inr (ids, m')"
  shows "message_ok declared (VObj m') \<and> distinct (map call_id (calls_of (VObj m'))) \<and> set ids = call_id ` set (calls_of (VObj m'))"
proof -
  from assms obtain role where role: "index m ''role'' = VStr role" by (auto simp: validateMessage_def split: any.splits)
  consider "role = ''system''" | "role = ''user''" | "role = ''assistant''" | "role = ''tool''"
    using assms role by (auto simp: validateMessage_def split: if_splits)
  then show ?thesis
  proof cases
    case 1
    with assms role no_calls [of m "[''role'', ''content'', ''name'']"] show ?thesis
      by (auto simp: validateMessage_def returns_iff intro: message_ok.system)
  next
    case 2
    with assms role no_calls [of m "[''role'', ''content'', ''name'']"] show ?thesis
      by (auto simp: validateMessage_def returns_iff intro: message_ok.user)
  next
    case 3
    with assms role validateAssistant_ok [of m declared ids m'] show ?thesis by (simp add: validateMessage_def)
  next
    case 4
    with assms role no_calls [of m "[''role'', ''content'', ''tool_call_id'']"] show ?thesis
      by (auto simp: validateMessage_def returns_iff intro: message_ok.tool split: any.splits)
  qed
qed

lemma conversation_ids_Cons: "conversation_ids (v # ms) = map call_id (calls_of v) @ conversation_ids ms"
  by (simp add: conversation_ids_def)

lemma validateMessages_loop_ok:
  assumes "validateMessages_loop ms declared ids = Inr (ids', ms')"
  shows "list_all (message_ok declared) ms' \<and> length ms' = length ms \<and> distinct (conversation_ids ms')
    \<and> set ids \<inter> set (conversation_ids ms') = {} \<and> set ids' = set ids \<union> set (conversation_ids ms')"
  using assms
proof (induction ms declared ids arbitrary: ids' ms' rule: validateMessages_loop.induct)
  case (2 message ms declared ids)
  from 2(2) obtain new message' ms1 where m: "validateMessage message declared = Inr (new, message')"
    and fresh: "set new \<inter> set ids = {}" and rest: "validateMessages_loop ms declared (new @ ids) = Inr (ids', ms1)"
    and ms': "ms' = VObj message' # ms1"
    by (fastforce simp: returns_iff list_ex_iff)
  have IH: "list_all (message_ok declared) ms1 \<and> length ms1 = length ms \<and> distinct (conversation_ids ms1)
    \<and> set (new @ ids) \<inter> set (conversation_ids ms1) = {} \<and> set ids' = set (new @ ids) \<union> set (conversation_ids ms1)"
    using 2(1) [OF m refl _ rest] fresh by (auto simp: list_ex_iff)
  show ?case using IH validateMessage_ok [OF m] fresh by (auto simp: ms' conversation_ids_Cons)
qed (auto simp: conversation_ids_def)

lemma validateMessages_ok:
  assumes "validateMessages v declared = Inr (ids, v')"
  shows "conversation_ok declared v'"
proof -
  from assms obtain raw ms where raw: "v = VArr raw" "len raw \<noteq> 0" "len raw \<le> maxMessages"
    and loop: "validateMessages_loop raw declared [] = Inr (ids, ms)" and v': "v' = VArr ms"
    and known: "list_all (tool_result_known ids) ms"
    by (auto simp: validateMessages_def returns_iff split: any.splits)
  note ok = validateMessages_loop_ok [OF loop]
  have "tool_result_known ids = tool_result_known (conversation_ids ms)"
    using ok by (simp add: tool_result_known_def fun_eq_iff split: any.splits)
  with ok raw v' known show ?thesis by (auto simp: conversation_ok_def len_def Suc_le_eq)
qed

section \<open>The request\<close>

lemma validateTools_ok:
  assumes "validateTools (map_of p ''tools'') = Inr (declared, tools')"
  shows "tools_ok (put_some ''tools'' tools' p) \<and> set (declared_tools (put_some ''tools'' tools' p)) = set declared \<and>
    (tools' = None \<longleftrightarrow> map_of p ''tools'' = None)"
proof (cases "map_of p ''tools''")
  case None
  with assms show ?thesis
    by (simp add: validateTools_def put_some_def tools_ok_def declared_tools_def index_def)
next
  case (Some v)
  with assms obtain tools where "tools' = Some (VArr tools)" "1 \<le> len tools" "len tools \<le> maxTools" "list_all bounded_tool tools"
    "sum_list (map tool_nodes tools) \<le> maxSchemaNodes" "set declared = tool_name ` set tools" "distinct (map tool_name tools)"
    using validateTools_Some by metis
  with Some show ?thesis by (simp add: put_some_def tools_ok_def declared_tools_def map_of_put)
qed

lemma conversation_ok_set:
  assumes "set declared = set declared'"
  shows "conversation_ok declared v = conversation_ok declared' v"
proof -
  have imp: "message_ok declared' m" if "message_ok declared m" and eq: "set declared = set declared'" for m declared declared'
    using that(1)
  proof cases
    case (calls m cs)
    have "call_ok declared = call_ok declared'" by (simp add: fun_eq_iff call_ok_def called_ok_def eq)
    with calls show ?thesis using message_ok.calls [of m cs declared'] by simp
  qed (simp_all add: message_ok.system message_ok.user message_ok.answer message_ok.tool)
  have "message_ok declared = message_ok declared'"
    using imp [OF _ assms] imp [OF _ assms [symmetric]] by (intro ext iffI)
  then show ?thesis by (simp add: conversation_ok_def)
qed

lemma validateToolChoice_ok:
  assumes "validateToolChoice (map_of p ''tool_choice'') declared = Inr ()" "map_of p ''tool_choice'' = Some choice"
  shows "(\<exists>s \<in> {''auto'', ''none'', ''required''}. choice = VStr s) \<or>
    (\<exists>c f. choice = VObj c \<and> index c ''function'' = VObj f \<and> (\<exists>name \<in> set declared. index f ''name'' = VStr name))"
  using assms by (auto simp: validateToolChoice_def returns_iff split: any.splits)

lemma optionalNumberInRange_put: "k \<noteq> k' \<Longrightarrow> optionalNumberInRange (put k' v m) k lo hi = optionalNumberInRange m k lo hi"
  by (simp add: optionalNumberInRange_def map_of_put)

lemma validSampling_put: "k \<in> {''messages'', ''tools''} \<Longrightarrow> validSampling (put k v m) = validSampling m"
  by (auto simp: validSampling_def optionalNumberInRange_put)

lemma validateChatPayload_bounded:
  assumes "validateChatPayload p = Inr p'"
  shows "bounded_chat p'"
proof -
  from assms obtain declared tools' ids messages' n where
    head: "onlyKeys p topLevelChatKeys" "index p ''model'' = VStr LogicalModelID"
      "integer (index p ''max_tokens'') = Some n" "1 \<le> n" "n \<le> 4096" "validSampling p" and
    tools: "validateTools (map_of p ''tools'') = Inr (declared, tools')" and
    messages: "validateMessages (index p ''messages'') declared = Inr (ids, messages')" and
    choice: "validateToolChoice (map_of p ''tool_choice'') declared = Inr ()" and
    p': "p' = put ''messages'' messages' (put_some ''tools'' tools' p)"
    unfolding validateChatPayload_def returns_iff by (auto simp: returns_iff not_less split: option.splits)
  note t = validateTools_ok [OF tools]
  have "conversation_ok (declared_tools p') messages'"
    using validateMessages_ok [OF messages] t conversation_ok_set [of "declared_tools p'" declared messages']
    by (simp add: p' declared_tools_def)
  moreover have "onlyKeys p' topLevelChatKeys" using head(1) by (auto simp: p' put_some_def onlyKeys_put topLevelChatKeys_def split: option.splits)
  moreover have "tools_ok p'" using t by (simp add: p' tools_ok_def map_of_put)
  ultimately show ?thesis
    using head validateToolChoice_ok [OF choice] t
    by (auto simp: bounded_chat_def p' put_some_def validSampling_put declared_tools_def map_of_put split: option.splits)
qed

text \<open>
  C16: Every chat request that the router accepts for forwarding is within the bounded schema, as a
  whole and after the changes the validator makes to it: known top-level members, the logical
  model, 1 to 4096 tokens, sampling in range, at most 32 tools with at most 128 schema nodes
  together, at most 128 messages of the four roles, and a closed conversation, in which every tool
  call names a declared tool, carries a canonical argument object without secrets and has an
  identifier of its own, and every tool result answers one of the calls.
\<close>

theorem chatPayload_bounded: "validateChatPayload p = Inr p' \<Longrightarrow> bounded_chat p'"
  by (rule validateChatPayload_bounded)

definition demo_payload :: members where
  "demo_payload =
     [(''max_tokens'', VFloat False 256),
      (''messages'', VArr
        [VObj [(''content'', VStr ''find x''), (''role'', VStr ''user'')],
         VObj [(''content'', VNil), (''role'', VStr ''assistant''), (''tool_calls'', VArr
           [VObj [(''function'', VObj [(''arguments'', VStr demo_arguments), (''name'', VStr ''lookup'')]),
                  (''id'', VStr ''c1''), (''type'', VStr ''function'')]])],
         VObj [(''content'', VStr ''found''), (''role'', VStr ''tool''), (''tool_call_id'', VStr ''c1'')]]),
      (''model'', VStr LogicalModelID),
      (''tools'', demo_tools)]"

theorem chatPayload_bounded_witness: "\<exists>p'. validateChatPayload demo_payload = Inr p' \<and> bounded_chat p'"
proof -
  have "case validateChatPayload demo_payload of Inr _ \<Rightarrow> True | Inl _ \<Rightarrow> False" by code_simp
  then obtain p' where "validateChatPayload demo_payload = Inr p'" by (auto split: sum.splits)
  with chatPayload_bounded [OF this] show ?thesis by blast
qed

text \<open>
  The comment above the second loop of \<open>validateMessages\<close> says that a tool result may refer only to a
  call that is present earlier in the body. The loop looks the identifier up among the calls of the
  whole conversation, so a result in front of its call is accepted.
\<close>

definition result_first :: any where
  "result_first = VArr
     [VObj [(''content'', VStr ''found''), (''role'', VStr ''tool''), (''tool_call_id'', VStr ''c1'')],
      VObj [(''role'', VStr ''assistant''), (''tool_calls'', VArr
        [VObj [(''function'', VObj [(''arguments'', VStr ''{}''), (''name'', VStr ''lookup'')]), (''id'', VStr ''c1''), (''type'', VStr ''function'')]])]]"

lemma tool_result_before_call: "validateMessages result_first [''lookup''] = Inr ([''c1''], result_first)"
  by code_simp

end
