(* ===== verification/ResponseCopy.thy ===== *)
theory ResponseCopy
  imports RouterServe "HOL-Library.Sublist"
begin

text \<open>
  The bounded copy of the upstream response against its specification. The transport cuts the body
  into reads of any size, the error of a read comes with its last bytes or without any, and the
  client may take less than it is given; the specification sees only the text of the stream and
  how it ends.
\<close>

fun stream_text :: "reads \<Rightarrow> string" where
  "stream_text [] = []"
| "stream_text ((c, e) # rs) = c @ (if e = ReadOK then stream_text rs else [])"

fun stream_end :: "reads \<Rightarrow> copy_err option" where
  "stream_end [] = None"
| "stream_end ((c, e) # rs) = (case read_end e of None \<Rightarrow> stream_end rs | Some result \<Rightarrow> result)"

text \<open>A client that takes everything.\<close>

definition accepting :: client_writer where
  "accepting sent p = (length p, None)"

text \<open>One read takes a part of the text and leaves the rest of the stream.\<close>

lemma read_into_stream:
  assumes "read_into n (r # rs) = (p, e, rest)" "0 \<le> n"
  shows "stream_text (r # rs) = p @ (if e = ReadOK then stream_text rest else [])"
    "stream_end (r # rs) = (case read_end e of None \<Rightarrow> stream_end rest | Some result \<Rightarrow> result)"
    "len p \<le> n"
  using assms by (cases r; auto simp: len_def read_end_def split: if_splits read_err.splits)+

lemma read_end_None [simp]: "read_end e = None \<longleftrightarrow> e = ReadOK"
  by (simp add: read_end_def split: read_err.splits)

lemma read_into_progress:
  "read_into n (r # rs) = (p, e, rest) \<Longrightarrow> 0 < n \<Longrightarrow>
     sum_list (map (\<lambda>(c, e). Suc (length c)) rest) < sum_list (map (\<lambda>(c, e). Suc (length c)) (r # rs))"
  by (cases r) (auto simp: len_def split: if_splits)

lemma take_len: "len p \<le> n \<Longrightarrow> take (nat n) (p @ q) = p @ take (nat (n - len p)) q"
  by (simp add: len_def nat_diff_distrib)

lemma copy_loop_prefix:
  "0 \<le> remaining \<Longrightarrow> prefix (snd (copy_loop W rs remaining sent)) (sent @ take (nat remaining) (stream_text rs))"
proof (induction "sum_list (map (\<lambda>(c, e). Suc (length c)) rs)" arbitrary: rs remaining sent rule: less_induct)
  case less
  show ?case
  proof (cases rs)
    case (Cons r rs')
    define n where "n = (if remaining \<le> 0 then 1 else min bufferSize remaining)"
    have n: "0 < n" using less.prems by (simp add: n_def bufferSize_def)
    obtain p e rest where r: "read_into n (r # rs') = (p, e, rest)" by (cases "read_into n (r # rs')") auto
    note st = read_into_stream [OF r order_less_imp_le [OF n]]
    have IH: "prefix (snd (copy_loop W rest k s)) (s @ take (nat k) (stream_text rest))" if "0 \<le> k" for k s
      using less.hyps [OF _ that, of rest] read_into_progress [OF r n] Cons by simp
    show ?thesis
    proof (cases "remaining \<le> 0")
      case True
      with r IH [of remaining sent] less.prems show ?thesis
        by (auto simp: Cons n_def st split: option.splits)
    next
      case False
      with st(3) have le: "len p \<le> remaining" by (simp add: n_def)
      have tk: "take (nat remaining) (stream_text rs) = p @ take (nat (remaining - len p)) (if e = ReadOK then stream_text rest else [])"
        unfolding Cons st(1) by (rule take_len [OF le])
      have part: "prefix (sent @ take w p) (sent @ p @ q)" for w q
        by (simp add: take_is_prefix prefix_order.trans [OF take_is_prefix])
      show ?thesis
        using False r IH [of remaining sent] IH [of "remaining - len p" "sent @ p"] le part
        unfolding tk by (cases "W sent p") (auto simp: Cons n_def len_def take_is_prefix split: option.splits)
    qed
  qed simp
qed

lemma copy_loop_exact:
  "0 \<le> remaining \<Longrightarrow> copy_loop accepting rs remaining sent =
     (if len (stream_text rs) > remaining then (Some LimitExceeded, sent @ take (nat remaining) (stream_text rs))
      else (stream_end rs, sent @ stream_text rs))"
proof (induction "sum_list (map (\<lambda>(c, e). Suc (length c)) rs)" arbitrary: rs remaining sent rule: less_induct)
  case less
  show ?case
  proof (cases rs)
    case (Cons r rs')
    define n where "n = (if remaining \<le> 0 then 1 else min bufferSize remaining)"
    have n: "0 < n" using less.prems by (simp add: n_def bufferSize_def)
    obtain p e rest where r: "read_into n (r # rs') = (p, e, rest)" by (cases "read_into n (r # rs')") auto
    note st = read_into_stream [OF r order_less_imp_le [OF n]]
    have IH: "copy_loop accepting rest k s = (if len (stream_text rest) > k then (Some LimitExceeded, s @ take (nat k) (stream_text rest))
        else (stream_end rest, s @ stream_text rest))" if "0 \<le> k" for k s
      using less.hyps [OF _ that, of rest] read_into_progress [OF r n] Cons by simp
    show ?thesis
    proof (cases "remaining \<le> 0")
      case True
      with less.prems have "remaining = 0" by simp
      with r IH [of 0 sent] show ?thesis
        by (cases e) (auto simp: Cons n_def st len_def read_end_def add_pos_nonneg)
    next
      case False
      with st(3) have le: "len p \<le> remaining" by (simp add: n_def)
      have tk: "take (nat remaining) (p @ q) = p @ take (nat (remaining - len p)) q" for q by (rule take_len [OF le])
      show ?thesis
        using False r IH [of remaining sent] IH [of "remaining - len p" "sent @ p"] le
        by (cases e) (auto simp: Cons n_def st tk len_def accepting_def read_end_def nat_diff_distrib)
    qed
  qed (use less.prems in \<open>simp add: len_def\<close>)
qed

text \<open>
  A client that takes every write gets the upstream text as it is when it is within the limit, with
  the error the stream ended with if any; of a longer text it gets exactly the bytes up to the
  limit and the error that the limit was exceeded. Any other client, however it fails, has
  received a prefix of the upstream text no longer than the limit.
\<close>

lemma copyBounded_exact:
  "copyBoundedAndFlush accepting src limit =
     (if limit \<le> 0 \<or> len (stream_text src) > limit then (Some LimitExceeded, take (nat limit) (stream_text src))
      else (stream_end src, stream_text src))"
  using copy_loop_exact [of limit src "[]"] by (auto simp: copyBoundedAndFlush_def)

lemma copyBounded_prefix: "prefix (snd (copyBoundedAndFlush W src limit)) (take (nat limit) (stream_text src))"
  using copy_loop_prefix [of limit W src "[]"] by (auto simp: copyBoundedAndFlush_def)

lemma stream_end_not_limit: "stream_end src \<noteq> Some LimitExceeded"
  by (induction src rule: stream_end.induct) (auto simp: read_end_def split: option.splits read_err.splits)

text \<open>The fields of the reply.\<close>

lemma chat_headers_fields:
  "dom (chat_headers resp) \<subseteq> {''Content-Type'', ''Cache-Control'', ''X-Request-Id'', ''X-Content-Type-Options'', ''Trailer''}"
  "chat_headers resp ''X-Request-Id'' =
     (let requestID = Header_Get (rs_Header resp) ''X-Request-Id'' in if safeUpstreamRequestID requestID then Some requestID else None)"
  "chat_headers resp ''X-Provider-Runpod-Error'' = None"
  by (simp_all add: chat_headers_def Let_def)

lemma chat_reply_fields:
  "re_Status (chat_reply W rd resp) = rs_StatusCode resp"
  "re_Body (chat_reply W rd resp) = snd (copyBoundedAndFlush W (rd resp) maxResponseBytes)"
  "re_Header (chat_reply W rd resp) = (chat_headers resp)(''X-Provider-Runpod-Error'' :=
     map_option (\<lambda>err. if err = LimitExceeded then ''response-limit-exceeded'' else ''upstream-read-failed'')
       (fst (copyBoundedAndFlush W (rd resp) maxResponseBytes)))"
proof -
  obtain e body where c: "copyBoundedAndFlush W (rd resp) maxResponseBytes = (e, body)" by fastforce
  have "(chat_headers resp)(''X-Provider-Runpod-Error'' := None) = chat_headers resp"
    using chat_headers_fields(3) [of resp] by (simp add: fun_upd_idem)
  with c show "re_Status (chat_reply W rd resp) = rs_StatusCode resp"
    "re_Body (chat_reply W rd resp) = snd (copyBoundedAndFlush W (rd resp) maxResponseBytes)"
    "re_Header (chat_reply W rd resp) = (chat_headers resp)(''X-Provider-Runpod-Error'' :=
      map_option (\<lambda>err. if err = LimitExceeded then ''response-limit-exceeded'' else ''upstream-read-failed'')
        (fst (copyBoundedAndFlush W (rd resp) maxResponseBytes)))"
    by (cases e; simp add: chat_reply_def)+
qed

lemma reply_header:
  "dom (re_Header (chat_reply W rd resp)) \<subseteq>
     {''X-Provider-Runpod-Error'', ''Content-Type'', ''Cache-Control'', ''X-Request-Id'', ''X-Content-Type-Options'', ''Trailer''}"
  "re_Header (chat_reply W rd resp) ''X-Request-Id'' =
     (let requestID = Header_Get (rs_Header resp) ''X-Request-Id'' in if safeUpstreamRequestID requestID then Some requestID else None)"
proof -
  have upd: "dom (m(k := e)) \<subseteq> insert k (dom m)" for m :: "string \<Rightarrow> string option" and k e by auto
  show "dom (re_Header (chat_reply W rd resp)) \<subseteq>
     {''X-Provider-Runpod-Error'', ''Content-Type'', ''Cache-Control'', ''X-Request-Id'', ''X-Content-Type-Options'', ''Trailer''}"
    unfolding chat_reply_fields by (rule subset_trans [OF upd insert_mono [OF chat_headers_fields(1)]])
  show "re_Header (chat_reply W rd resp) ''X-Request-Id'' =
     (let requestID = Header_Get (rs_Header resp) ''X-Request-Id'' in if safeUpstreamRequestID requestID then Some requestID else None)"
    using chat_headers_fields(2) [of resp] by (simp add: chat_reply_fields)
qed

lemma reply_full:
  "re_Body (chat_reply accepting rd resp) = take (nat maxResponseBytes) (stream_text (rd resp))"
  "re_Header (chat_reply accepting rd resp) ''X-Provider-Runpod-Error'' =
     (if len (stream_text (rd resp)) > maxResponseBytes then Some ''response-limit-exceeded''
      else if stream_end (rd resp) = None then None else Some ''upstream-read-failed'')"
proof -
  have pos: "\<not> maxResponseBytes \<le> 0" by (simp add: maxResponseBytes_def)
  have all: "take (nat maxResponseBytes) t = t" if "\<not> len t > maxResponseBytes" for t :: string
    using that by (simp add: len_def)
  show "re_Body (chat_reply accepting rd resp) = take (nat maxResponseBytes) (stream_text (rd resp))"
    using all [of "stream_text (rd resp)"] pos by (simp add: chat_reply_fields copyBounded_exact)
  show "re_Header (chat_reply accepting rd resp) ''X-Provider-Runpod-Error'' =
     (if len (stream_text (rd resp)) > maxResponseBytes then Some ''response-limit-exceeded''
      else if stream_end (rd resp) = None then None else Some ''upstream-read-failed'')"
    using stream_end_not_limit [of "rd resp"] chat_headers_fields(3) [of resp] pos
    by (cases "stream_end (rd resp)") (simp_all add: chat_reply_fields copyBounded_exact)
qed

text \<open>
  C18: The reply to a proxied request relays the upstream response and nothing else. Any client has
  received a prefix of the upstream body of at most 32 MiB, under the upstream status, with no
  upstream header but the content type and a request identifier of safe characters. A client that
  takes every write has the whole body if the trailer reports no error; the trailer reports a
  body above the limit, of which the client has exactly the first 32 MiB, and a stream that failed.
\<close>

theorem reply_exact:
  "let limit = 32 * 1024 * 1024; text = stream_text (rd resp); rep = chat_reply W rd resp; full = chat_reply accepting rd resp;
       requestID = Header_Get (rs_Header resp) ''X-Request-Id''
   in re_Status rep = rs_StatusCode resp \<and> prefix (re_Body rep) (take (nat limit) text) \<and>
      dom (re_Header rep) \<subseteq> {''X-Provider-Runpod-Error'', ''Content-Type'', ''Cache-Control'', ''X-Request-Id'', ''X-Content-Type-Options'', ''Trailer''} \<and>
      re_Header rep ''X-Request-Id'' = (if safeUpstreamRequestID requestID then Some requestID else None) \<and>
      re_Body full = take (nat limit) text \<and>
      re_Header full ''X-Provider-Runpod-Error'' =
        (if len text > limit then Some ''response-limit-exceeded''
         else if stream_end (rd resp) = None then None else Some ''upstream-read-failed'')"
  using copyBounded_prefix [of W "rd resp" maxResponseBytes] reply_header [of W rd resp] reply_full [of rd resp]
  unfolding Let_def chat_reply_fields maxResponseBytes_def by simp

end
