(* ===== verification/CredentialPattern.thy ===== *)
theory CredentialPattern
  imports RouterRequest
begin

text \<open>
  The credential filter of \<open>internal/router/router.go\<close> against the regular expression it is compiled
  from. A small syntax of expressions has its language as a predicate; the expression of the source
  is transcribed term by term (folded to upper case, for the flag \<open>(?i)\<close>), and the matcher of the
  model finds a match exactly when a part of the text is in the language.
\<close>

section \<open>Expressions and their language\<close>

datatype rx =
    Lit string
  | Repeat "char \<Rightarrow> bool" nat "nat option"
  | Then rx rx
  | OneOf "rx list"

fun lang :: "rx \<Rightarrow> string \<Rightarrow> bool" where
  "lang (Lit p) w = (w = p)"
| "lang (Repeat P n m) w = (list_all P w \<and> n \<le> length w \<and> (case m of None \<Rightarrow> True | Some k \<Rightarrow> length w \<le> k))"
| "lang (Then a b) w = (\<exists>u v. w = u @ v \<and> lang a u \<and> lang b v)"
| "lang (OneOf rs) w = (\<exists>r \<in> set rs. lang r w)"

definition credential_rx :: rx where
  "credential_rx = OneOf
     [Then (Lit ''BEARER'') (Then (Repeat posix_space 1 None) (Repeat bearer_char 8 None)),
      Then (Lit ''RPA_'') (Repeat dash_char 8 None),
      Then (Lit ''GITHUB_PAT_'') (Repeat word_char 20 None),
      Then (Lit ''GH'') (Then (Repeat (\<lambda>c. c \<in> set ''POUSR'') 1 (Some 1)) (Then (Lit ''_'') (Repeat word_char 20 None))),
      Then (Lit ''GLPAT-'') (Repeat dash_char 20 None),
      Then (Lit ''AKIA'') (Repeat upper_alnum 16 (Some 16)),
      Then (Lit ''-----BEGIN '') (Then (OneOf [Lit [], Lit ''RSA '', Lit ''EC '', Lit ''OPENSSH '']) (Lit ''PRIVATE KEY-----'')),
      Then (Lit ''EYJ'') (Then (Repeat dash_char 10 None) (Then (Lit ''.'')
        (Then (Repeat dash_char 10 None) (Then (Lit ''.'') (Repeat dash_char 10 None)))))]"

section \<open>A match at the start of a text\<close>

definition starts :: "rx \<Rightarrow> string \<Rightarrow> bool" where
  "starts r s \<longleftrightarrow> (\<exists>m post. s = m @ post \<and> lang r m)"

named_theorems starts_iff \<open>a match at the start of a text, by the form of the expression\<close>

declare HasPrefix.simps [simp del]

lemma after_iff: "after p s k \<longleftrightarrow> (\<exists>t. s = p @ t \<and> k t)"
  by (auto simp: after_def HasPrefix_iff)

lemma starts_Lit [starts_iff]: "starts (Lit p) s \<longleftrightarrow> HasPrefix s p"
  by (auto simp: starts_def HasPrefix_iff)

lemma starts_Then: "starts (Then a r) s \<longleftrightarrow> (\<exists>u t. s = u @ t \<and> lang a u \<and> starts r t)"
proof
  assume "starts (Then a r) s"
  then obtain u v post where "s = u @ v @ post" "lang a u" "lang r v" by (auto simp: starts_def)
  then show "\<exists>u t. s = u @ t \<and> lang a u \<and> starts r t" unfolding starts_def by blast
next
  assume "\<exists>u t. s = u @ t \<and> lang a u \<and> starts r t"
  then obtain u v post where "s = (u @ v) @ post" "lang a u" "lang r v" by (auto simp: starts_def)
  then show "starts (Then a r) s" unfolding starts_def lang.simps by blast
qed

lemma starts_Lit_Then [starts_iff]: "starts (Then (Lit p) r) s \<longleftrightarrow> after p s (starts r)"
  by (auto simp: starts_Then after_iff)

lemma starts_OneOf [starts_iff]: "starts (OneOf rs) s \<longleftrightarrow> list_ex (\<lambda>r. starts r s) rs"
  by (auto simp: starts_def list_ex_iff)

lemma starts_OneOf_Then [starts_iff]: "starts (Then (OneOf rs) r) s \<longleftrightarrow> list_ex (\<lambda>a. starts (Then a r) s) rs"
  by (auto simp: starts_Then list_ex_iff)

lemma run_of_iff: "run_of P n s \<longleftrightarrow> (\<exists>m post. s = m @ post \<and> list_all P m \<and> length m = n)"
proof
  assume "run_of P n s"
  then have "list_all P (take n (takeWhile P s))" "length (take n (takeWhile P s)) = n"
    by (auto simp: run_of_def list_all_iff dest!: in_set_takeD set_takeWhileD)
  moreover have "s = take n (takeWhile P s) @ drop n (takeWhile P s) @ dropWhile P s" by (metis append.assoc append_take_drop_id takeWhile_dropWhile_id)
  ultimately show "\<exists>m post. s = m @ post \<and> list_all P m \<and> length m = n" by blast
qed (auto simp: run_of_def list_all_iff takeWhile_append)

lemma starts_Repeat [starts_iff]:
  assumes "m = None \<or> m = Some n"
  shows "starts (Repeat P n m) s \<longleftrightarrow> run_of P n s"
proof
  assume "starts (Repeat P n m) s"
  then obtain w post where w: "s = w @ post" "list_all P w" "n \<le> length w" by (auto simp: starts_def)
  then have "s = take n w @ drop n w @ post" "list_all P (take n w)" "length (take n w) = n"
    by (auto simp: list_all_iff dest: in_set_takeD)
  then show "run_of P n s" unfolding run_of_iff by blast
next
  assume "run_of P n s"
  with assms show "starts (Repeat P n m) s" unfolding starts_def run_of_iff by auto
qed

text \<open>Before something that starts with a character outside the class a repetition is maximal.\<close>

definition opens_outside :: "(char \<Rightarrow> bool) \<Rightarrow> rx \<Rightarrow> bool" where
  "opens_outside P r \<longleftrightarrow> (\<forall>w. lang r w \<longrightarrow> w \<noteq> [] \<and> \<not> P (hd w))"

lemma starts_Repeat_Then:
  assumes "opens_outside P r"
  shows "starts (Then (Repeat P n None) r) s \<longleftrightarrow> run_of P n s \<and> starts r (dropWhile P s)"
proof
  assume "starts (Then (Repeat P n None) r) s"
  then obtain u t where u: "s = u @ t" "list_all P u" "n \<le> length u" "starts r t" by (auto simp: starts_Then)
  with assms obtain c cs where t: "t = c # cs" "\<not> P c"
    by (cases t) (auto simp: opens_outside_def starts_def Cons_eq_append_conv)
  have "takeWhile P s = u" "dropWhile P s = t" using u t by (auto simp: list_all_iff takeWhile_append dropWhile_append)
  with u show "run_of P n s \<and> starts r (dropWhile P s)" by (simp add: run_of_def)
next
  assume "run_of P n s \<and> starts r (dropWhile P s)"
  moreover have "list_all P (takeWhile P s)" by (auto simp: list_all_iff dest: set_takeWhileD)
  ultimately show "starts (Then (Repeat P n None) r) s"
    unfolding starts_Then by (intro exI [of _ "takeWhile P s"] exI [of _ "dropWhile P s"]) (simp add: run_of_def)
qed

lemma opens_Lit: "p \<noteq> [] \<Longrightarrow> \<not> P (hd p) \<Longrightarrow> opens_outside P (Then (Lit p) r)"
  by (auto simp: opens_outside_def)

lemma opens_Repeat: "0 < n \<Longrightarrow> (\<And>c. Q c \<Longrightarrow> \<not> P c) \<Longrightarrow> opens_outside P (Repeat Q n m)"
  unfolding opens_outside_def
proof (intro allI impI)
  fix w
  assume "0 < n" "\<And>c. Q c \<Longrightarrow> \<not> P c" "lang (Repeat Q n m) w"
  then show "w \<noteq> [] \<and> \<not> P (hd w)" by (cases w) auto
qed

lemma starts_one [starts_iff]: "starts (Then (Repeat (\<lambda>c. c \<in> set cs) 1 (Some 1)) r) s \<longleftrightarrow> list_ex (\<lambda>c. after [c] s (starts r)) cs"
proof -
  have "lang (Repeat (\<lambda>c. c \<in> set cs) 1 (Some 1)) u \<longleftrightarrow> (\<exists>c \<in> set cs. u = [c])" for u
    by (cases u; cases "tl u") auto
  then have "starts (Then (Repeat (\<lambda>c. c \<in> set cs) 1 (Some 1)) r) s \<longleftrightarrow> (\<exists>c \<in> set cs. \<exists>t. s = [c] @ t \<and> starts r t)"
    unfolding starts_Then by metis
  then show ?thesis unfolding after_iff list_ex_iff .
qed

section \<open>The filter\<close>

lemma bearer_not_space: "bearer_char c \<Longrightarrow> \<not> posix_space c"
  by (auto simp: bearer_char_def posix_space_def upper_alnum_def is_digit_def is_upper_def less_eq_char_def)

lemma dot_not_dash: "\<not> dash_char (CHR ''.'')"
  by code_simp

lemma after_after: "after p s (\<lambda>t. after q t k) \<longleftrightarrow> after (p @ q) s k"
  by (auto simp: after_iff)

lemma credential_at_starts: "credential_at s \<longleftrightarrow> starts credential_rx s"
proof -
  have tail: "starts (Then (Repeat dash_char 10 None) (Then (Lit ''.'') r)) t \<longleftrightarrow> jwt_tail (starts r) t" for r t
    using starts_Repeat_Then [OF opens_Lit, of "''.''" dash_char 10 r t] dot_not_dash
    by (simp add: jwt_tail_def starts_Lit_Then)
  have bearer: "starts (Then (Repeat posix_space 1 None) (Repeat bearer_char 8 None)) t \<longleftrightarrow>
      run_of posix_space 1 t \<and> run_of bearer_char 8 (dropWhile posix_space t)" for t
    using starts_Repeat_Then [OF opens_Repeat, of 8 bearer_char posix_space 1 None t] bearer_not_space
    by (simp add: starts_iff)
  have github: "starts (Then (Lit ''GH'') (Then (Repeat (\<lambda>c. c \<in> set ''POUSR'') 1 (Some 1)) (Then (Lit ''_'') (Repeat word_char 20 None)))) s
      \<longleftrightarrow> github_token s"
    unfolding starts_Lit_Then starts_one github_token_def by (auto simp: starts_iff after_iff list_ex_iff)
  have header: "starts (Then (Lit ''-----BEGIN '') (Then (OneOf [Lit [], Lit ''RSA '', Lit ''EC '', Lit ''OPENSSH '']) (Lit ''PRIVATE KEY-----''))) s
      \<longleftrightarrow> private_key_header s"
    unfolding private_key_header_def by (auto simp: starts_iff after_iff HasPrefix_iff)
  have tails: "starts (Then (Repeat dash_char 10 None) (Then (Lit ''.'') r)) = jwt_tail (starts r)" for r
    by (simp add: fun_eq_iff tail)
  have bearers: "starts (Then (Repeat posix_space 1 None) (Repeat bearer_char 8 None)) =
      (\<lambda>t. run_of posix_space 1 t \<and> run_of bearer_char 8 (dropWhile posix_space t))"
    unfolding fun_eq_iff using bearer by blast
  have rep: "starts (Repeat P n None) = run_of P n" "starts (Repeat P n (Some n)) = run_of P n" for P n
    by (simp_all add: fun_eq_iff starts_Repeat)
  show ?thesis
    unfolding credential_rx_def starts_OneOf list_ex_Cons_iff list_ex_Nil_iff github header
    unfolding starts_Lit_Then tails bearers rep credential_at_def by simp
qed

lemma somewhere_iff: "somewhere P s \<longleftrightarrow> (\<exists>pre t. s = pre @ t \<and> P t)"
proof (induction s)
  case (Cons c s)
  then show ?case by (auto simp: Cons_eq_append_conv)
qed simp

text \<open>
  C23: The credential filter that guards every request is the regular expression of the source: it
  reports a text exactly when some part of the text, up to letter case, is in the language of
  the expression with its eight alternatives.
\<close>

theorem credentialPattern_regex:
  "credentialPattern s \<longleftrightarrow> (\<exists>pre m post. foldName s = pre @ m @ post \<and> lang credential_rx m)"
  unfolding credentialPattern_def somewhere_iff credential_at_starts starts_def by auto

end
