(* ===== verification/RouterBoundary.thy ===== *)
theory RouterBoundary
  imports RouterServe ChatPayload ResponseCopy CredentialPattern
begin

text \<open>
  The router as a boundary between the clients in the cluster and RunPod: what a handled request
  can send upstream, what it can send back, and what it leaves behind. These properties put the
  handler together with the refresh of the route, the leases, the request schema and the response
  copy.
\<close>

section \<open>Upstream\<close>

lemma chat_upstream_body_Inr:
  assumes "chat_upstream_body req active = Inr body"
  obtains payload p' where "cq_ReadErr req = None" "len (cq_Body req) \<le> maxRequestBytes" "\<not> credentialPattern (cq_Body req)"
    "unmarshal_map (cq_Body req) = Some payload" "\<not> containsSecretKey (VObj payload)" "validateChatPayload payload = Inr p'"
    "\<not> credentialPattern (marshal_any (VObj p'))" "body = marshal_any (VObj (put ''model'' (VStr (ro_expectedModelID active)) p'))"
  using assms by (auto simp: chat_upstream_body_def not_less simp del: containsSecretKey.simps marshal_any.simps split: if_splits option.splits sum.splits)

definition chat_url :: "string \<Rightarrow> string" where
  "chat_url endpointID = ''https://api.runpod.ai/v2/'' @ PathEscape endpointID @ ''/openai/v1/chat/completions''"

lemma chat_request_url: "rq_URL (chat_request active body) = chat_url (ro_endpointID active)"
proof -
  have "TrimRight upstreamBase (CHR ''/'') = ''https://api.runpod.ai''" by code_simp
  then show ?thesis by (simp add: chat_request_def chat_url_def)
qed

lemma proxyChat_sends:
  assumes "proxyChat E W rd req active slots h = (rep, slots', h')"
  shows "slots' = slots \<and> (h' = h \<or> (\<exists>body. slots = 0 \<and> chat_upstream_body req active = Inr body
    \<and> env_NewRequest E MethodPost (rq_URL (chat_request active body)) = None \<and> h' = h @ [EvHTTP (chat_request active body)]))"
  using assms
  by (auto simp: proxyChat_def acquireInferenceSlot_def releaseInferenceSlot_def Let_def
      split: sum.splits prod.splits if_splits option.splits http_result.splits)

lemma serve_routed_sends:
  assumes "serve_routed E W rd req active slots h = (rep, slots', h')"
  shows "slots' = slots \<and> (h' = h \<or> (\<exists>body. slots = 0 \<and> cq_Method req = ''POST'' \<and> cq_Path req = ''/v1/chat/completions'' \<and>
    chat_upstream_body req active = Inr body \<and> env_NewRequest E MethodPost (rq_URL (chat_request active body)) = None \<and>
    h' = h @ [EvHTTP (chat_request active body)]))"
  using assms proxyChat_sends [of E W rd req active slots h rep slots' h']
  by (auto simp: serve_routed_def MethodPost_def split: if_splits)

lemma release_acquire: "acquire r = (r2, Some i) \<Longrightarrow> release i r2 = r"
  by (auto simp: acquire_def release_def update_lease_def split: option.splits if_splits)

lemma acquire_Some:
  assumes "acquire r = (r2, Some i)"
  shows "rr_active r = Some i" "le_route (rr_store r2 ! i) = le_route (rr_store r ! i)"
  using assms by (auto simp: acquire_def update_lease_def split: option.splits)

text \<open>The paths of the handler: an answer of its own, or a routed request between acquire and release.\<close>

lemma ServeHTTP_cases:
  assumes "ServeHTTP E x marshal ns W rd req r slots h = (rep, r', slots', h')"
  obtains (answered) "slots' = slots" "(r' = r \<and> h' = h) \<or> (r' = snd (fst (Refresh E x marshal ns r h)) \<and> h' = snd (Refresh E x marshal ns r h))"
  | (routed) r1 h1 i where "cq_RawQuery req = []" "Header_Get (cq_Header req) ''Authorization'' = []" "Header_Get (cq_Header req) ''X-Api-Key'' = []"
      "Refresh E x marshal ns r h = ((None, r1), h1)" "rr_active r1 = Some i" "r' = r1"
      "serve_routed E W rd req (le_route (rr_store r1 ! i)) slots h1 = (rep, slots', h')"
proof -
  consider "(r' = r \<and> slots' = slots \<and> h' = h)"
    | e r1 h1 where "Refresh E x marshal ns r h = ((Some e, r1), h1)" "r' = r1" "slots' = slots" "h' = h1"
    | r1 h1 r2 where "Refresh E x marshal ns r h = ((None, r1), h1)" "acquire r1 = (r2, None)" "r' = r2" "slots' = slots" "h' = h1"
    | r1 h1 r2 i where "cq_RawQuery req = []" "Header_Get (cq_Header req) ''Authorization'' = []" "Header_Get (cq_Header req) ''X-Api-Key'' = []"
        "Refresh E x marshal ns r h = ((None, r1), h1)" "acquire r1 = (r2, Some i)" "r' = release i r2"
        "serve_routed E W rd req (le_route (rr_store r2 ! i)) slots h1 = (rep, slots', h')"
    using assms by (auto simp: ServeHTTP_def split: if_splits prod.splits option.splits)
  then show thesis
  proof cases
    case 1
    with answered show ?thesis by simp
  next
    case 2
    with answered show ?thesis by simp
  next
    case 3
    moreover from 3(2) have "r2 = r1" by (auto simp: acquire_def split: option.splits)
    ultimately show ?thesis using answered by simp
  next
    case 4
    with acquire_Some [OF 4(5)] release_acquire [OF 4(5)] show ?thesis using routed by simp
  qed
qed

text \<open>
  C9: The router is a closed boundary. Whatever a client sends, all that a request adds to the
  trace after the refresh is at most one HTTP call, and that call is a POST to the chat URL of the
  endpoint that the refresh has just admitted, with the inference token of that route and no
  header of the client; its body is the canonical print of a bounded chat payload with the
  endpoint's model in place of the logical one. It happens only for a POST to the chat path,
  without query or client credentials, whose body was read without an error, has at most 256 KiB,
  is a JSON object without secret fields, has no credential-like text (nor has its canonical print)
  and passes the validation of the payload, when the refresh succeeded, the inference slot was free
  and the upstream request could be built.
\<close>

theorem serve_forwards:
  assumes "ServeHTTP E x marshal ns W rd req r slots h = (rep, r', slots', h')"
  shows "\<exists>refreshed sent. h' = refreshed @ sent \<and> refreshed \<in> {h, snd (Refresh E x marshal ns r h)} \<and>
    (sent = [] \<or>
     (\<exists>r1 i active payload p'.
        sent = [EvHTTP \<lparr>rq_Method = ''POST'', rq_URL = chat_url (ro_endpointID active),
          rq_Header = [(''Authorization'', ''Bearer '' @ ro_token active), (''Accept'', ''application/json, text/event-stream''),
                       (''Content-Type'', ''application/json'')],
          rq_Body = marshal_any (VObj (put ''model'' (VStr (ro_expectedModelID active)) p'))\<rparr>] \<and>
        Refresh E x marshal ns r h = ((None, r1), refreshed) \<and> rr_active r1 = Some i \<and> active = le_route (rr_store r1 ! i) \<and>
        slots = 0 \<and> cq_Method req = ''POST'' \<and> cq_Path req = ''/v1/chat/completions'' \<and> cq_RawQuery req = [] \<and>
        Header_Get (cq_Header req) ''Authorization'' = [] \<and> Header_Get (cq_Header req) ''X-Api-Key'' = [] \<and>
        cq_ReadErr req = None \<and> len (cq_Body req) \<le> 256 * 1024 \<and> unmarshal_map (cq_Body req) = Some payload \<and>
        \<not> containsSecretKey (VObj payload) \<and> \<not> credentialPattern (cq_Body req) \<and> \<not> credentialPattern (marshal_any (VObj p')) \<and>
        validateChatPayload payload = Inr p' \<and> bounded_chat p' \<and> env_NewRequest E ''POST'' (chat_url (ro_endpointID active)) = None))"
  using assms
proof (cases rule: ServeHTTP_cases)
  case answered
  then show ?thesis by (metis append_Nil2 insertCI)
next
  case (routed r1 h1 i)
  let ?active = "le_route (rr_store r1 ! i)"
  have h1: "h1 \<in> {h, snd (Refresh E x marshal ns r h)}" using routed(4) by simp
  from serve_routed_sends [OF routed(7)] consider "h' = h1"
    | body where "slots = 0" "cq_Method req = ''POST''" "cq_Path req = ''/v1/chat/completions''" "chat_upstream_body req ?active = Inr body"
        "env_NewRequest E MethodPost (rq_URL (chat_request ?active body)) = None" "h' = h1 @ [EvHTTP (chat_request ?active body)]" by blast
  then show ?thesis
  proof cases
    case 1
    with h1 show ?thesis by (intro exI [of _ h1] exI [of _ "[]"]) simp
  next
    case 2
    from 2(4) obtain payload p' where p: "cq_ReadErr req = None" "len (cq_Body req) \<le> maxRequestBytes" "\<not> credentialPattern (cq_Body req)"
      "unmarshal_map (cq_Body req) = Some payload" "\<not> containsSecretKey (VObj payload)" "validateChatPayload payload = Inr p'"
      "\<not> credentialPattern (marshal_any (VObj p'))" "body = marshal_any (VObj (put ''model'' (VStr (ro_expectedModelID ?active)) p'))"
      by (rule chat_upstream_body_Inr)
    have q: "[EvHTTP (chat_request ?active body)] = [EvHTTP \<lparr>rq_Method = ''POST'', rq_URL = chat_url (ro_endpointID ?active),
          rq_Header = [(''Authorization'', ''Bearer '' @ ro_token ?active), (''Accept'', ''application/json, text/event-stream''),
                       (''Content-Type'', ''application/json'')],
          rq_Body = marshal_any (VObj (put ''model'' (VStr (ro_expectedModelID ?active)) p'))\<rparr>]"
      using chat_request_url [of ?active body] by (simp add: chat_request_def MethodPost_def p(8))
    have new: "env_NewRequest E ''POST'' (chat_url (ro_endpointID ?active)) = None"
      using 2(5) chat_request_url [of ?active body] by (simp add: MethodPost_def)
    show ?thesis
      using 2 p p(2) [unfolded maxRequestBytes_def] routed h1 q new validateChatPayload_bounded [OF p(6)]
      by (intro exI [of _ h1] exI [of _ "[EvHTTP (chat_request ?active body)]"] conjI disjI2 exI [of _ r1] exI [of _ i] exI [of _ ?active]
          exI [of _ payload] exI [of _ p']) (assumption | rule refl)+
  qed
qed

text \<open>
  Every path of the handler gives back what it took: the inference slot is free again after the
  request if it was before, and the leases of the router are those that the refresh left, so
  neither a refused nor a failed request can block the drain of a route or the next request.
\<close>

theorem serve_balanced:
  "case ServeHTTP E x marshal ns W rd req r slots h of
     (rep, r', slots', h') \<Rightarrow> slots' = slots \<and> r' \<in> {r, snd (fst (Refresh E x marshal ns r h))}"
proof -
  obtain rep r' slots' h' where s: "ServeHTTP E x marshal ns W rd req r slots h = (rep, r', slots', h')" by (metis prod_cases4)
  then have "slots' = slots \<and> r' \<in> {r, snd (fst (Refresh E x marshal ns r h))}"
  proof (cases rule: ServeHTTP_cases)
    case (routed r1 h1 i)
    with serve_routed_sends [OF routed(7)] show ?thesis by simp
  qed auto
  with s show ?thesis by simp
qed

section \<open>A request\<close>

definition chat_post :: "string \<Rightarrow> client_request" where
  "chat_post body = \<lparr>cq_Method = ''POST'', cq_Path = ''/v1/chat/completions'', cq_RawQuery = [], cq_Header = Map.empty,
     cq_Body = body, cq_ReadErr = None\<rparr>"

definition chat_json :: "string \<Rightarrow> json" where
  "chat_json content = JObj [(''model'', JStr LogicalModelID), (''max_tokens'', JNum ''16''),
     (''messages'', JArr [JObj [(''role'', JStr ''user''), (''content'', JStr content)]])]"

definition chat_text :: "string \<Rightarrow> string" where
  "chat_text content = json_text (chat_json content)"

definition chat_payload :: "string \<Rightarrow> members" where
  "chat_payload content = [(''max_tokens'', VFloat False 16), (''messages'', VArr [VObj [(''content'', VStr content), (''role'', VStr ''user'')]]),
     (''model'', VStr LogicalModelID)]"

definition one_read :: "http_response \<Rightarrow> reads" where
  "one_read resp = [(rs_Body resp, ReadEOF)]"

lemma chat_upstream_bodyI:
  assumes "unmarshal_map body = Some payload" "\<not> credentialPattern body" "\<not> containsSecretKey (VObj payload)"
    "validateChatPayload payload = Inr p'" "\<not> credentialPattern (marshal_any (VObj p'))" "len body \<le> maxRequestBytes"
  shows "chat_upstream_body (chat_post body) active = Inr (marshal_any (VObj (put ''model'' (VStr (ro_expectedModelID active)) p')))"
proof -
  have "index p' ''model'' = VStr LogicalModelID"
    using validateChatPayload_bounded [OF assms(4)] by (simp add: bounded_chat_def)
  with assms show ?thesis
    by (simp add: chat_upstream_body_def chat_post_def del: containsSecretKey.simps marshal_any.simps)
qed

text \<open>An accepted request is sent when the refresh left a route, the slot is free and the request can be built.\<close>

lemma ServeHTTP_sends:
  assumes "Refresh E x marshal ns r h = ((None, r1), h1)" "rr_active r1 = Some i"
    and "chat_upstream_body (chat_post text) (le_route (rr_store r1 ! i)) = Inr body"
    and "\<And>url. env_NewRequest E MethodPost url = None"
  obtains rep where "ServeHTTP E x marshal ns W rd (chat_post text) r 0 h =
    (rep, r1, 0, h1 @ [EvHTTP (chat_request (le_route (rr_store r1 ! i)) body)])"
proof -
  obtain r2 where r2: "acquire r1 = (r2, Some i)" using assms(2) by (simp add: acquire_def)
  let ?active = "le_route (rr_store r1 ! i)"
  obtain rep where p: "proxyChat E W rd (chat_post text) ?active 0 h1 = (rep, 0, h1 @ [EvHTTP (chat_request ?active body)])"
    using assms(3,4) by (cases "env_Do E h1 (chat_request ?active body)")
      (simp_all add: proxyChat_def acquireInferenceSlot_def releaseInferenceSlot_def Let_def)
  have "serve_routed E W rd (chat_post text) ?active 0 h1 = (rep, 0, h1 @ [EvHTTP (chat_request ?active body)])"
    using p by (simp add: serve_routed_def chat_post_def MethodPost_def MethodGet_def)
  then have "ServeHTTP E x marshal ns W rd (chat_post text) r 0 h = (rep, r1, 0, h1 @ [EvHTTP (chat_request ?active body)])"
    using assms(1) r2 acquire_Some(2) [OF r2] release_acquire [OF r2]
    by (simp add: ServeHTTP_def chat_post_def Header_Get_def MethodGet_def)
  with that show thesis .
qed

lemma utf8_ok_all_ascii: "list_all (\<lambda>c. byte c < 128) s \<Longrightarrow> utf8_ok s"
  by (induction s) (auto intro: utf8_ok_ascii utf8_ok.nil)

lemma chat_text_decoded:
  assumes "list_all (\<lambda>c. byte c < 128) content"
  shows "unmarshal_map (chat_text content) = Some (chat_payload content)"
proof -
  have names: "list_all (list_all (\<lambda>c. byte c < 128)) [''model'', ''max_tokens'', ''messages'', ''role'', ''user'', ''content'', LogicalModelID]"
    "valid_num ''16''" "float_of_literal ''16'' = Some (VFloat False 16)" by code_simp+
  then have "printable (chat_json content)"
    using assms by (simp add: chat_json_def utf8_ok_all_ascii)
  then have "json_parse (chat_text content) = Some (chat_json content)"
    unfolding chat_text_def by (rule parse_text) (simp add: chat_json_def maxNestingDepth_def)
  moreover have "any_of_json (chat_json content) = Some (VObj (chat_payload content))"
    using names(3) by (simp add: chat_json_def chat_payload_def)
  ultimately show ?thesis by (simp add: unmarshal_map_def)
qed

lemma hi_decoded: "unmarshal_map (chat_text ''hi'') = Some (chat_payload ''hi'')"
  by (rule chat_text_decoded) code_simp

lemma hi_clean: "\<not> credentialPattern (chat_text ''hi'')" "len (chat_text ''hi'') \<le> maxRequestBytes"
  by code_simp+

lemma hi_valid: "validateChatPayload (chat_payload ''hi'') = Inr (chat_payload ''hi'')" "\<not> containsSecretKey (VObj (chat_payload ''hi''))"
  by code_simp+

lemma hi_print_clean: "\<not> credentialPattern (marshal_any (VObj (chat_payload ''hi'')))"
  by code_simp

lemma demo_refresh:
  "case Refresh router_env xp_plain marshal_names ''team'' initial_router [] of
     ((err, r1), h1) \<Rightarrow> err = None \<and> rr_active r1 = Some 0"
  by code_simp

theorem serve_forwards_witness:
  "\<exists>rep r' slots' h' refreshed q p'.
     ServeHTTP router_env xp_plain marshal_names ''team'' accepting one_read (chat_post (chat_text ''hi'')) initial_router 0 [] = (rep, r', slots', h')
     \<and> h' = refreshed @ [EvHTTP q] \<and> rq_Method q = ''POST'' \<and> bounded_chat p'"
proof -
  obtain r1 h1 where r: "Refresh router_env xp_plain marshal_names ''team'' initial_router [] = ((None, r1), h1)" "rr_active r1 = Some 0"
    using demo_refresh by (auto split: prod.splits)
  note body = chat_upstream_bodyI [OF hi_decoded hi_clean(1) hi_valid(2,1) hi_print_clean hi_clean(2)]
  have new: "env_NewRequest router_env MethodPost url = None" for url by (simp add: router_env_def admission_env_def passing_peer_def scripted_env_def)
  obtain rep q where s: "ServeHTTP router_env xp_plain marshal_names ''team'' accepting one_read (chat_post (chat_text ''hi'')) initial_router 0 []
      = (rep, r1, 0, h1 @ [EvHTTP q])"
    by (rule ServeHTTP_sends [OF r body new, where W = accepting and rd = one_read])
  have "h1 @ [EvHTTP q] \<notin> {[], snd (Refresh router_env xp_plain marshal_names ''team'' initial_router [])}" using r(1) by simp
  with serve_forwards [OF s] show ?thesis using s by (metis append_Nil2 http_request.select_convs(1))
qed

text \<open>
  The filter reads the JSON text, where a tab or a line break in a string is always escaped, so
  the class of white space in its first alternative can only match a blank: a bearer token behind
  a tab passes both applications of the filter, although the decoded message contains a match.
\<close>

definition tab_token :: string where
  "tab_token = ''Bearer'' @ [CHR 0x09] @ ''abcdefgh''"

definition tab_text :: string where
  "tab_text = chat_text tab_token"

lemma tab_decoded: "unmarshal_map tab_text = Some (chat_payload tab_token)"
  unfolding tab_text_def by (rule chat_text_decoded) code_simp

lemma tab_clean: "\<not> credentialPattern tab_text" "len tab_text \<le> maxRequestBytes"
  by code_simp+

lemma tab_valid: "validateChatPayload (chat_payload tab_token) = Inr (chat_payload tab_token)" "\<not> containsSecretKey (VObj (chat_payload tab_token))"
  by code_simp+

lemma tab_print_clean: "\<not> credentialPattern (marshal_any (VObj (chat_payload tab_token)))"
  by code_simp

lemma tab_token_forwarded:
  "credentialPattern tab_token \<and> unmarshal_map (cq_Body (chat_post tab_text)) = Some (chat_payload tab_token) \<and>
   chat_upstream_body (chat_post tab_text) active
     = Inr (marshal_any (VObj (put ''model'' (VStr (ro_expectedModelID active)) (chat_payload tab_token))))"
proof -
  have "credentialPattern tab_token" by code_simp
  moreover have "cq_Body (chat_post tab_text) = tab_text" by (simp add: chat_post_def)
  ultimately show ?thesis
    using chat_upstream_bodyI [OF tab_decoded tab_clean(1) tab_valid(2,1) tab_print_clean tab_clean(2), of active] tab_decoded by simp
qed

end
