(* ===== verification/Cluster.thy ===== *)
theory Cluster
  imports Router
begin

text \<open>
  The API server, the router and the Endpoint controller together. The step relation interleaves a
  refresh of \<open>internal/router/router.go\<close>, part by part, with the requests that hold leases
  (\<open>RouterState\<close>) and with any change of the API objects that keeps the contract of the drain
  finalizer: an object with a finalizer stays, and nothing but the router removes the router's own.
  On this relation rests the guarantee that spans the two processes: when \<open>Delete\<close> of the Endpoint
  controller (\<open>internal/controller/endpoint/endpoint.go\<close>) reaches RunPod, no request in flight
  addresses that Endpoint, and none ever will.
\<close>

section \<open>The objects of the namespace\<close>

definition drain_held :: "endpoint_check \<Rightarrow> bool" where
  "drain_held k \<longleftrightarrow> RouterDrainFinalizer \<in> set (om_Finalizers (ck_Meta k))"

definition endpoint_of :: "endpoint_check \<Rightarrow> string option" where
  "endpoint_of k = map_option ref_Name (cp_EndpointIDRef (ck_ForProvider k))"

text \<open>
  What a change of the EndpointChecks keeps: names stay distinct, and a check that carries the
  drain finalizer, unless it is one of \<open>X\<close>, stays under its name with the finalizer and with the
  reference to its Endpoint. For \<open>X\<close> empty this is the contract of every writer but the router.
\<close>

definition keeps_pins :: "string set \<Rightarrow> endpoint_check list \<Rightarrow> endpoint_check list \<Rightarrow> bool" where
  "keeps_pins X ks ks' \<longleftrightarrow> distinct (map check_name ks') \<and>
     (\<forall>k \<in> set ks. drain_held k \<and> check_name k \<notin> X \<longrightarrow>
        (\<exists>k' \<in> set ks'. check_name k' = check_name k \<and> drain_held k' \<and> endpoint_of k' = endpoint_of k))"

lemma keeps_pinsD:
  assumes "keeps_pins X ks ks'" "k \<in> set ks" "drain_held k" "check_name k \<notin> X"
  obtains k' where "k' \<in> set ks'" "check_name k' = check_name k" "drain_held k'" "endpoint_of k' = endpoint_of k"
  using assms by (auto simp: keeps_pins_def)

lemma keeps_pins_refl: "distinct (map check_name ks) \<Longrightarrow> keeps_pins X ks ks"
  by (auto simp: keeps_pins_def)

lemma keeps_pins_distinct: "keeps_pins X ks ks' \<Longrightarrow> distinct (map check_name ks')"
  by (simp add: keeps_pins_def)

lemma keeps_pins_trans: "keeps_pins X ks ks' \<Longrightarrow> keeps_pins X ks' ks'' \<Longrightarrow> keeps_pins X ks ks''"
  unfolding keeps_pins_def by metis

section \<open>The step relation\<close>

text \<open>
  A refresh before it replaces the route: it has listed the checks, or it has also decided on the
  next route and on the checks to acknowledge. Why a refresh commits no route (a Secret, an age, a
  second list that differs) is not in this state, so \<open>decide_none\<close> may follow any list, with the
  checks listed as deleting or, for a withdrawal, with none: the relation allows every refresh of
  the code and more. That makes the safety results about its reachable states stronger; what a
  refresh must do is stated of \<open>Refresh\<close> itself. \<open>cl_dying\<close> are the Endpoints with a deletion
  timestamp, which Kubernetes never takes back; \<open>ids\<close> gives the RunPod identifier that an Endpoint
  of the namespace carries as its external name, once it carries one.
\<close>

datatype txn = TNone | TListed "endpoint_check list" | TReady "route ptr" "string list"

record cluster =
  cl_checks :: "endpoint_check list"
  cl_dying :: "string list"
  cl_txn :: txn
  cl_system :: system

inductive cluster_step :: "(string \<Rightarrow> string) \<Rightarrow> cluster \<Rightarrow> cluster \<Rightarrow> bool" for ids where
  api: "keeps_pins {} (cl_checks c) ks \<Longrightarrow> set (cl_dying c) \<subseteq> set es \<Longrightarrow>
    cluster_step ids c (c\<lparr>cl_checks := ks, cl_dying := es\<rparr>)"
| read: "cl_txn c = TNone \<Longrightarrow> sy_refresh (cl_system c) = RIdle \<Longrightarrow>
    cluster_step ids c (c\<lparr>cl_txn := TListed (cl_checks c)\<rparr>)"
| decide_none: "cl_txn c = TListed ks \<Longrightarrow> names = [] \<or> names = map check_name (filter check_deleting ks) \<Longrightarrow>
    cluster_step ids c (c\<lparr>cl_txn := TReady None names\<rparr>)"
| decide_route: "cl_txn c = TListed ks \<Longrightarrow> k \<in> set ks \<Longrightarrow> \<not> check_deleting k \<Longrightarrow> drain_held k \<Longrightarrow>
    endpoint_of k = Some e \<Longrightarrow> e \<notin> set (cl_dying c) \<Longrightarrow> co_EndpointID (ck_AtProvider k) = ids e \<Longrightarrow>
    cluster_step ids c (c\<lparr>cl_txn := TReady (Some (route_of k token)) (map check_name (filter check_deleting ks))\<rparr>)"
| swap: "cl_txn c = TReady next names \<Longrightarrow> replace_swap next stateErr (sy_router (cl_system c)) = (r, w) \<Longrightarrow>
    cluster_step ids c (c\<lparr>cl_txn := TNone, cl_system := (cl_system c)\<lparr>sy_router := r,
      sy_refresh := (case w of None \<Rightarrow> RAck names | Some p \<Rightarrow> RWait p names)\<rparr>\<rparr>)"
| ack: "sy_refresh (cl_system c) = RAck names \<Longrightarrow> keeps_pins (set names) (cl_checks c) ks \<Longrightarrow>
    cluster_step ids c (c\<lparr>cl_checks := ks\<rparr>)"
| router: "router_step (cl_system c) s \<Longrightarrow> sy_refresh (cl_system c) \<noteq> RIdle \<or> sy_refresh s = RIdle \<Longrightarrow>
    cluster_step ids c (c\<lparr>cl_system := s\<rparr>)"

definition cluster_init :: "cluster \<Rightarrow> bool" where
  "cluster_init c \<longleftrightarrow> cl_txn c = TNone \<and> cl_system c = initial_system \<and> distinct (map check_name (cl_checks c))"

section \<open>Routes are pinned by their checks\<close>

definition pinned :: "(string \<Rightarrow> string) \<Rightarrow> cluster \<Rightarrow> route \<Rightarrow> bool" where
  "pinned ids c n \<longleftrightarrow> (\<exists>k \<in> set (cl_checks c). check_name k = ro_checkName n \<and> drain_held k \<and>
     (\<exists>e. endpoint_of k = Some e \<and> ids e = ro_endpointID n))"

definition in_use :: "system \<Rightarrow> nat set" where
  "in_use s = set (sy_held s) \<union> set_option (rr_active (sy_router s))"

definition txn_inv :: "(string \<Rightarrow> string) \<Rightarrow> cluster \<Rightarrow> bool" where
  "txn_inv ids c \<longleftrightarrow> (case cl_txn c of
     TNone \<Rightarrow> True
   | TListed ks \<Rightarrow> sy_refresh (cl_system c) = RIdle \<and> distinct (map check_name ks) \<and> keeps_pins {} ks (cl_checks c)
   | TReady next names \<Rightarrow> sy_refresh (cl_system c) = RIdle \<and>
       (\<forall>n. next = Some n \<longrightarrow> ro_checkName n \<notin> set names \<and> pinned ids c n))"

definition cluster_inv :: "(string \<Rightarrow> string) \<Rightarrow> cluster \<Rightarrow> bool" where
  "cluster_inv ids c \<longleftrightarrow> drain_inv (cl_system c) \<and> distinct (map check_name (cl_checks c)) \<and> txn_inv ids c \<and>
     (sy_stop (cl_system c) = SRunning \<longrightarrow>
        (\<forall>i \<in> in_use (cl_system c). pinned ids c (le_route (lease_at (cl_system c) i))))"

lemma pinned_keeps:
  assumes "pinned ids c n" "keeps_pins X (cl_checks c) (cl_checks d)" "ro_checkName n \<notin> X"
  shows "pinned ids d n"
  using assms unfolding pinned_def by (metis keeps_pinsD)

text \<open>A step of the route machine, a replacement apart, puts no route into use and keeps those that are.\<close>

lemma in_use_step:
  assumes step: "router_step s t" and inv: "lease_inv s"
    and phase: "sy_refresh s \<noteq> RIdle \<or> sy_refresh t = RIdle" and i: "i \<in> in_use t"
  shows "i \<in> in_use s \<and> le_route (lease_at t i) = le_route (lease_at s i)"
proof -
  have stop: "rr_active r = None \<and> (j < length (rr_store (sy_router s)) \<longrightarrow> le_route (rr_store r ! j) = le_route (rr_store (sy_router s) ! j))"
    if "replace_swap None e (sy_router s) = (r, w)" for e r w j
    using that swap_old(4) [OF step_swap_effect [OF inv that], of j] by (auto simp: replace_swap_def cancel_def split: option.splits)
  have clear: "le_route (rr_store (clear_token p (sy_router s)) ! i) = le_route (rr_store (sy_router s) ! i)"
    if "drained p (sy_router s)" "p \<in> waiting s" "i \<in> in_use s" for p
  proof -
    have "i < length (rr_store (sy_router s))" "i \<noteq> p"
      using that drained_not_held [OF inv that(1)] lease_invD(1,4) [OF inv, of i] by (auto simp: in_use_def)
    then show ?thesis by (simp add: clear_token_def)
  qed
  show ?thesis
    using step
  proof cases
    case (refresh_drained p names)
    with i clear [of p] show ?thesis by (auto simp: in_use_def lease_at_def waiting_def)
  next
    case (stop_drained p)
    with i clear [of p] show ?thesis by (auto simp: in_use_def lease_at_def waiting_def)
  next
    case (stop_wait r previous)
    with i stop [OF stop_wait(3), of i] lease_invD(1) [OF inv, of i] show ?thesis by (auto simp: in_use_def lease_at_def)
  next
    case (stop_swap r)
    with i stop [OF stop_swap(3), of i] lease_invD(1) [OF inv, of i] show ?thesis by (auto simp: in_use_def lease_at_def)
  next
    case (release j)
    with i show ?thesis
      by (auto simp: in_use_def lease_at_def release_def dest: set_mp [OF set_remove1_subset])
  qed (use i phase in \<open>auto simp: in_use_def lease_at_def acquire_def split: option.splits\<close>)
qed

lemma running_step: "router_step s t \<Longrightarrow> sy_stop t = SRunning \<Longrightarrow> sy_stop s = SRunning"
  by (induction rule: router_step.induct) auto

text \<open>A replacement puts at most the new route into use.\<close>

lemma replace_swap_active:
  assumes "replace_swap next stateErr r = (r', w)" "\<And>a. rr_active r = Some a \<Longrightarrow> a < length (rr_store r)" "rr_active r' = Some a"
  shows "rr_active r = Some a \<and> le_route (rr_store r' ! a) = le_route (rr_store r ! a) \<or> next = Some (le_route (rr_store r' ! a))"
  using assms
  by (auto simp: replace_swap_def cancel_def nth_append new_lease_def split: option.splits if_splits)

lemma in_use_swap:
  assumes inv: "lease_inv s" and swap: "replace_swap next stateErr (sy_router s) = (r, w)"
    and t: "sy_router t = r" "sy_held t = sy_held s" and i: "i \<in> in_use t"
  shows "i \<in> in_use s \<and> le_route (lease_at t i) = le_route (lease_at s i) \<or> next = Some (le_route (lease_at t i))"
proof (cases "i \<in> set (sy_held s)")
  case True
  with t swap_old(4) [OF step_swap_effect [OF inv swap] lease_invD(1) [OF inv True]] show ?thesis
    by (simp add: in_use_def lease_at_def)
next
  case False
  with i t have "rr_active r = Some i" by (auto simp: in_use_def)
  with replace_swap_active [OF swap] lease_invD(4) [OF inv] t show ?thesis by (auto simp: in_use_def lease_at_def)
qed

section \<open>The invariant\<close>

text \<open>
  Every step of the cluster is a step of the route machine or leaves it alone: distinct names in the
  snapshot discharge the guard of the replacement.
\<close>

lemma swap_router_step:
  assumes "txn_inv ids c" "cl_txn c = TReady next names"
    "replace_swap next stateErr (sy_router (cl_system c)) = (r, w)"
  shows "router_step (cl_system c) ((cl_system c)\<lparr>sy_router := r,
      sy_refresh := (case w of None \<Rightarrow> RAck names | Some p \<Rightarrow> RWait p names)\<rparr>)"
proof -
  have idle: "sy_refresh (cl_system c) = RIdle" and free: "\<And>n. next = Some n \<Longrightarrow> ro_checkName n \<notin> set names"
    using assms(1,2) by (auto simp: txn_inv_def)
  show ?thesis
  proof (cases w)
    case None
    with refresh_swap [OF idle free] assms(3) show ?thesis by simp
  next
    case (Some p)
    with refresh_wait [OF idle free] assms(3) show ?thesis by simp
  qed
qed

lemma cluster_projects:
  "cluster_step ids c d \<Longrightarrow> txn_inv ids c \<Longrightarrow> cl_system d = cl_system c \<or> router_step (cl_system c) (cl_system d)"
  by (induction rule: cluster_step.induct) (auto dest: swap_router_step)

lemma drain_projects:
  assumes "cluster_step ids c d" "cluster_inv ids c"
  shows "drain_inv (cl_system d)"
  using cluster_projects [OF assms(1)] assms(2) drain_inv_step by (auto simp: cluster_inv_def)

text \<open>A change of the objects that spares the routes in use.\<close>

lemma cluster_inv_objects:
  assumes inv: "cluster_inv ids c" and keep: "keeps_pins X (cl_checks c) ks"
    and d: "cl_checks d = ks" "cl_txn d = cl_txn c" "cl_system d = cl_system c"
    and spare: "X = {} \<or> cl_txn c = TNone"
      "\<And>i. sy_stop (cl_system c) = SRunning \<Longrightarrow> i \<in> in_use (cl_system c) \<Longrightarrow> ro_checkName (le_route (lease_at (cl_system c) i)) \<notin> X"
  shows "cluster_inv ids d"
proof -
  have pins: "pinned ids c n \<Longrightarrow> ro_checkName n \<notin> X \<Longrightarrow> pinned ids d n" for n
    using pinned_keeps [of ids c n X d] keep d(1) by simp
  have "txn_inv ids d"
  proof (cases "cl_txn c")
    case (TListed ks')
    with spare(1) inv keep d have "keeps_pins {} ks' (cl_checks d)"
      by (auto simp: cluster_inv_def txn_inv_def intro: keeps_pins_trans)
    with TListed inv d show ?thesis by (simp add: cluster_inv_def txn_inv_def)
  next
    case (TReady "next" names)
    with spare(1) inv pins d show ?thesis by (auto simp: cluster_inv_def txn_inv_def)
  qed (simp add: txn_inv_def d)
  with inv keeps_pins_distinct [OF keep] pins spare(2) d show ?thesis by (auto simp: cluster_inv_def)
qed

lemma cluster_inv_swap:
  assumes inv: "cluster_inv ids c" and ready: "cl_txn c = TReady next names"
    and swap: "replace_swap next stateErr (sy_router (cl_system c)) = (r, w)"
    and s: "s = (cl_system c)\<lparr>sy_router := r, sy_refresh := (case w of None \<Rightarrow> RAck names | Some p \<Rightarrow> RWait p names)\<rparr>"
  shows "cluster_inv ids (c\<lparr>cl_txn := TNone, cl_system := s\<rparr>)"
proof -
  have lease: "lease_inv (cl_system c)" and txn: "txn_inv ids c" using inv by (auto simp: cluster_inv_def drain_inv_def)
  have "drain_inv s"
    using drain_inv_step [OF swap_router_step [OF txn ready swap]] inv s by (simp add: cluster_inv_def)
  moreover have "pinned ids c (le_route (lease_at s i))" if "sy_stop s = SRunning" "i \<in> in_use s" for i
    using in_use_swap [OF lease swap, of s i] that s inv txn ready by (auto simp: cluster_inv_def txn_inv_def)
  ultimately show ?thesis using inv by (simp add: cluster_inv_def txn_inv_def pinned_def)
qed

lemma cluster_inv_step: "cluster_step ids c d \<Longrightarrow> cluster_inv ids c \<Longrightarrow> cluster_inv ids d"
proof (induction rule: cluster_step.induct)
  case (api c ks es)
  show ?case by (rule cluster_inv_objects [OF api(3,1)]) simp_all
next
  case (read c)
  then show ?case by (auto simp: cluster_inv_def txn_inv_def pinned_def intro: keeps_pins_refl)
next
  case (decide_none c ks names)
  then show ?case by (auto simp: cluster_inv_def txn_inv_def pinned_def)
next
  case (decide_route c ks k e token)
  then have snap: "distinct (map check_name ks)" "keeps_pins {} ks (cl_checks c)" "sy_refresh (cl_system c) = RIdle"
    by (auto simp: cluster_inv_def txn_inv_def)
  from keeps_pinsD [OF snap(2) decide_route(2,4)] obtain k' where "k' \<in> set (cl_checks c)" "check_name k' = check_name k"
    "drain_held k'" "endpoint_of k' = endpoint_of k" by auto
  with decide_route(5,7) have "pinned ids c (route_of k token)"
    by (auto simp: pinned_def route_of_def check_name_def)
  moreover have "check_name k \<notin> set (map check_name (filter check_deleting ks))"
    using snap(1) decide_route(2,3) by (auto simp: distinct_map dest: inj_onD)
  ultimately show ?case using decide_route(8) snap(3)
    by (auto simp: cluster_inv_def txn_inv_def pinned_def route_of_def check_name_def)
next
  case (swap c "next" names stateErr r w)
  show ?case by (rule cluster_inv_swap [OF swap(3,1,2) refl])
next
  case (ack c names ks)
  show ?case
    using ack(1,3) by (intro cluster_inv_objects [OF ack(3,2)])
      (auto simp: cluster_inv_def txn_inv_def drain_inv_def in_use_def refresh_names_def split: txn.splits)
next
  case (router c s)
  then have lease: "lease_inv (cl_system c)" and "drain_inv s"
    using drain_inv_step by (auto simp: cluster_inv_def drain_inv_def)
  moreover have "pinned ids c (le_route (lease_at s i))" if "sy_stop s = SRunning" "i \<in> in_use s" for i
    using in_use_step [OF router(1) lease router(2) that(2)] running_step [OF router(1) that(1)] router(3)
    by (auto simp: cluster_inv_def)
  moreover have "txn_inv ids (c\<lparr>cl_system := s\<rparr>)"
    using router(2,3) by (auto simp: cluster_inv_def txn_inv_def pinned_def split: txn.splits)
  ultimately show ?case using router(3) by (simp add: cluster_inv_def pinned_def)
qed

interpretation cluster: step_invariant "cluster_step ids" "cluster_inv ids" for ids
  by unfold_locales (rule cluster_inv_step)

lemma cluster_inv_init: "cluster_init c \<Longrightarrow> cluster_inv ids c"
  using drain_inv_initial
  by (auto simp: cluster_init_def cluster_inv_def txn_inv_def in_use_def initial_system_def initial_router_def)

section \<open>Retired identifiers\<close>

text \<open>
  An identifier is retired when every Endpoint that carries it is being deleted and no route to it
  is in use or about to be: then it stays so.
\<close>

definition retired :: "(string \<Rightarrow> string) \<Rightarrow> string \<Rightarrow> cluster \<Rightarrow> bool" where
  "retired ids rid c \<longleftrightarrow> cluster_inv ids c \<and>
     (\<forall>e. ids e = rid \<longrightarrow> e \<in> set (cl_dying c)) \<and>
     (\<forall>i \<in> in_use (cl_system c). ro_endpointID (le_route (lease_at (cl_system c) i)) \<noteq> rid) \<and>
     (\<forall>n names. cl_txn c = TReady (Some n) names \<longrightarrow> ro_endpointID n \<noteq> rid)"

lemma retired_step: "cluster_step ids c d \<Longrightarrow> retired ids rid c \<Longrightarrow> retired ids rid d"
proof -
  assume step: "cluster_step ids c d" and ret: "retired ids rid c"
  then have lease: "lease_inv (cl_system c)" by (auto simp: retired_def cluster_inv_def drain_inv_def)
  from step have "(\<forall>e. ids e = rid \<longrightarrow> e \<in> set (cl_dying d)) \<and>
      (\<forall>i \<in> in_use (cl_system d). ro_endpointID (le_route (lease_at (cl_system d) i)) \<noteq> rid) \<and>
      (\<forall>n names. cl_txn d = TReady (Some n) names \<longrightarrow> ro_endpointID n \<noteq> rid)"
  proof cases
    case (swap "next" names stateErr ro w)
    with ret in_use_swap [OF lease swap(3), of "cl_system d"] show ?thesis by (fastforce simp: retired_def)
  next
    case (router s)
    with ret in_use_step [OF router(2) lease router(3)] show ?thesis by (auto simp: retired_def)
  next
    case (decide_route ks k e token)
    with ret show ?thesis by (auto simp: retired_def route_of_def)
  qed (use ret in \<open>auto simp: retired_def\<close>)
  with cluster_inv_step [OF step] ret show ?thesis by (simp add: retired_def)
qed

interpretation retired: step_invariant "cluster_step ids" "retired ids rid" for ids rid
  by unfold_locales (rule retired_step)

lemma retired_not_held:
  "retired ids rid c \<Longrightarrow> i \<in> set (sy_held (cl_system c)) \<Longrightarrow> ro_endpointID (le_route (lease_at (cl_system c) i)) \<noteq> rid"
  by (simp add: retired_def in_use_def)

text \<open>
  When no listed check refers to an Endpoint that is being deleted, its identifier is retired.
\<close>

lemma unreferenced_retired:
  assumes inv: "cluster_inv ids c" and run: "sy_stop (cl_system c) = SRunning"
    and ref: "\<not> refers_to_endpoint name (cl_checks c)" and dying: "name \<in> set (cl_dying c)"
    and owner: "\<And>e. ids e = rid \<Longrightarrow> e = name"
  shows "retired ids rid c"
proof -
  have "ro_endpointID n \<noteq> rid" if "pinned ids c n" for n
  proof
    assume "ro_endpointID n = rid"
    with that owner obtain k where "k \<in> set (cl_checks c)" "endpoint_of k = Some name" by (auto simp: pinned_def)
    with ref show False by (auto simp: refers_to_endpoint_iff endpoint_of_def)
  qed
  with inv run dying owner show ?thesis
    by (fastforce simp: retired_def cluster_inv_def drain_inv_def txn_inv_def)
qed

section \<open>The writers of the repository\<close>

text \<open>
  The writes of the repository keep the contract: an Update replaces one object. The EndpointCheck
  controller only adds the finalizer; the router removes it from a check it acknowledges.
\<close>

lemma keeps_pins_replace:
  assumes "distinct (map check_name ks)" "check_name k' = check_name k" "endpoint_of k' = endpoint_of k"
    and "drain_held k' \<or> \<not> drain_held k \<or> check_name k \<in> X"
  shows "keeps_pins X ks (map (\<lambda>j. if j = k then k' else j) ks)"
proof -
  have "map check_name (map (\<lambda>j. if j = k then k' else j) ks) = map check_name ks" using assms(2) by simp
  moreover have "\<exists>j' \<in> set (map (\<lambda>j. if j = k then k' else j) ks). check_name j' = check_name j \<and> drain_held j' \<and> endpoint_of j' = endpoint_of j"
    if "j \<in> set ks" "drain_held j" "check_name j \<notin> X" for j
    using that assms(2-4) by (intro bexI [of _ "if j = k then k' else j"]) auto
  ultimately show ?thesis using assms(1) unfolding keeps_pins_def by metis
qed

lemma check_Reconcile_keeps_pins:
  assumes "check_Reconcile E x ns name h = (r, h @ t)" "xp_condition_laws x" "EvUpdateCheck k' \<in> set t"
    "env_GetCheck E h ns name = Inr k" "distinct (map check_name ks)"
  shows "keeps_pins {} ks (map (\<lambda>j. if j = k then k' else j) ks)"
proof -
  from assms(1,2) have "k' = with_drain k"
  proof (cases rule: check_Reconcile_cases)
    case inert
    with assms(3) show ?thesis by (auto simp: inertly_def list_all_iff)
  next
    case (finalizer check)
    with assms(3,4) show ?thesis by auto
  next
    case (token check binding secret tok expiresAt h1 h2 h3)
    from token(10) obtain pre where pre: "h3 = h @ pre" "list_all (inert x) pre" by (auto simp: inertly_def)
    from check_with_token_effect [OF token(11) assms(2)] obtain ws where
      ws: "h @ t = h3 @ ws" "list_all (guarded x (admitted_status check binding (sec_ResourceVersion secret) (env_Now E h1))) ws"
      by (auto simp: guardedly_def)
    with pre assms(3) show ?thesis by (auto simp: list_all_iff guarded_def)
  qed
  then show ?thesis
    by (intro keeps_pins_replace assms(5)) (simp_all add: with_drain_def check_name_def endpoint_of_def drain_held_def)
qed

text \<open>
  What the API server documents of an accepted Update: the object takes the place of the one of its
  name, and when it is being deleted and has no finalizer left, it is removed.
\<close>

definition api_update :: "endpoint_check list \<Rightarrow> endpoint_check \<Rightarrow> endpoint_check list" where
  "api_update ks k =
     (if check_deleting k \<and> om_Finalizers (ck_Meta k) = [] then filter (\<lambda>j. check_name j \<noteq> check_name k) ks
      else map (\<lambda>j. if check_name j = check_name k then k else j) ks)"

lemma api_update_keeps_pins:
  assumes "distinct (map check_name ks)"
  shows "keeps_pins {check_name k} ks (api_update ks k)"
proof -
  have "map check_name (map (\<lambda>j. if check_name j = check_name k then k else j) ks) = map check_name ks" by simp
  with assms have "distinct (map check_name (api_update ks k))"
    by (simp only: api_update_def split: if_splits) (auto simp: distinct_map inj_on_def)
  moreover have "j \<in> set (api_update ks k)" if "j \<in> set ks" "check_name j \<noteq> check_name k" for j
    using that by (auto simp: api_update_def)
  ultimately show ?thesis unfolding keeps_pins_def by auto
qed

lemma api_updates_from:
  "j \<in> set (foldl api_update ks us) \<Longrightarrow>
     j \<in> set ks \<and> check_name j \<notin> check_name ` set us \<or> j \<in> set us \<and> \<not> (check_deleting j \<and> om_Finalizers (ck_Meta j) = [])"
proof (induction us arbitrary: ks)
  case (Cons u us)
  from Cons.IH [of "api_update ks u"] Cons.prems show ?case by (auto simp: api_update_def split: if_splits)
qed simp

section \<open>A refresh is a run of the cluster\<close>

text \<open>
  What the reads of a refresh see: an Endpoint that is being deleted carries its deletion timestamp,
  and an Endpoint with a valid external name carries the identifier that \<open>ids\<close> gives.
\<close>

definition reads_endpoints :: "(string \<Rightarrow> string) \<Rightarrow> xp \<Rightarrow> env \<Rightarrow> cluster \<Rightarrow> bool" where
  "reads_endpoints ids x E c \<longleftrightarrow> (\<forall>h ns n ep. env_GetEndpoint E h ns n = Inr ep \<longrightarrow>
     (n \<in> set (cl_dying c) \<longrightarrow> deleting ep) \<and> (valid_id (GetExternalName x ep) \<longrightarrow> GetExternalName x ep = ids n))"

lemma refresh_single_pin:
  assumes "refresh_single E x ns k h = ((Some n, stateErr), h')" "reads_endpoints ids x E c"
  obtains e token where "n = route_of k token" "endpoint_of k = Some e" "e \<notin> set (cl_dying c)"
    "co_EndpointID (ck_AtProvider k) = ids e"
proof -
  let ?ref = "cp_InferenceCredentialsSecretRef (ck_ForProvider k)"
  let ?h = "h @ [EvGet KSecret ns (sks_Name ?ref)]"
  from assms(1) obtain sec :: secret where n: "n = route_of k (map_get (sec_Data sec) (sks_Key ?ref))"
    and "endpointRevisionMatches E x k (env_Now E ?h) (?h @ [EvClock]) = (True, h')"
    by (rule refresh_single_Some) blast
  from this(2) obtain ref ep template where "cp_EndpointIDRef (ck_ForProvider k) = Some ref"
    "env_GetEndpoint E (?h @ [EvClock]) (om_Namespace (ck_Meta k)) (ref_Name ref) = Inr ep"
    "router_endpoint_current x ep (env_Now E ?h)" "router_binding_current x (ck_AtProvider k) ep template"
    by (rule endpointRevisionMatches_True) blast
  moreover from this(3,4) have "\<not> deleting ep" "GetExternalName x ep = co_EndpointID (ck_AtProvider k)" "valid_id (GetExternalName x ep)"
    by (auto simp: router_endpoint_current_def router_binding_current_def Let_def)
  ultimately have "endpoint_of k = Some (ref_Name ref)" "ref_Name ref \<notin> set (cl_dying c)" "co_EndpointID (ck_AtProvider k) = ids (ref_Name ref)"
    using assms(2) unfolding reads_endpoints_def endpoint_of_def by auto
  with n that show thesis by blast
qed

lemma refresh_decide_step:
  assumes txn: "cl_txn c = TListed ks" and listed: "\<And>checks. env_ListChecks E h ns = Inr checks \<Longrightarrow> checks = ks"
    and d: "refresh_decide E x marshal ns h = (d, h1)" and api: "reads_endpoints ids x E c"
  shows "cluster_step ids c (c\<lparr>cl_txn := TReady (outcome_next d) (outcome_names d)\<rparr>)"
proof (cases d)
  case (Withdraw reason err)
  then show ?thesis using decide_none [OF txn] by (simp add: outcome_next_def outcome_names_def)
next
  case (Commit "next" stateErr dels)
  obtain now eligible h3 h4 where
    scan: "refresh_scan E x now ks (h @ [EvList KEndpointCheck ns, EvClock]) = ((eligible, dels), h3)"
    and route: "refresh_route E x ns eligible h3 = ((next, stateErr), h4)"
    by (rule refresh_decide_Commit [OF d [unfolded Commit]]) (use listed in auto)
  note dels = refresh_scan_dels [OF scan]
  show ?thesis
  proof (cases "next")
    case None
    with Commit dels decide_none [OF txn] show ?thesis by (simp add: outcome_next_def outcome_names_def)
  next
    case (Some n)
    from route [unfolded Some] obtain k where k: "eligible = [k]" and single: "refresh_single E x ns k h3 = ((Some n, stateErr), h4)"
      by (rule refresh_route_Some) blast
    from single api obtain e token where "n = route_of k token" "endpoint_of k = Some e" "e \<notin> set (cl_dying c)"
      "co_EndpointID (ck_AtProvider k) = ids e" by (rule refresh_single_pin)
    moreover have "k \<in> set ks" "\<not> check_deleting k" "drain_held k"
      using refresh_scan_eligible [OF scan, of k] k by (auto simp: check_candidate_def hasString_iff drain_held_def Let_def)
    ultimately show ?thesis
      using decide_route [OF txn, of k e ids token] Commit Some dels by (simp add: outcome_next_def outcome_names_def)
  qed
qed

text \<open>Without requests in flight, deciding and replacing are a run of the cluster.\<close>

lemma replace_cluster_run:
  assumes inv: "lease_inv (cl_system c)" and ready: "cl_txn c = TReady next names" and held: "sy_held (cl_system c) = []"
  shows "(cluster_step ids)\<^sup>*\<^sup>* c (c\<lparr>cl_txn := TNone, cl_system := (cl_system c)\<lparr>
    sy_router := replace next stateErr (sy_router (cl_system c)), sy_refresh := RAck names\<rparr>\<rparr>)"
proof (cases "replace_swap next stateErr (sy_router (cl_system c))")
  case (Pair r w)
  note step = swap [OF ready Pair, of ids]
  show ?thesis
  proof (cases w)
    case None
    with step Pair show ?thesis by (auto simp: replace_def)
  next
    case (Some p)
    let ?s = "(cl_system c)\<lparr>sy_router := r, sy_refresh := RWait p names\<rparr>"
    have "drained p r" by (rule swap_drained [OF inv Pair [unfolded Some] held])
    then have "router_step ?s (?s\<lparr>sy_router := clear_token p r, sy_refresh := RAck names\<rparr>)"
      using refresh_drained [of ?s p names] by simp
    from router [of "c\<lparr>cl_txn := TNone, cl_system := ?s\<rparr>", simplified, OF this]
    have "cluster_step ids (c\<lparr>cl_txn := TNone, cl_system := ?s\<rparr>)
        (c\<lparr>cl_txn := TNone, cl_system := ?s\<lparr>sy_router := clear_token p r, sy_refresh := RAck names\<rparr>\<rparr>)" by simp
    moreover have "replace next stateErr (sy_router (cl_system c)) = clear_token p r" using Pair Some by (simp add: replace_def)
    ultimately show ?thesis using step Some by simp
  qed
qed

text \<open>
  Then the acknowledgements: a contract for the API server says that an Update of a check concerns no
  other check. \<open>api_update\<close> meets it, and so does a server that has refused the Update.
\<close>

definition updates_one :: "(endpoint_check list \<Rightarrow> endpoint_check \<Rightarrow> endpoint_check list) \<Rightarrow> bool" where
  "updates_one server \<longleftrightarrow> (\<forall>ks k. distinct (map check_name ks) \<longrightarrow> keeps_pins {check_name k} ks (server ks k))"

lemma keeps_pins_mono: "keeps_pins X ks ks' \<Longrightarrow> X \<subseteq> Y \<Longrightarrow> keeps_pins Y ks ks'"
  unfolding keeps_pins_def by (meson subsetD)

lemma acknowledge_run:
  assumes "sy_refresh (cl_system c) = RAck names" "check_name ` set us \<subseteq> set names" "distinct (map check_name (cl_checks c))" "updates_one server"
  shows "(cluster_step ids)\<^sup>*\<^sup>* c (c\<lparr>cl_checks := foldl server (cl_checks c) us\<rparr>)"
  using assms(1-3)
proof (induction us arbitrary: c)
  case (Cons u us)
  let ?ks = "server (cl_checks c) u"
  have k: "keeps_pins {check_name u} (cl_checks c) ?ks" using assms(4) Cons.prems(3) by (simp add: updates_one_def)
  have "cluster_step ids c (c\<lparr>cl_checks := ?ks\<rparr>)"
    using cluster_step.ack [OF Cons.prems(1) keeps_pins_mono [OF k]] Cons.prems(2) by simp
  moreover have "(cluster_step ids)\<^sup>*\<^sup>* (c\<lparr>cl_checks := ?ks\<rparr>) (c\<lparr>cl_checks := foldl server ?ks us\<rparr>)"
    using Cons.IH [of "c\<lparr>cl_checks := ?ks\<rparr>"] Cons.prems keeps_pins_distinct [OF k] by simp
  ultimately show ?case by (simp add: converse_rtranclp_into_rtranclp)
qed simp

lemma decided_cluster_run:
  assumes "cluster_init c0" "(cluster_step ids)\<^sup>*\<^sup>* c0 c" "cl_txn c = TNone" "sy_refresh (cl_system c) = RIdle" "sy_held (cl_system c) = []"
    and "refresh_decide E x marshal ns h = (d, h1)" "\<And>checks. env_ListChecks E h ns = Inr checks \<Longrightarrow> checks = cl_checks c"
    and "reads_endpoints ids x E c"
  shows "(cluster_step ids)\<^sup>*\<^sup>* c0 (c\<lparr>cl_system := (cl_system c)\<lparr>
    sy_router := snd (fst (Refresh E x marshal ns (sy_router (cl_system c)) h)), sy_refresh := RAck (outcome_names d)\<rparr>\<rparr>)"
proof -
  let ?c1 = "c\<lparr>cl_txn := TListed (cl_checks c)\<rparr>"
  let ?c2 = "?c1\<lparr>cl_txn := TReady (outcome_next d) (outcome_names d)\<rparr>"
  have "lease_inv (cl_system c)"
    using cluster.along_run [OF assms(2) cluster_inv_init [OF assms(1)]] by (simp add: cluster_inv_def drain_inv_def)
  then have "(cluster_step ids)\<^sup>*\<^sup>* ?c2 (?c2\<lparr>cl_txn := TNone, cl_system := (cl_system c)\<lparr>
      sy_router := replace (outcome_next d) (outcome_error d) (sy_router (cl_system c)), sy_refresh := RAck (outcome_names d)\<rparr>\<rparr>)"
    using replace_cluster_run [of ?c2] assms(5) by simp
  moreover have "cluster_step ids c ?c1" by (rule cluster_step.read [OF assms(3,4)])
  moreover have "cluster_step ids ?c1 ?c2"
    by (rule refresh_decide_step [OF _ assms(7,6)]) (use assms(8) in \<open>simp_all add: reads_endpoints_def\<close>)
  ultimately have "(cluster_step ids)\<^sup>*\<^sup>* c (?c2\<lparr>cl_txn := TNone, cl_system := (cl_system c)\<lparr>
      sy_router := replace (outcome_next d) (outcome_error d) (sy_router (cl_system c)), sy_refresh := RAck (outcome_names d)\<rparr>\<rparr>)"
    by (intro converse_rtranclp_into_rtranclp [of "cluster_step ids" c ?c1] converse_rtranclp_into_rtranclp [of "cluster_step ids" ?c1 ?c2])
  moreover have "?c2\<lparr>cl_txn := TNone, cl_system := s\<rparr> = c\<lparr>cl_system := s\<rparr>" for s
    using assms(3) by simp
  ultimately show ?thesis
    unfolding Refresh_router [OF assms(6)] by (intro rtranclp_trans [OF assms(2)]) simp
qed

text \<open>The whole of a refresh: it decides and replaces, acknowledges, and is at rest again.\<close>

lemma acknowledged_cluster_run:
  assumes run: "(cluster_step ids)\<^sup>*\<^sup>* c0 (c\<lparr>cl_system := (cl_system c)\<lparr>sy_router := r, sy_refresh := RAck names\<rparr>\<rparr>)"
    and us: "check_name ` set us \<subseteq> set names" and c: "distinct (map check_name (cl_checks c))" "updates_one server" "sy_refresh (cl_system c) = RIdle"
  shows "(cluster_step ids)\<^sup>*\<^sup>* c0 (c\<lparr>cl_checks := foldl server (cl_checks c) us, cl_system := (cl_system c)\<lparr>sy_router := r\<rparr>\<rparr>)"
proof -
  let ?s = "(cl_system c)\<lparr>sy_router := r, sy_refresh := RAck names\<rparr>"
  let ?c = "c\<lparr>cl_system := ?s\<rparr>"
  let ?d = "?c\<lparr>cl_checks := foldl server (cl_checks ?c) us\<rparr>"
  have c': "sy_refresh (cl_system ?c) = RAck names" "distinct (map check_name (cl_checks ?c))" using c(1) by simp_all
  have "router_step ?s (?s\<lparr>sy_refresh := RIdle\<rparr>)" by (rule refresh_done) simp
  then have step: "cluster_step ids ?d (?d\<lparr>cl_system := ?s\<lparr>sy_refresh := RIdle\<rparr>\<rparr>)" by (intro cluster_step.router) simp_all
  have "?s\<lparr>sy_refresh := RIdle\<rparr> = (cl_system c)\<lparr>sy_router := r\<rparr>" using c(3) by simp
  then have eq: "?d\<lparr>cl_system := ?s\<lparr>sy_refresh := RIdle\<rparr>\<rparr> =
      c\<lparr>cl_checks := foldl server (cl_checks c) us, cl_system := (cl_system c)\<lparr>sy_router := r\<rparr>\<rparr>" by simp
  from rtranclp.rtrancl_into_rtrancl [OF rtranclp_trans [OF run acknowledge_run [OF c'(1) us c'(2) c(2)]] step]
  show ?thesis unfolding eq .
qed

section \<open>A run\<close>

text \<open>From an initial state with one admissible check to a request in flight on its route.\<close>

definition serving_cluster :: "endpoint_check list \<Rightarrow> string list \<Rightarrow> route \<Rightarrow> cluster" where
  "serving_cluster ks es n = \<lparr>cl_checks = ks, cl_dying = es, cl_txn = TNone,
     cl_system = initial_system\<lparr>sy_router := fst (acquire (fst (replace_swap (Some n) [] initial_router))), sy_held := [0]\<rparr>\<rparr>"

definition quiet_cluster :: "endpoint_check list \<Rightarrow> string list \<Rightarrow> cluster" where
  "quiet_cluster ks es = \<lparr>cl_checks = ks, cl_dying = es, cl_txn = TNone, cl_system = initial_system\<rparr>"

lemma quiet_cluster_init: "distinct (map check_name ks) \<Longrightarrow> cluster_init (quiet_cluster ks es)"
  by (simp add: cluster_init_def quiet_cluster_def)

lemma serving_run:
  assumes "\<not> check_deleting k" "drain_held k" "endpoint_of k = Some e" "e \<notin> set es" "co_EndpointID (ck_AtProvider k) = ids e"
  shows "(cluster_step ids)\<^sup>*\<^sup>* (quiet_cluster [k] es) (serving_cluster [k] es (route_of k token))"
proof -
  let ?n = "route_of k token"
  let ?r = "fst (replace_swap (Some ?n) [] initial_router)"
  let ?c1 = "(quiet_cluster [k] es)\<lparr>cl_txn := TListed [k]\<rparr>" and ?c2 = "(quiet_cluster [k] es)\<lparr>cl_txn := TReady (Some ?n) []\<rparr>"
  let ?s3 = "initial_system\<lparr>sy_router := ?r, sy_refresh := RAck []\<rparr>" and ?s4 = "initial_system\<lparr>sy_router := ?r\<rparr>"
  let ?c3 = "(quiet_cluster [k] es)\<lparr>cl_system := ?s3\<rparr>" and ?c4 = "(quiet_cluster [k] es)\<lparr>cl_system := ?s4\<rparr>"
  have "cluster_step ids (quiet_cluster [k] es) ?c1"
    using cluster_step.read [of "quiet_cluster [k] es"] by (simp add: quiet_cluster_def initial_system_def)
  moreover have "cluster_step ids ?c1 ?c2"
    using cluster_step.decide_route [of ?c1 "[k]" k e ids token] assms by (simp add: quiet_cluster_def)
  moreover have "cluster_step ids ?c2 ?c3"
    using cluster_step.swap [of ?c2 "Some ?n" "[]" "[]" ?r None] by (simp add: quiet_cluster_def demo_defs)
  moreover have "cluster_step ids ?c3 ?c4"
    using cluster_step.router [of ?c3 ?s4] refresh_done [of ?s3 "[]"] by (simp add: quiet_cluster_def initial_system_def)
  moreover have "cluster_step ids ?c4 (serving_cluster [k] es ?n)"
    using cluster_step.router [of ?c4 "cl_system (serving_cluster [k] es ?n)"]
      acquire [of ?s4 "fst (acquire ?r)" 0]
    by (simp add: quiet_cluster_def serving_cluster_def demo_defs)
  ultimately show ?thesis by (meson converse_rtranclp_into_rtranclp rtranclp.rtrancl_refl)
qed

text \<open>A check of one Endpoint of the namespace, and the edit that makes it refer to another.\<close>

definition check_for :: "string \<Rightarrow> string \<Rightarrow> endpoint_check" where
  "check_for e rid = demo_check\<lparr>ck_ForProvider := (ck_ForProvider demo_check)\<lparr>cp_EndpointIDRef := Some \<lparr>ref_Name = e\<rparr>\<rparr>,
     ck_AtProvider := (ck_AtProvider demo_check)\<lparr>co_EndpointID := rid\<rparr>\<rparr>"

definition retarget :: "string \<Rightarrow> endpoint_check \<Rightarrow> endpoint_check" where
  "retarget e k = k\<lparr>ck_Meta := (ck_Meta k)\<lparr>om_Generation := om_Generation (ck_Meta k) + 1\<rparr>,
     ck_ForProvider := (ck_ForProvider k)\<lparr>cp_EndpointIDRef := Some \<lparr>ref_Name = e\<rparr>\<rparr>\<rparr>"

definition two_endpoints :: "string \<Rightarrow> string" where
  "two_endpoints e = (if e = ''demo'' then ''ep1'' else ''ep2'')"

lemma check_for_simps [simp]:
  "\<not> check_deleting (check_for e rid)" "drain_held (check_for e rid)" "endpoint_of (check_for e rid) = Some e"
  "co_EndpointID (ck_AtProvider (check_for e rid)) = rid"
  by (simp_all add: check_for_def demo_check_def demo_meta_def check_deleting_def drain_held_def endpoint_of_def)

lemma serving_cluster_simps [simp]:
  "cl_checks (serving_cluster ks es n) = ks" "cl_dying (serving_cluster ks es n) = es" "cl_txn (serving_cluster ks es n) = TNone"
  "sy_held (cl_system (serving_cluster ks es n)) = [0]" "sy_stop (cl_system (serving_cluster ks es n)) = SRunning"
  "le_route (lease_at (cl_system (serving_cluster ks es n)) 0) = n"
  by (simp_all add: serving_cluster_def demo_defs lease_at_def)

definition delete_env :: "endpoint_check list \<Rightarrow> env" where
  "delete_env ks = serving_env\<lparr>env_ListChecks := (\<lambda>_ _. Inr ks)\<rparr>"

lemma delete_env_requests:
  "(case GetEndpoint (delete_env ks) demo_client ''ep1'' [EvList KEndpointCheck ''team''] of
      (Inr _, h) \<Rightarrow> (case DeleteEndpoint (delete_env ks) demo_client ''ep1'' h of (_, h') \<Rightarrow> mutation_methods h' = [MethodPatch, MethodDelete])
    | _ \<Rightarrow> False)"
  by code_simp

lemma bound_endpoint_meta:
  "om_Namespace (mg_Meta bound_endpoint_cr) = ''team''" "om_Name (mg_Meta bound_endpoint_cr) = ''demo''"
  by (simp_all add: bound_endpoint_cr_def demo_endpoint_cr_def demo_meta_def update_annotations_def set_endpoint_ID_def)

lemma delete_env_deletes:
  assumes "\<not> refers_to_endpoint ''demo'' ks"
  obtains err cr' h' where "endpoint_Delete (delete_env ks) xp_plain demo_client bound_endpoint_cr [] = (err, cr', h')"
    "mutation_methods h' = [MethodPatch, MethodDelete]"
proof -
  have "list_EndpointChecks (delete_env ks) ''team'' [] = (Inr ks, [EvList KEndpointCheck ''team''])"
    by (simp add: list_EndpointChecks_def delete_env_def)
  moreover have "ValidateRunPodID ''ep1'' = None" by code_simp
  moreover obtain err cr' h' where d: "endpoint_Delete (delete_env ks) xp_plain demo_client bound_endpoint_cr [] = (err, cr', h')"
    by (metis surj_pair)
  ultimately have "mutation_methods h' = [MethodPatch, MethodDelete]"
    using delete_env_requests [of ks] assms
    by (auto simp: endpoint_Delete_def Let_def bound_endpoint_meta split: prod.splits sum.splits option.splits)
  from that [OF d this] show thesis .
qed

section \<open>Properties\<close>

text \<open>
  C7: Deletion after draining. Suppose the router has not stopped, and \<open>Delete\<close> of the Endpoint
  controller sends a mutating request for an Endpoint that is being deleted, having listed the checks
  that the API server holds at that moment (not an older list). Then no request in flight addresses
  that Endpoint, and none does in any later state, however requests, refreshes, acknowledgements and
  changes of the API objects interleave. The changes are those of \<open>keeps_pins\<close>: checks may come, go
  and be edited, but only the router removes its finalizer, and while a check carries it nobody
  changes the Endpoint it refers to (C27 shows what follows otherwise); an Endpoint that is being
  deleted stays so, its name is not used again, and no other Endpoint has its identifier.
\<close>

theorem endpoint_Delete_drained:
  assumes "cluster_init c0" "(cluster_step ids)\<^sup>*\<^sup>* c0 c" "sy_stop (cl_system c) = SRunning"
    and "endpoint_Delete E x cl cr h = (err, cr', h')" "mutations h' \<noteq> mutations h"
    and "env_ListChecks E h (om_Namespace (mg_Meta cr)) = Inr (cl_checks c)"
    and "om_Name (mg_Meta cr) \<in> set (cl_dying c)" "\<And>e. ids e = GetExternalName x cr \<Longrightarrow> e = om_Name (mg_Meta cr)"
    and "(cluster_step ids)\<^sup>*\<^sup>* c d" "i \<in> set (sy_held (cl_system d))"
  shows "ro_endpointID (le_route (lease_at (cl_system d) i)) \<noteq> GetExternalName x cr"
proof -
  have "cluster_inv ids c" by (rule cluster.along_run [OF assms(2) cluster_inv_init [OF assms(1)]])
  moreover have "\<not> refers_to_endpoint (om_Name (mg_Meta cr)) (cl_checks c)"
    using assms(4)
  proof (cases rule: endpoint_Delete_cases)
    case quiet
    with assms(5) show ?thesis by simp
  next
    case (sent checks current h2 del)
    with assms(6) show ?thesis by simp
  qed
  ultimately have "retired ids (GetExternalName x cr) c"
    using assms(3,7,8) by (intro unreferenced_retired) blast+
  from retired_not_held [OF retired.along_run [OF assms(9) this] assms(10)] show ?thesis .
qed

text \<open>
  C27: The condition on the reference is needed, and the API does not enforce it: an EndpointCheck's
  \<open>endpointIdRef\<close> may be edited. After an edit that points the check of a route in use to another
  Endpoint, \<open>Delete\<close> finds no check that refers to the first Endpoint, scales it to zero and deletes
  it, while a request is in flight on its route.
\<close>

theorem endpoint_Delete_retargeted:
  "\<exists>ids c0 c k E x cl cr err cr' h' i. cluster_init c0 \<and> (cluster_step ids)\<^sup>*\<^sup>* c0 c \<and> sy_stop (cl_system c) = SRunning
     \<and> inj_on ids {om_Name (mg_Meta cr), ''other''} \<and> om_Name (mg_Meta cr) \<in> set (cl_dying c) \<and> cl_checks c = [k]
     \<and> env_ListChecks E [] (om_Namespace (mg_Meta cr)) = Inr [retarget ''other'' k]
     \<and> endpoint_Delete E x cl cr [] = (err, cr', h') \<and> mutation_methods h' = [MethodPatch, MethodDelete]
     \<and> i \<in> set (sy_held (cl_system c)) \<and> ro_endpointID (le_route (lease_at (cl_system c) i)) = GetExternalName x cr"
proof -
  let ?k = "check_for ''demo'' ''ep1''" and ?cr = bound_endpoint_cr
  let ?ks = "[retarget ''other'' ?k]" and ?n = "route_of (check_for ''demo'' ''ep1'') ''t''"
  let ?c = "serving_cluster [?k] [''demo''] ?n"
  have "cluster_init (quiet_cluster [?k] [])" by (rule quiet_cluster_init) simp
  moreover have "(cluster_step two_endpoints)\<^sup>*\<^sup>* (quiet_cluster [?k] []) ?c"
  proof (rule rtranclp.rtrancl_into_rtrancl)
    show "(cluster_step two_endpoints)\<^sup>*\<^sup>* (quiet_cluster [?k] []) (serving_cluster [?k] [] ?n)"
      by (rule serving_run [where e = "''demo''"]) (simp_all add: two_endpoints_def)
    show "cluster_step two_endpoints (serving_cluster [?k] [] ?n) ?c"
      using cluster_step.api [of "serving_cluster [?k] [] ?n" "[?k]" "[''demo'']" two_endpoints]
      by (simp add: serving_cluster_def keeps_pins_refl)
  qed
  moreover have "\<not> refers_to_endpoint ''demo'' ?ks" by (simp add: retarget_def)
  then obtain err cr' h' where "endpoint_Delete (delete_env ?ks) xp_plain demo_client ?cr [] = (err, cr', h')"
    "mutation_methods h' = [MethodPatch, MethodDelete]" by (rule delete_env_deletes)
  moreover have "inj_on two_endpoints {om_Name (mg_Meta ?cr), ''other''}" "om_Name (mg_Meta ?cr) \<in> set (cl_dying ?c)"
    "0 \<in> set (sy_held (cl_system ?c))" "ro_endpointID (le_route (lease_at (cl_system ?c) 0)) = GetExternalName xp_plain ?cr"
    "env_ListChecks (delete_env ?ks) [] (om_Namespace (mg_Meta ?cr)) = Inr ?ks" "cl_checks ?c = [?k]" "sy_stop (cl_system ?c) = SRunning"
    by (simp_all add: bound_endpoint_meta two_endpoints_def route_of_def delete_env_def)
  ultimately show ?thesis by blast
qed

text \<open>
  C21: The sequential \<open>Refresh\<close> is a run of the cluster, and its writes are the acknowledgements of that
  run. From any reachable state at rest without requests in flight, with an API that shows it the
  checks and the Endpoints of that state, the trace of a refresh is its reads, the replacement of the
  route and then updates; when the two lists agree these are the listed deleting checks less the
  drain finalizer, all of them in the order of the list unless a write is refused, and none when they
  do not. The state in which the API server has taken these updates, the router is the one \<open>Refresh\<close>
  returns and the refresh is at rest is reachable. So the guarantee above is about the code of
  \<open>Refresh\<close>, and distinct names in a namespace discharge the guard of the route machine.
\<close>

theorem Refresh_cluster_run:
  assumes "cluster_init c0" "(cluster_step ids)\<^sup>*\<^sup>* c0 c" "cl_txn c = TNone" "sy_refresh (cl_system c) = RIdle" "sy_held (cl_system c) = []"
    and "Refresh E x marshal ns (sy_router (cl_system c)) h = ((err, r'), h')"
    and "\<And>checks. env_ListChecks E h ns = Inr checks \<Longrightarrow> checks = cl_checks c" "reads_endpoints ids x E c" "updates_one server"
  shows "\<exists>h1 us. reads h h1 \<and> h' = h1 @ [EvList KEndpointCheck ns, EvRoute (active_check r')] @ map EvUpdateCheck us
    \<and> (if lists_unchanged E marshal ns h h1
       then \<exists>n refused. us = take n (map drain_removed (to_acknowledge (cl_checks c)))
          \<and> writes_run E (h1 @ [EvList KEndpointCheck ns, EvRoute (active_check r')])
              (map (EvUpdateCheck \<circ> drain_removed) (to_acknowledge (cl_checks c))) n refused
       else us = [])
    \<and> (cluster_step ids)\<^sup>*\<^sup>* c0 (c\<lparr>cl_checks := foldl server (cl_checks c) us, cl_system := (cl_system c)\<lparr>sy_router := r'\<rparr>\<rparr>)"
proof -
  have inv: "cluster_inv ids c" by (rule cluster.along_run [OF assms(2) cluster_inv_init [OF assms(1)]])
  then have wf: "router_wf (sy_router (cl_system c))" and names: "distinct (map check_name (cl_checks c))"
    using lease_invD(4) by (auto simp: cluster_inv_def drain_inv_def router_wf_def split: option.splits)
  note run = decided_cluster_run [OF assms(1-5) _ assms(7,8)]
  note end_run = acknowledged_cluster_run [OF _ _ names assms(9,4)]
  from wf assms(6) show ?thesis
  proof (cases rule: Refresh_cases)
    case (withdrawn h1 reason e)
    have "(cluster_step ids)\<^sup>*\<^sup>* c0 (c\<lparr>cl_system := (cl_system c)\<lparr>sy_router := r', sy_refresh := RAck []\<rparr>\<rparr>)"
      using run [OF withdrawn(3)] assms(6) by (simp add: outcome_names_def)
    from end_run [OF this, of "[]"] withdrawn(1,2,5,6) show ?thesis
      by (intro exI [of _ h1] exI [of _ "[]"]) simp
  next
    case (replaced "next" stateErr h1 evs checks n refused)
    have checks: "checks = cl_checks c" by (rule assms(7) [OF replaced(4)])
    let ?us = "take n (map drain_removed (to_acknowledge (cl_checks c)))"
    have "(cluster_step ids)\<^sup>*\<^sup>* c0 (c\<lparr>cl_system := (cl_system c)\<lparr>sy_router := r', sy_refresh := RAck (map check_name (filter check_deleting (cl_checks c)))\<rparr>\<rparr>)"
      using run [OF replaced(5)] assms(6) checks by (simp add: outcome_names_def)
    moreover have "check_name ` set ?us \<subseteq> set (map check_name (filter check_deleting (cl_checks c)))"
      by (auto simp: to_acknowledge_def drain_removed_def check_name_def check_deleting_def ptrIsZero_iff dest!: in_set_takeD)
    ultimately have "(cluster_step ids)\<^sup>*\<^sup>* c0 (c\<lparr>cl_checks := foldl server (cl_checks c) ?us, cl_system := (cl_system c)\<lparr>sy_router := r'\<rparr>\<rparr>)"
      by (rule end_run)
    with replaced(1,3,7,8) checks show ?thesis
      by (intro exI [of _ h1] exI [of _ ?us]) (auto simp: take_map)
  qed
qed

text \<open>The updates that a trace holds, in order.\<close>

fun check_update_of :: "event \<Rightarrow> endpoint_check option" where
  "check_update_of (EvUpdateCheck k) = Some k"
| "check_update_of _ = None"

definition check_updates :: "trace \<Rightarrow> endpoint_check list" where
  "check_updates h = List.map_filter check_update_of h"

lemma check_updates_simps [simp]:
  "check_updates [] = []" "check_updates (h @ h') = check_updates h @ check_updates h'"
  "check_updates (ev # h) = (case check_update_of ev of None \<Rightarrow> check_updates h | Some k \<Rightarrow> k # check_updates h)"
  "check_updates (map (EvUpdateCheck \<circ> f) ks) = map f ks"
  by (simp_all add: check_updates_def List.map_filter_def comp_def split: option.splits)

lemma reads_no_updates: "list_all read_event evs \<Longrightarrow> check_updates evs = []"
proof (induction evs)
  case (Cons ev evs)
  then show ?case by (cases ev) auto
qed simp

lemma writes_run_all:
  assumes "writes_run E h evs n err" "\<And>g ev. ev \<in> set evs \<Longrightarrow> env_Write E g ev = None"
  shows "n = length evs"
proof (cases err)
  case (Some e)
  with assms(1) have n: "0 < n" "n \<le> length evs" by (auto simp: writes_run_def)
  then obtain m where m: "n = Suc m" by (cases n) auto
  from assms(1) have "\<forall>i < n. if err \<noteq> None \<and> Suc i = n
      then \<exists>e. env_Write E (h @ take i evs) (evs ! i) = Some e \<and> \<not> fst e \<and> err = Some (kube_err e)
      else write_accepted E (h @ take i evs) (evs ! i)" unfolding writes_run_def by blast
  from this [rule_format, of m] Some m obtain w where "env_Write E (h @ take m evs) (evs ! m) = Some w" by auto
  with assms(2) [of "evs ! m"] n m show ?thesis by simp
qed (use assms(1) in \<open>simp add: writes_run_def\<close>)

lemma acknowledged_unreferenced:
  assumes "\<And>k. k \<in> set checks \<Longrightarrow> endpoint_of k = Some name \<Longrightarrow> check_deleting k \<and> om_Finalizers (ck_Meta k) = [RouterDrainFinalizer]"
  shows "\<not> refers_to_endpoint name (foldl api_update checks (map drain_removed (to_acknowledge checks)))"
proof -
  have acked: "drain_removed k \<in> set (map drain_removed (to_acknowledge checks))" "om_Finalizers (ck_Meta (drain_removed k)) = []"
    "check_deleting (drain_removed k)" if "k \<in> set checks" "endpoint_of k = Some name" for k
  proof -
    have "k \<in> set (to_acknowledge checks)" using assms [OF that] that(1) by (auto simp: to_acknowledge_def check_deleting_def ptrIsZero_iff)
    then show "drain_removed k \<in> set (map drain_removed (to_acknowledge checks))" by simp
  qed (use assms [OF that] in \<open>simp_all add: drain_removed_def check_deleting_def\<close>)
  have name: "check_name (drain_removed k) = check_name k" "endpoint_of (drain_removed k) = endpoint_of k" for k
    by (simp_all add: drain_removed_def check_name_def endpoint_of_def)
  have "endpoint_of j \<noteq> Some name" if "j \<in> set (foldl api_update checks (map drain_removed (to_acknowledge checks)))" for j
  proof
    assume e: "endpoint_of j = Some name"
    from api_updates_from [OF that] show False
    proof
      assume "j \<in> set checks \<and> check_name j \<notin> check_name ` set (map drain_removed (to_acknowledge checks))"
      with acked(1) [of j] e name show False by (metis imageI)
    next
      assume u: "j \<in> set (map drain_removed (to_acknowledge checks)) \<and> \<not> (check_deleting j \<and> om_Finalizers (ck_Meta j) = [])"
      then obtain k where "k \<in> set checks" "j = drain_removed k" by (auto simp: to_acknowledge_def)
      with acked(2,3) [of k] e name u show False by simp
    qed
  qed
  then show ?thesis by (auto simp: refers_to_endpoint_iff endpoint_of_def)
qed

text \<open>
  C8: One undisturbed refresh unblocks \<open>Delete\<close>. Let every check that refers to an Endpoint be listed
  as deleting with the drain finalizer as its last one, and let one \<open>Refresh\<close> return while no one else
  changes the checks and the API server accepts its updates, from any state of the router and whether
  or not it commits a route. Once a list shows these updates (the server removes a deleted check
  without finalizers), the \<open>Delete\<close> that follows does not refuse: while RunPod still has the Endpoint,
  it sends first the PATCH that scales the Endpoint to zero workers.
\<close>

theorem drain_completes:
  assumes "router_wf r" "Refresh E x marshal ns r h = ((err, r'), h')"
    and "\<And>g. reads h g \<Longrightarrow> env_ListChecks E g ns = Inr checks" "endpointCheckRevision marshal checks = Inr revision"
    and "\<And>g k. env_Write E g (EvUpdateCheck k) = None"
    and "env_ListChecks E h' ns = Inr (foldl api_update checks (check_updates (drop (length h) h')))"
    and "\<And>k. k \<in> set checks \<Longrightarrow> endpoint_of k = Some (om_Name (mg_Meta cr)) \<Longrightarrow> check_deleting k \<and> om_Finalizers (ck_Meta k) = [RouterDrainFinalizer]"
    and "om_Namespace (mg_Meta cr) = ns" "valid_id (GetExternalName x' cr)" "eo_ID (ec_AtProvider cr) = GetExternalName x' cr"
    and "GetEndpoint E cl (GetExternalName x' cr) (h' @ [EvList KEndpointCheck ns]) = (Inr current, h2)" "\<And>m u. env_NewRequest E m u = None"
    and "endpoint_Delete E x' cl cr h' = (derr, cr', h'')"
  shows "\<exists>rest. mutations h'' = mutations h' @ request cl MethodPatch (''/endpoints/'' @ GetExternalName x' cr) (Some zero_workers) # rest"
proof -
  have unchanged: "lists_unchanged E marshal ns h h1" if "reads h h1" for h1
    using assms(3) [OF that] assms(3) [of h] assms(4) by (auto simp: lists_unchanged_def)
  from assms(1,2) have "check_updates (drop (length h) h') = map drain_removed (to_acknowledge checks)"
  proof (cases rule: Refresh_cases)
    case (withdrawn h1 reason e)
    with unchanged show ?thesis by blast
  next
    case (replaced "next" stateErr h1 evs checks' n refused)
    from replaced(1) obtain ws where ws: "h1 = h @ ws" "list_all read_event ws" by (auto simp: reads_def)
    have "checks' = checks" using replaced(4) assms(3) [of h] by simp
    moreover have "n = length (to_acknowledge checks')"
    proof -
      have "env_Write E g ev = None" if "ev \<in> set (map (EvUpdateCheck \<circ> drain_removed) (to_acknowledge checks'))" for g ev
        using that assms(5) by auto
      from writes_run_all [OF replaced(8) this] show ?thesis by simp
    qed
    ultimately show ?thesis using replaced(7) ws reads_no_updates [OF ws(2)] by simp
  qed
  with assms(6) acknowledged_unreferenced [of checks, OF assms(7)]
  have list: "env_ListChecks E h' ns = Inr (foldl api_update checks (map drain_removed (to_acknowledge checks)))"
    "\<not> refers_to_endpoint (om_Name (mg_Meta cr)) (foldl api_update checks (map drain_removed (to_acknowledge checks)))" by simp_all
  obtain d h3 where d: "DeleteEndpoint E cl (GetExternalName x' cr) h2 = (d, h3)" by fastforce
  with list assms(8-11,13) have "h'' = h3"
    by (auto simp: endpoint_Delete_def Let_def list_EndpointChecks_def split: option.splits)
  moreover obtain rest where "mutations h3 = mutations h2 @ request cl MethodPatch (''/endpoints/'' @ GetExternalName x' cr) (Some zero_workers) # rest"
    using DeleteEndpoint_patches [OF d assms(9,12)] .
  moreover have "mutations h2 = mutations h'" using endpoints.get_mutations [OF assms(11)] by simp
  ultimately show ?thesis by auto
qed

theorem endpoint_Delete_drained_witness:
  "ro_endpointID (le_route (lease_at (cl_system
     (serving_cluster [check_for ''other'' ''ep2''] [''demo''] (route_of (check_for ''other'' ''ep2'') ''t''))) 0)) \<noteq> ''ep1''"
proof -
  let ?k = "check_for ''other'' ''ep2''"
  let ?c = "serving_cluster [?k] [''demo''] (route_of ?k ''t'')"
  have init: "cluster_init (quiet_cluster [?k] [''demo''])" by (rule quiet_cluster_init) simp
  have run: "(cluster_step two_endpoints)\<^sup>*\<^sup>* (quiet_cluster [?k] [''demo'']) ?c"
    by (rule serving_run [where e = "''other''"]) (simp_all add: two_endpoints_def)
  have "\<not> refers_to_endpoint ''demo'' [?k]" by (simp add: check_for_def)
  then obtain err cr' h' where "endpoint_Delete (delete_env [?k]) xp_plain demo_client bound_endpoint_cr [] = (err, cr', h')"
    "mutation_methods h' = [MethodPatch, MethodDelete]" by (rule delete_env_deletes)
  moreover from this(2) have "mutations h' \<noteq> mutations []" by (auto simp: mutation_methods_def)
  moreover have "e = om_Name (mg_Meta bound_endpoint_cr)" if "two_endpoints e = GetExternalName xp_plain bound_endpoint_cr" for e
    using that by (simp add: two_endpoints_def bound_endpoint_meta split: if_splits)
  ultimately show ?thesis
    using endpoint_Delete_drained [OF init run _ _ _ _ _ _ rtranclp.rtrancl_refl, of "delete_env [?k]" xp_plain demo_client bound_endpoint_cr "[]" err cr' h' 0]
    by (simp add: bound_endpoint_meta delete_env_def)
qed

lemma api_update_one: "updates_one api_update"
  using api_update_keeps_pins by (simp add: updates_one_def)

theorem Refresh_cluster_run_witness:
  "\<exists>r'. (cluster_step (\<lambda>_. ''ep1''))\<^sup>*\<^sup>* (quiet_cluster [routed_check, leaving_check] [])
     ((quiet_cluster [routed_check, leaving_check] [])\<lparr>cl_checks := [routed_check], cl_system := initial_system\<lparr>sy_router := r'\<rparr>\<rparr>)"
proof -
  let ?c = "quiet_cluster [routed_check, leaving_check] []"
  obtain err r' h' where r: "Refresh router_env xp_plain marshal_names ''team'' initial_router [] = ((err, r'), h')" by (metis surj_pair)
  have init: "cluster_init ?c" using router_env_checks(2) by (rule quiet_cluster_init)
  have "GetExternalName xp_plain admitted_endpoint_cr = ''ep1''"
    by (simp add: admitted_endpoint_cr_def GetExternalName_def annotations_def flip: bound_endpoint_simps(1))
  then have api: "reads_endpoints (\<lambda>_. ''ep1'') xp_plain router_env ?c"
    by (auto simp: reads_endpoints_def router_env_def admission_env_def quiet_cluster_def)
  have s: "cl_txn ?c = TNone" "sy_refresh (cl_system ?c) = RIdle" "sy_held (cl_system ?c) = []" "cl_system ?c = initial_system"
    "cl_checks ?c = [routed_check, leaving_check]" "sy_router initial_system = initial_router" by (simp_all add: quiet_cluster_def initial_system_def)
  have acks: "to_acknowledge [routed_check, leaving_check] = [leaving_check]"
    by (simp add: to_acknowledge_def routed_check_def leaving_check_def demo_check_def demo_meta_def)
  have accepts: "env_Write router_env h ev = None" for h ev
    by (simp add: router_env_def admission_env_def passing_peer_def scripted_env_def)
  have same: "lists_unchanged router_env marshal_names ''team'' [] h1" for h1
    using router_env_revision by (auto simp: lists_unchanged_def router_env_checks)
  have removed: "foldl api_update [routed_check, leaving_check] [drain_removed leaving_check] = [routed_check]"
    by (simp add: api_update_def drain_removed_def routed_check_def leaving_check_def demo_check_def demo_meta_def check_deleting_def
        check_name_def IsZero_def)
  from Refresh_cluster_run [OF init rtranclp.rtrancl_refl s(1-3) _ _ api api_update_one, of marshal_names "''team''" "[]" err r' h'] r s(4-6) same
  obtain us n refused g where us: "us = take n [drain_removed leaving_check]"
    "writes_run router_env g [EvUpdateCheck (drain_removed leaving_check)] n refused"
    "(cluster_step (\<lambda>_. ''ep1''))\<^sup>*\<^sup>* ?c (?c\<lparr>cl_checks := foldl api_update [routed_check, leaving_check] us, cl_system := initial_system\<lparr>sy_router := r'\<rparr>\<rparr>)"
    by (auto simp: router_env_checks(1) acks)
  from us(2) accepts have "n = 1" by (auto simp: writes_run_def write_accepted_def split: if_splits)
  with us(1,3) removed show ?thesis by auto
qed

text \<open>The only check of an Endpoint leaves: its list is empty once the trace holds the update.\<close>

definition leaving_env :: env where
  "leaving_env = router_env\<lparr>env_Do := env_Do serving_env,
     env_ListChecks := (\<lambda>h _. Inr (foldl api_update [leaving_check] (check_updates h)))\<rparr>"

lemma leaving_env_simps:
  "env_ListChecks leaving_env h ns = Inr (foldl api_update [leaving_check] (check_updates h))"
  "env_Write leaving_env h ev = None" "env_NewRequest leaving_env m u = None"
  by (simp_all add: leaving_env_def router_env_def admission_env_def passing_peer_def scripted_env_def)

lemma GetEndpoint_leaving:
  "GetEndpoint leaving_env demo_client ''ep1'' h =
     (Inr demo_endpoint, h @ [EvHTTP (request demo_client MethodGet ''/endpoints/ep1?includeTemplate=true&includeWorkers=true'' None)])"
proof -
  have v: "valid_id ''ep1''" unfolding ValidateRunPodID_None [symmetric] by code_simp
  show ?thesis
    using serving_decode
    by (auto simp: v GetEndpoint_def doJSON_def maxAttempts_Suc Let_def leaving_env_def router_env_def admission_env_def passing_peer_def
        serving_env_def scripted_env_def plain_response_def handle_response_complete handle_body_def retryable_def) (simp_all add: demo_endpoint_def)
qed

theorem drain_completes_witness:
  "\<exists>err r' h' derr cr' h'' q rest. Refresh leaving_env xp_plain marshal_names ''team'' initial_router [] = ((err, r'), h')
     \<and> endpoint_Delete leaving_env xp_plain demo_client bound_endpoint_cr h' = (derr, cr', h'')
     \<and> mutations h'' = mutations h' @ q # rest \<and> rq_Method q = MethodPatch"
proof -
  obtain err r' h' where r: "Refresh leaving_env xp_plain marshal_names ''team'' initial_router [] = ((err, r'), h')" by (metis surj_pair)
  obtain derr cr' h'' where d: "endpoint_Delete leaving_env xp_plain demo_client bound_endpoint_cr h' = (derr, cr', h'')" by (metis surj_pair)
  have lists: "env_ListChecks leaving_env g ''team'' = Inr [leaving_check]" if "reads [] g" for g
    using that reads_no_updates by (auto simp: leaving_env_simps reads_def)
  have revision: "endpointCheckRevision marshal_names [leaving_check] = Inr (check_name leaving_check @ '','')"
    by (simp add: endpointCheckRevision_def marshal_names_def)
  have leaves: "check_deleting k \<and> om_Finalizers (ck_Meta k) = [RouterDrainFinalizer]" if "k \<in> set [leaving_check]" for k
    using that by (simp add: leaving_check_def demo_check_def demo_meta_def check_deleting_def IsZero_def)
  have v: "valid_id (GetExternalName xp_plain bound_endpoint_cr)"
    unfolding ValidateRunPodID_None [symmetric] bound_endpoint_simps by code_simp
  have g: "GetEndpoint leaving_env demo_client (GetExternalName xp_plain bound_endpoint_cr) (h' @ [EvList KEndpointCheck ''team'']) =
      (Inr demo_endpoint, (h' @ [EvList KEndpointCheck ''team'']) @ [EvHTTP (request demo_client MethodGet ''/endpoints/ep1?includeTemplate=true&includeWorkers=true'' None)])"
    unfolding bound_endpoint_simps by (rule GetEndpoint_leaving)
  have after: "env_ListChecks leaving_env h' ''team'' = Inr (foldl api_update [leaving_check] (check_updates (drop (length []) h')))"
    by (simp add: leaving_env_simps)
  have "eo_ID (ec_AtProvider bound_endpoint_cr) = GetExternalName xp_plain bound_endpoint_cr" by (simp add: bound_endpoint_simps)
  from drain_completes [OF initial_router_wf r lists revision leaving_env_simps(2) after leaves bound_endpoint_meta(1) v this g leaving_env_simps(3) d] r d
  show ?thesis by (metis request_simps(1))
qed

end
