(* ===== verification/Wiring.thy ===== *)
theory Wiring
  imports Janitor EndpointCheck RouterState
begin

text \<open>
  How the programs are put together: the \<open>Setup\<close> and \<open>SetupGated\<close> functions of the controllers,
  \<open>internal/controller/runpod.go\<close>, \<open>internal/controller/config/config.go\<close>, and the \<open>main\<close> functions
  of \<open>cmd/provider\<close> and \<open>cmd/model-router\<close>. The libraries they call (controller-runtime, Crossplane's
  runtime and its gate, kingpin, the HTTP server) are not under \<open>src/\<close>: a call to them is an event of
  a wiring trace, and its answer comes from the environment \<open>wenv\<close>. Of the gate the documented
  behaviour is used: a registered callback runs only when every kind it was registered for is
  established. The main result is that this is enough: whatever a gated controller reads, lists,
  writes or deletes is of an established kind, or of one of the configuration kinds (and Secret) that
  are not gated.
\<close>

section \<open>Calls into the libraries\<close>

text \<open>
  A controller as it is built: its name, the kind it reconciles, whether the desired-state filter
  applies to that kind, what else it watches (a kind with the predicate on resource versions, or the
  usages of a ProviderConfig kind), the options of the managed reconciler (none for a plain
  reconciler), whether the global rate limiter wraps it, and the bound on concurrent reconciles
  that \<open>WithOptions\<close> sets, if it is called.
\<close>

datatype reconciler_option =
    WithTypedExternalConnector kube_kind
  | WithLogger string
  | WithPollInterval duration
  | WithRecorder string
  | WithInitializers
  | WithDeterministicExternalName bool
  | WithManagementPolicies
  | WithChangeLogger
  | WithMetricRecorder

datatype watched = WatchResourceVersions kube_kind | WatchUsage kube_kind

record controller =
  ct_Named :: string
  ct_For :: kube_kind
  ct_DesiredStateChanged :: bool
  ct_Watches :: "watched list"
  ct_Options :: "reconciler_option list"
  ct_RateLimited :: bool
  ct_MaxConcurrentReconciles :: "int ptr"

text \<open>
  \<open>ctrl.Options\<close> as far as the two programs set it. Durations are pointers; no namespaces means all.
\<close>

record manager_options =
  mo_DefaultNamespaces :: "string list"
  mo_DisableFor :: "kube_kind list"
  mo_SyncPeriod :: "duration ptr"
  mo_TransformStripCRDSchema :: bool
  mo_LeaderElection :: bool
  mo_LeaderElectionID :: string
  mo_LeaderElectionResourceLock :: string
  mo_LeaseDuration :: "duration ptr"
  mo_RenewDeadline :: "duration ptr"
  mo_MetricsBindAddress :: string
  mo_HealthProbeBindAddress :: string

record http_server =
  hs_Addr :: string
  hs_ReadHeaderTimeout :: duration
  hs_ReadTimeout :: duration
  hs_WriteTimeout :: duration
  hs_IdleTimeout :: duration
  hs_MaxHeaderBytes :: int

datatype gated = GatedTemplate | GatedEndpoint | GatedJanitor

datatype wiring_event =
    WiManager manager_options
  | WiRegister gated "kube_kind list"
  | WiAdd kube_kind
  | WiComplete controller
  | WiRun duration
  | WiServe http_server
  | WiShutdown duration
  | WiCall string

type_synonym wiring = "wiring_event list"

record wenv =
  we_ControllerName :: "kube_kind \<Rightarrow> string"
  we_Add :: "wiring \<Rightarrow> kube_kind \<Rightarrow> error ptr"
  we_Complete :: "wiring \<Rightarrow> controller \<Rightarrow> error ptr"
  we_Call :: "wiring \<Rightarrow> string \<Rightarrow> error ptr"

definition mgr_Add :: "wenv \<Rightarrow> kube_kind \<Rightarrow> wiring \<Rightarrow> error ptr \<times> wiring" where
  "mgr_Add W k h = (we_Add W h k, h @ [WiAdd k])"

definition mgr_Complete :: "wenv \<Rightarrow> controller \<Rightarrow> wiring \<Rightarrow> error ptr \<times> wiring" where
  "mgr_Complete W c h = (we_Complete W h c, h @ [WiComplete c])"

definition lib_call :: "wenv \<Rightarrow> string \<Rightarrow> wiring \<Rightarrow> error ptr \<times> wiring" where
  "lib_call W what h = (we_Call W h what, h @ [WiCall what])"

definition ctrl_NewManager :: "wenv \<Rightarrow> manager_options \<Rightarrow> wiring \<Rightarrow> error ptr \<times> wiring" where
  "ctrl_NewManager W mo h = (we_Call W h ''ctrl.NewManager'', h @ [WiManager mo])"

section \<open>Setting up the controllers\<close>

text \<open>
  \<open>controller.Options\<close> as far as the Setup functions read it. \<open>MetricOptions\<close> is a pointer; the flag
  in it tells whether \<open>MRStateMetrics\<close> is set.
\<close>

record ctl_options =
  op_PollInterval :: duration
  op_MaxConcurrentReconciles :: int
  op_PollStateMetricInterval :: duration
  op_ManagementPolicies :: bool
  op_ChangeLogs :: bool
  op_MetricOptions :: "bool ptr"

definition managed_options :: "string \<Rightarrow> kube_kind \<Rightarrow> ctl_options \<Rightarrow> reconciler_option list" where
  "managed_options name kind os =
     [WithTypedExternalConnector kind, WithLogger name, WithPollInterval (op_PollInterval os), WithRecorder name,
      WithInitializers, WithDeterministicExternalName True]
     @ (if op_ManagementPolicies os then [WithManagementPolicies] else [])
     @ (if op_ChangeLogs os then [WithChangeLogger] else [])
     @ (case op_MetricOptions os of None \<Rightarrow> [] | Some _ \<Rightarrow> [WithMetricRecorder])"

definition add_state_recorder :: "wenv \<Rightarrow> ctl_options \<Rightarrow> kube_kind \<Rightarrow> wiring \<Rightarrow> error ptr \<times> wiring" where
  "add_state_recorder W os kind h =
     (case op_MetricOptions os of
        None \<Rightarrow> (None, h)
      | Some stateMetrics \<Rightarrow> if stateMetrics then mgr_Add W kind h else (None, h))"

definition template_Setup :: "wenv \<Rightarrow> ctl_options \<Rightarrow> wiring \<Rightarrow> error ptr \<times> wiring" where
  "template_Setup W os h =
     (let name = we_ControllerName W KTemplate
      in case add_state_recorder W os KTemplate h of
           (Some err, h1) \<Rightarrow> (Some err, h1)
         | (None, h1) \<Rightarrow> mgr_Complete W
             \<lparr>ct_Named = name, ct_For = KTemplate, ct_DesiredStateChanged = True, ct_Watches = [],
              ct_Options = managed_options name KTemplate os, ct_RateLimited = True,
              ct_MaxConcurrentReconciles = Some (op_MaxConcurrentReconciles os)\<rparr> h1)"

definition endpoint_Setup :: "wenv \<Rightarrow> ctl_options \<Rightarrow> wiring \<Rightarrow> error ptr \<times> wiring" where
  "endpoint_Setup W os h =
     (let name = we_ControllerName W KEndpoint
      in case add_state_recorder W os KEndpoint h of
           (Some err, h1) \<Rightarrow> (Some err, h1)
         | (None, h1) \<Rightarrow> mgr_Complete W
             \<lparr>ct_Named = name, ct_For = KEndpoint, ct_DesiredStateChanged = True, ct_Watches = [WatchResourceVersions KTemplate],
              ct_Options = managed_options name KEndpoint os, ct_RateLimited = True,
              ct_MaxConcurrentReconciles = Some (op_MaxConcurrentReconciles os)\<rparr> h1)"

definition plain_controller :: "string \<Rightarrow> kube_kind \<Rightarrow> controller" where
  "plain_controller name kind =
     \<lparr>ct_Named = name, ct_For = kind, ct_DesiredStateChanged = False, ct_Watches = [], ct_Options = [],
      ct_RateLimited = False, ct_MaxConcurrentReconciles = None\<rparr>"

definition janitor_controller :: controller where
  "janitor_controller = plain_controller ''endpoint-lifetime-janitor.runpod.crossplane.io'' KEndpoint"

definition reaper_controller :: controller where
  "reaper_controller = plain_controller ''template-expiry-reaper.runpod.crossplane.io'' KTemplate"

definition janitor_Setup :: "wenv \<Rightarrow> wiring \<Rightarrow> error ptr \<times> wiring" where
  "janitor_Setup W h =
     (case mgr_Complete W janitor_controller h of
        (Some err, h1) \<Rightarrow> (Some err, h1)
      | (None, h1) \<Rightarrow> mgr_Complete W reaper_controller h1)"

definition endpointcheck_Setup :: "wenv \<Rightarrow> wiring \<Rightarrow> error ptr \<times> wiring" where
  "endpointcheck_Setup W h = mgr_Complete W (plain_controller ''endpointcheck.verification.runpod.crossplane.io'' KEndpointCheck) h"

text \<open>The gated setups only register a callback; the callback panics when its setup fails.\<close>

definition template_SetupGated :: "wiring \<Rightarrow> error ptr \<times> wiring" where
  "template_SetupGated h = (None, h @ [WiRegister GatedTemplate [KTemplate, KEndpoint]])"

definition endpoint_SetupGated :: "wiring \<Rightarrow> error ptr \<times> wiring" where
  "endpoint_SetupGated h = (None, h @ [WiRegister GatedEndpoint [KEndpoint, KTemplate, KEndpointCheck]])"

definition janitor_SetupGated :: "wiring \<Rightarrow> error ptr \<times> wiring" where
  "janitor_SetupGated h = (None, h @ [WiRegister GatedJanitor [KEndpoint, KTemplate, KEndpointCheck]])"

fun gated_callback :: "wenv \<Rightarrow> ctl_options \<Rightarrow> gated \<Rightarrow> wiring \<Rightarrow> error ptr \<times> wiring" where
  "gated_callback W os GatedTemplate h = (case template_Setup W os h of
     (err, h1) \<Rightarrow> (map_option (wrap_text ''cannot setup Template controller'') err, h1))"
| "gated_callback W os GatedEndpoint h = (case endpoint_Setup W os h of
     (err, h1) \<Rightarrow> (map_option (wrap_text ''cannot setup Endpoint controller'') err, h1))"
| "gated_callback W os GatedJanitor h = (case janitor_Setup W h of
     (err, h1) \<Rightarrow> (map_option (wrap_text ''cannot setup Endpoint lifetime janitor'') err, h1))"

definition setupNamespacedProviderConfig :: "wenv \<Rightarrow> ctl_options \<Rightarrow> wiring \<Rightarrow> error ptr \<times> wiring" where
  "setupNamespacedProviderConfig W os h = mgr_Complete W
     \<lparr>ct_Named = we_ControllerName W KProviderConfig, ct_For = KProviderConfig, ct_DesiredStateChanged = False,
      ct_Watches = [WatchUsage KProviderConfig], ct_Options = [], ct_RateLimited = True,
      ct_MaxConcurrentReconciles = Some (op_MaxConcurrentReconciles os)\<rparr> h"

definition setupClusterProviderConfig :: "wenv \<Rightarrow> ctl_options \<Rightarrow> wiring \<Rightarrow> error ptr \<times> wiring" where
  "setupClusterProviderConfig W os h = mgr_Complete W
     \<lparr>ct_Named = we_ControllerName W KClusterProviderConfig, ct_For = KClusterProviderConfig, ct_DesiredStateChanged = False,
      ct_Watches = [WatchUsage KClusterProviderConfig], ct_Options = [], ct_RateLimited = True,
      ct_MaxConcurrentReconciles = Some (op_MaxConcurrentReconciles os)\<rparr> h"

definition config_Setup :: "wenv \<Rightarrow> ctl_options \<Rightarrow> wiring \<Rightarrow> error ptr \<times> wiring" where
  "config_Setup W os h =
     (case setupNamespacedProviderConfig W os h of
        (Some err, h1) \<Rightarrow> (Some err, h1)
      | (None, h1) \<Rightarrow> setupClusterProviderConfig W os h1)"

text \<open>\<open>SetupGated\<close> of \<open>runpod.go\<close>: the setups in order, until one fails.\<close>

fun setup_all :: "(wiring \<Rightarrow> error ptr \<times> wiring) list \<Rightarrow> wiring \<Rightarrow> error ptr \<times> wiring" where
  "setup_all [] h = (None, h)"
| "setup_all (setup # setups) h =
     (case setup h of
        (Some err, h1) \<Rightarrow> (Some err, h1)
      | (None, h1) \<Rightarrow> setup_all setups h1)"

definition runpod_SetupGated :: "wenv \<Rightarrow> ctl_options \<Rightarrow> wiring \<Rightarrow> error ptr \<times> wiring" where
  "runpod_SetupGated W os h = setup_all [config_Setup W os, template_SetupGated, endpoint_SetupGated, janitor_SetupGated] h"

section \<open>The main functions\<close>

datatype exit = Exit | Fatal string

text \<open>\<open>kingpin.FatalIfError\<close> and \<open>log.Fatal\<close> after a failed call: the process ends with the message.\<close>

definition fatal_on :: "string \<Rightarrow> error ptr \<times> wiring \<Rightarrow> (wiring \<Rightarrow> exit \<times> wiring) \<Rightarrow> exit \<times> wiring" where
  "fatal_on message p continue =
     (case p of
        (Some err, h) \<Rightarrow> (Fatal message, h)
      | (None, h) \<Rightarrow> continue h)"

record provider_flags =
  pf_debug :: bool
  pf_leaderElection :: bool
  pf_syncInterval :: duration
  pf_pollInterval :: duration
  pf_pollStateMetricInterval :: duration
  pf_maxReconcileRate :: int
  pf_enableManagementPolicies :: bool
  pf_enableChangeLogs :: bool
  pf_changelogsSocketPath :: string
  pf_enableSecretCache :: bool

definition provider_manager_options :: "provider_flags \<Rightarrow> manager_options" where
  "provider_manager_options f =
     \<lparr>mo_DefaultNamespaces = [], mo_DisableFor = (if \<not> pf_enableSecretCache f then [KSecret] else []),
      mo_SyncPeriod = Some (pf_syncInterval f), mo_TransformStripCRDSchema = True,
      mo_LeaderElection = pf_leaderElection f, mo_LeaderElectionID = ''crossplane-leader-election-provider-runpod'',
      mo_LeaderElectionResourceLock = ''leases'', mo_LeaseDuration = Some (60 * Second), mo_RenewDeadline = Some (50 * Second),
      mo_MetricsBindAddress = [], mo_HealthProbeBindAddress = []\<rparr>"

definition provider_options :: "provider_flags \<Rightarrow> ctl_options" where
  "provider_options f =
     \<lparr>op_PollInterval = pf_pollInterval f, op_MaxConcurrentReconciles = pf_maxReconcileRate f,
      op_PollStateMetricInterval = pf_pollStateMetricInterval f, op_ManagementPolicies = pf_enableManagementPolicies f,
      op_ChangeLogs = pf_enableChangeLogs f, op_MetricOptions = Some True\<rparr>"

definition provider_main :: "wenv \<Rightarrow> provider_flags \<Rightarrow> wiring \<Rightarrow> exit \<times> wiring" where
  "provider_main W f h =
     fatal_on ''Cannot get API server rest config'' (lib_call W ''ctrl.GetConfig'' h) (\<lambda>h.
     fatal_on ''Cannot add clientgo scheme'' (lib_call W ''clientgoscheme.AddToScheme'' h) (\<lambda>h.
     fatal_on ''Cannot add RunPod APIs to scheme'' (lib_call W ''apis.AddToScheme'' h) (\<lambda>h.
     fatal_on ''Cannot add CustomResourceDefinition to scheme'' (lib_call W ''apiextensionsv1.AddToScheme'' h) (\<lambda>h.
     fatal_on ''Cannot create controller manager'' (ctrl_NewManager W (provider_manager_options f) h) (\<lambda>h.
     fatal_on (''failed to create change logs client connection at '' @ pf_changelogsSocketPath f)
       (if pf_enableChangeLogs f then lib_call W ''grpc.NewClient'' h else (None, h)) (\<lambda>h.
     fatal_on ''Cannot setup CRD gate controller'' (lib_call W ''customresourcesgate.Setup'' h) (\<lambda>h.
     fatal_on ''Cannot setup RunPod controllers'' (runpod_SetupGated W (provider_options f) h) (\<lambda>h.
     fatal_on ''Cannot start controller manager'' (lib_call W ''mgr.Start'' h) (\<lambda>h. (Exit, h))))))))))"

text \<open>\<open>New\<close> of \<open>router.go\<close> without the transport settings; an option may be refused.\<close>

datatype router_option = WithAPIReader bool

fun router_options :: "router_option list \<Rightarrow> router \<Rightarrow> router result" where
  "router_options [] r = Inr r"
| "router_options (WithAPIReader given # opts) r =
     (if \<not> given then Inl (Err ''Kubernetes API reader is required'') else router_options opts r)"

definition router_New :: "bool \<Rightarrow> string \<Rightarrow> router_option list \<Rightarrow> router result" where
  "router_New given namespace opts =
     (if \<not> given \<or> namespace = [] then Inl (Err ''Kubernetes client and namespace are required'')
      else router_options opts initial_router)"

text \<open>
  The \<open>main\<close> of \<open>cmd/model-router\<close>. The three goroutines are started in the order of the source; what
  the \<open>select\<close> receives is the argument \<open>stop\<close>. \<open>serverClosed\<close> tells which errors are
  \<open>http.ErrServerClosed\<close>.
\<close>

datatype stop_cause = ManagerStopped "error ptr" | ServerStopped "error ptr" | Signalled

definition stopped_error :: "stop_cause \<Rightarrow> error ptr" where
  "stopped_error stop = (case stop of ManagerStopped err \<Rightarrow> err | ServerStopped err \<Rightarrow> err | Signalled \<Rightarrow> None)"

definition router_manager_options :: "string \<Rightarrow> manager_options" where
  "router_manager_options namespace =
     \<lparr>mo_DefaultNamespaces = [namespace], mo_DisableFor = [KSecret, KEndpoint], mo_SyncPeriod = None,
      mo_TransformStripCRDSchema = False, mo_LeaderElection = False, mo_LeaderElectionID = [],
      mo_LeaderElectionResourceLock = [], mo_LeaseDuration = None, mo_RenewDeadline = None,
      mo_MetricsBindAddress = ''0'', mo_HealthProbeBindAddress = ''0''\<rparr>"

definition router_server :: "string \<Rightarrow> http_server" where
  "router_server listen =
     \<lparr>hs_Addr = listen, hs_ReadHeaderTimeout = 5 * Second, hs_ReadTimeout = 30 * Second,
      hs_WriteTimeout = 10 * Minute, hs_IdleTimeout = 60 * Second, hs_MaxHeaderBytes = 16 * 1024\<rparr>"

definition router_serve :: "(error \<Rightarrow> bool) \<Rightarrow> string \<Rightarrow> stop_cause \<Rightarrow> wiring \<Rightarrow> exit \<times> wiring" where
  "router_serve serverClosed listen stop h =
     (let h1 = h @ [WiRun (2 * Second), WiCall ''mgr.Start'', WiServe (router_server listen)];
          h2 = h1 @ [WiCall ''cancel'', WiShutdown (10 * Second)]
      in case stopped_error stop of
           None \<Rightarrow> (Exit, h2)
         | Some err \<Rightarrow> (if \<not> serverClosed err then Fatal ''model-router stopped unexpectedly'' else Exit, h2))"

definition model_router_main :: "wenv \<Rightarrow> (error \<Rightarrow> bool) \<Rightarrow> string \<Rightarrow> string \<Rightarrow> stop_cause \<Rightarrow> wiring \<Rightarrow> exit \<times> wiring" where
  "model_router_main W serverClosed listen namespace stop h =
     (if namespace = [] then (Fatal ''namespace is required'', h)
      else fatal_on ''cannot register core API'' (lib_call W ''corev1.AddToScheme'' h) (\<lambda>h.
        fatal_on ''cannot register provider API'' (lib_call W ''apis.AddToScheme'' h) (\<lambda>h.
        fatal_on ''cannot create namespace-scoped controller manager'' (ctrl_NewManager W (router_manager_options namespace) h) (\<lambda>h.
        fatal_on ''cannot setup EndpointCheck controller'' (endpointcheck_Setup W h) (\<lambda>h.
        case router_New True namespace [WithAPIReader True] of
          Inl err \<Rightarrow> (Fatal ''cannot create model router'', h)
        | Inr handler \<Rightarrow> router_serve serverClosed listen stop h)))))"

section \<open>Which kinds the handlers use\<close>

fun event_kind :: "event \<Rightarrow> kube_kind option" where
  "event_kind (EvGet k ns n) = Some k"
| "event_kind (EvList k ns) = Some k"
| "event_kind (EvUpdateTemplate t) = Some KTemplate"
| "event_kind (EvUpdateEndpoint e) = Some KEndpoint"
| "event_kind (EvUpdateCheck k) = Some KEndpointCheck"
| "event_kind (EvStatusUpdateCheck k) = Some KEndpointCheck"
| "event_kind (EvPatchEndpoint a b) = Some KEndpoint"
| "event_kind (EvDelete k ns n) = Some k"
| "event_kind EvTrack = Some KProviderConfigUsage"
| "event_kind _ = None"

definition touches :: "kube_kind set \<Rightarrow> trace \<Rightarrow> trace \<Rightarrow> bool" where
  "touches K h h' \<longleftrightarrow> (\<exists>t. h' = h @ t \<and> (\<forall>ev \<in> set t. set_option (event_kind ev) \<subseteq> K))"

lemma touches_refl [simp, intro]: "touches K h h"
  by (simp add: touches_def)

lemma touches_trans [trans]: "touches K h h1 \<Longrightarrow> touches K h1 h2 \<Longrightarrow> touches K h h2"
  by (force simp: touches_def)

lemma touches_append [simp]: "touches K h (h @ t) \<longleftrightarrow> (\<forall>ev \<in> set t. set_option (event_kind ev) \<subseteq> K)"
  by (simp add: touches_def)

lemma touches_step: "touches K (h @ t) h' \<Longrightarrow> \<forall>ev \<in> set t. set_option (event_kind ev) \<subseteq> K \<Longrightarrow> touches K h h'"
  by (rule touches_trans [of K h "h @ t"]) simp_all

lemma touches_clock: "touches K (h @ [EvClock]) h' \<Longrightarrow> touches K h h'"
  by (erule touches_step) simp

lemma touches_mono: "touches K h h' \<Longrightarrow> K \<subseteq> K' \<Longrightarrow> touches K' h h'"
  by (fastforce simp: touches_def)

lemma touches_emits: "emits h h' rs \<Longrightarrow> touches K h h'"
proof -
  have "set_option (event_kind ev) \<subseteq> K" if "client_event ev" for ev using that by (cases ev) auto
  then show "emits h h' rs \<Longrightarrow> touches K h h'" by (auto simp: emits_def touches_def list_all_iff)
qed

text \<open>The management client touches no Kubernetes object.\<close>

lemma client_touches:
  "GetTemplate E c rid h = (r1, h') \<Longrightarrow> touches K h h'" "FindTemplateByName E c rid h = (r1, h') \<Longrightarrow> touches K h h'"
  "CreateTemplate E c ti h = (r1, h') \<Longrightarrow> touches K h h'" "UpdateTemplate E c rid ti h = (r1, h') \<Longrightarrow> touches K h h'"
  "DeleteTemplate E c rid h = (err, h') \<Longrightarrow> touches K h h'" "ListEndpoints E c h = (rs, h') \<Longrightarrow> touches K h h'"
  "GetEndpoint E c rid h = (r2, h') \<Longrightarrow> touches K h h'" "FindEndpointByName E c rid h = (r2, h') \<Longrightarrow> touches K h h'"
  "CreateEndpoint E c ei h = (r2, h') \<Longrightarrow> touches K h h'" "UpdateEndpoint E c rid ei h = (r2, h') \<Longrightarrow> touches K h h'"
  "DeleteEndpoint E c rid h = (err, h') \<Longrightarrow> touches K h h'"
  by (auto dest!: templates.get_emits templates.find_emits templates.create_emits templates.update_emits templates.del_emits
      endpoints.get_emits endpoints.find_emits endpoints.create_emits endpoints.update_emits endpoints.del_emits ListEndpoints_emits
      intro: touches_emits)

text \<open>
  The kinds no gate waits for: the built-in Secret, and the kinds of the provider's own configuration.
  Of these \<open>usage.Track\<close>, the first call of every \<open>Connect\<close>, reads and writes a ProviderConfigUsage.
\<close>

definition ungated_kinds :: "kube_kind set" where
  "ungated_kinds = {KSecret, KProviderConfig, KClusterProviderConfig, KProviderConfigUsage}"

lemma Connect_touches: "Connect E cr h = (r, h') \<Longrightarrow> ungated_kinds \<subseteq> K \<Longrightarrow> touches K h h'"
  by (auto simp: Connect_def loadCredential_def providerCredentials_def usage_Track_def get_ProviderConfig_def
      get_ClusterProviderConfig_def get_Secret_def ungated_kinds_def split: option.splits sum.splits if_splits)

text \<open>The Template controller's handlers.\<close>

lemma template_parts_touch:
  "template_bindExternalID E x cr rid h = (cr', h') \<Longrightarrow> touches K h h'"
  "template_setObservation E cr got h = (cr', h') \<Longrightarrow> touches K h h'"
  by (auto simp: template_bindExternalID_def template_setObservation_def time_Now_def)

lemma template_Observe_touches: "template_Observe E x c cr h = (r, cr', h') \<Longrightarrow> touches K h h'"
proof -
  have got: "template_Observe_got E x cr rid got h = (r, cr', h') \<Longrightarrow> touches K h h'" for cr rid got h r cr'
    by (auto simp: template_Observe_got_def Let_def split: sum.splits option.splits if_splits prod.splits dest!: template_parts_touch)
  have pending: "template_Observe_pending E x c cr pendingName h = (r, cr', h') \<Longrightarrow> touches K h h'" for pendingName
    by (auto simp: template_Observe_pending_def Let_def split: sum.splits option.splits if_splits prod.splits
        dest!: template_parts_touch client_touches [where K = K] elim!: touches_trans)
  show "template_Observe E x c cr h = (r, cr', h') \<Longrightarrow> touches K h h'"
    by (auto simp: template_Observe_def template_Observe_bound_def Let_def split: sum.splits option.splits if_splits prod.splits
        dest!: pending got client_touches [where K = K] elim!: touches_trans)
qed

lemma template_Create_touches: "template_Create E x c cr h = (err, cr', h') \<Longrightarrow> touches K h h'"
proof -
  have recover: "template_recoverAmbiguousCreate E x c cr ti name h = (cr', h') \<Longrightarrow> touches K h h'" for cr ti name h cr' h'
    by (auto simp: template_recoverAmbiguousCreate_def Let_def split: sum.splits if_splits prod.splits
        dest!: template_parts_touch [where K = K] client_touches [where K = K] elim!: touches_trans)
  have checked: "template_Create_checked E x c cr h = (err, cr', h') \<Longrightarrow> touches K h h'" for cr h
    by (auto simp: template_Create_checked_def Let_def split: sum.splits option.splits if_splits prod.splits
        dest!: recover template_parts_touch [where K = K] client_touches [where K = K] elim!: touches_trans)
  show "template_Create E x c cr h = (err, cr', h') \<Longrightarrow> touches K h h'"
    by (auto simp: template_Create_def time_Now_def Let_def split: option.splits if_splits dest!: checked touches_clock)
qed

lemma template_Update_touches: "template_Update E x c cr h = (err, cr', h') \<Longrightarrow> touches K h h'"
  by (auto simp: template_Update_def time_Now_def Let_def split: sum.splits option.splits if_splits prod.splits
      dest!: template_parts_touch [where K = K] client_touches [where K = K] touches_clock elim!: touches_trans)

lemma template_Delete_touches: "template_Delete E x c cr h = (err, cr', h') \<Longrightarrow> KEndpoint \<in> K \<Longrightarrow> touches K h h'"
  by (auto simp: template_Delete_def template_Delete_guarded_def list_Endpoints_def Let_def
      split: sum.splits option.splits if_splits prod.splits dest!: client_touches [where K = K]
      elim!: touches_trans dest: touches_step)

text \<open>The Endpoint controller's handlers.\<close>

lemma endpoint_parts_touch:
  "endpoint_bindExternalID E x cr rid h = (cr', h') \<Longrightarrow> touches K h h'"
  "endpoint_setObservation E cr got w tb a h = (p, cr', h') \<Longrightarrow> touches K h h'"
  by (auto simp: endpoint_bindExternalID_def endpoint_setObservation_def time_Now_def split: option.splits)

lemma expectedTemplateIDForCleanup_touches:
  "expectedTemplateIDForCleanup E x cr h = (r, h') \<Longrightarrow> KTemplate \<in> K \<Longrightarrow> touches K h h'"
  by (auto simp: expectedTemplateIDForCleanup_def get_Template_def Let_def split: option.splits sum.splits if_splits)

lemma endpoint_Connect_touches:
  assumes "ungated_kinds \<subseteq> K" "KTemplate \<in> K"
  shows "endpoint_Connect E x cr h = (r, h') \<Longrightarrow> touches K h h'"
proof -
  have resolve: "resolveTemplate E x cr h = (r, h') \<Longrightarrow> touches K h h'" for h r h'
    using assms(2) by (auto simp: resolveTemplate_def resolveTemplate_checked_def get_Template_def time_Now_def Let_def
        split: option.splits sum.splits if_splits)
  show "endpoint_Connect E x cr h = (r, h') \<Longrightarrow> touches K h h'"
    by (auto simp: endpoint_Connect_def split: sum.splits prod.splits dest!: Connect_touches [OF _ assms(1)] resolve
        elim!: touches_trans)
qed

lemma endpoint_Observe_touches: 
  assumes "KTemplate \<in> K"
  shows "endpoint_Observe E x c tb cr h = (r, cr', h') \<Longrightarrow> touches K h h'"
proof -
  note parts = endpoint_parts_touch [where K = K] client_touches [where K = K] expectedTemplateIDForCleanup_touches [OF _ assms]
  have got: "endpoint_Observe_got E x tb cr got h = (r, cr', h') \<Longrightarrow> touches K h h'" for cr got h
    by (auto simp: endpoint_Observe_got_def Let_def split: sum.splits option.splits if_splits prod.splits dest!: parts)
  have recover: "endpoint_Observe_recover E x c tb cr n got h = (r, cr', h') \<Longrightarrow> touches K h h'" for n got h
    by (auto simp: endpoint_Observe_recover_def Let_def split: sum.splits option.splits if_splits prod.splits
        dest!: parts elim!: touches_trans)
  have pending: "endpoint_Observe_pending E x c tb cr n h = (r, cr', h') \<Longrightarrow> touches K h h'" for n
    by (auto simp: endpoint_Observe_pending_def Let_def split: sum.splits option.splits if_splits prod.splits
        dest!: recover parts elim!: touches_trans)
  show "endpoint_Observe E x c tb cr h = (r, cr', h') \<Longrightarrow> touches K h h'"
    by (auto simp: endpoint_Observe_def endpoint_Observe_bound_def Let_def split: sum.splits option.splits if_splits prod.splits
        dest!: pending got parts elim!: touches_trans)
qed

lemma endpoint_Create_touches: "endpoint_Create E x c tb cr h = (err, cr', h') \<Longrightarrow> touches K h h'"
proof -
  note parts = endpoint_parts_touch [where K = K] client_touches [where K = K] touches_clock
  have recover: "endpoint_recoverAmbiguousCreate E x c tb cr i n h = (cr', h') \<Longrightarrow> touches K h h'" for cr i n h cr' h'
    by (auto simp: endpoint_recoverAmbiguousCreate_def Let_def split: sum.splits if_splits prod.splits
        dest!: parts elim!: touches_trans) (metis endpoint_parts_touch(2) prod.collapse touches_trans)
  have send: "endpoint_Create_send E x c tb cr i h = (err, cr', h') \<Longrightarrow> touches K h h'" for cr i h
    by (auto simp: endpoint_Create_send_def Let_def split: sum.splits if_splits prod.splits
        dest!: recover parts elim!: touches_trans)
  show "endpoint_Create E x c tb cr h = (err, cr', h') \<Longrightarrow> touches K h h'"
    by (auto simp: endpoint_Create_def time_Now_def Let_def split: sum.splits option.splits if_splits prod.splits
        dest!: send recover parts elim!: touches_trans)
qed

lemma endpoint_Update_touches: "endpoint_Update E x c tb cr h = (err, cr', h') \<Longrightarrow> touches K h h'"
  by (auto simp: endpoint_Update_def time_Now_def Let_def split: sum.splits option.splits if_splits prod.splits
      dest!: endpoint_parts_touch [where K = K] client_touches [where K = K] touches_clock elim!: touches_trans)

lemma endpoint_Delete_touches: "endpoint_Delete E x c cr h = (err, cr', h') \<Longrightarrow> KEndpointCheck \<in> K \<Longrightarrow> touches K h h'"
  by (auto simp: endpoint_Delete_def list_EndpointChecks_def Let_def split: sum.splits option.splits if_splits prod.splits
      dest!: client_touches [where K = K] elim!: touches_trans dest: touches_step)

text \<open>The janitor, the reaper and the mapping from Template events.\<close>

lemma kube_Write_ignoring_touches:
  "kube_Write_ignoring_NotFound E ev h = (err, h') \<Longrightarrow> set_option (event_kind ev) \<subseteq> K \<Longrightarrow> touches K h h'"
  by (auto simp: kube_Write_ignoring_NotFound_def kube_Write_def split: option.splits if_splits)

lemma deleteChecks_touches:
  assumes "KEndpointCheck \<in> K" "deleteChecks E ep h = (r, h')"
  shows "touches K h h'"
proof -
  have loop: "deleteChecks_loop E n ks found h = (r, h') \<Longrightarrow> touches K h h'" for n ks found h
  proof (induction ks arbitrary: found h)
    case (Cons k ks)
    with assms(1) show ?case
      by (auto split: if_splits prod.splits option.splits dest!: kube_Write_ignoring_touches [where K = K] Cons.IH elim!: touches_trans)
  qed simp
  show ?thesis
    using assms by (auto simp: deleteChecks_def list_EndpointChecks_def split: sum.splits dest!: loop dest: touches_step)
qed

lemma markTemplateForReaping_touches:
  "markTemplateForReaping E ep ref h = (err, h') \<Longrightarrow> KTemplate \<in> K \<Longrightarrow> touches K h h'"
  by (auto simp: markTemplateForReaping_def get_Template_def kube_Write_def split: sum.splits if_splits)

lemma janitor_Reconcile_touches:
  assumes "{KEndpoint, KTemplate, KEndpointCheck} \<subseteq> K" "janitor_Reconcile E ns name h = (r, h')"
  shows "touches K h h'"
proof -
  have release: "janitor_release E ep h = (r, h') \<Longrightarrow> touches K h h'" for ep h
    using assms(1) by (auto simp: janitor_release_def split: if_splits prod.splits option.splits
        dest!: kube_Write_ignoring_touches [where K = K])
  have cleanup: "janitor_cleanup E ep expired h = (r, h') \<Longrightarrow> touches K h h'" for ep expired h
    using assms(1) by (auto simp: janitor_cleanup_def split: if_splits prod.splits option.splits sum.splits
        dest!: release deleteChecks_touches [of K, rotated] markTemplateForReaping_touches [where K = K] elim!: touches_trans)
  show ?thesis
    using assms by (auto simp: janitor_Reconcile_def get_Endpoint_def kube_Write_def time_Now_def Let_def
        split: sum.splits if_splits option.splits dest!: cleanup touches_step)
qed

lemma templateReconciler_touches:
  assumes "KTemplate \<in> K" "KEndpoint \<in> K" "templateReconciler_Reconcile E ns name h = (r, h')"
  shows "touches K h h'"
proof -
  have delete: "reaper_delete E t h = (r, h') \<Longrightarrow> touches K h h'" for t h
    using assms(1,2) by (auto simp: reaper_delete_def list_Endpoints_def split: sum.splits if_splits prod.splits option.splits
        dest!: kube_Write_ignoring_touches [where K = K] dest: touches_step)
  show ?thesis
    using assms by (auto simp: templateReconciler_Reconcile_def get_Template_def time_Now_def Let_def
        split: sum.splits if_splits prod.splits dest!: delete touches_step)
qed

lemma requestsForTemplate_touches: "requestsForTemplate E object h = (rs, h') \<Longrightarrow> KEndpoint \<in> K \<Longrightarrow> touches K h h'"
  by (auto simp: requestsForTemplate_def list_Endpoints_def split: sum.splits)

section \<open>The gate\<close>

text \<open>
  After \<open>main\<close> has registered the callbacks, kinds become established, and the gate runs a callback
  once every kind it was registered for is.
\<close>

inductive gate_step :: "wenv \<Rightarrow> ctl_options \<Rightarrow> kube_kind set \<times> wiring \<Rightarrow> kube_kind set \<times> wiring \<Rightarrow> bool" for W os where
  establish: "es \<subseteq> es' \<Longrightarrow> gate_step W os (es, h) (es', h)"
| run: "WiRegister g ks \<in> set h \<Longrightarrow> set ks \<subseteq> es \<Longrightarrow> gated_callback W os g h = (err, h') \<Longrightarrow> gate_step W os (es, h) (es, h')"

text \<open>\<open>(*connector).Connect\<close> of \<open>template.go\<close>: the external client holds the service only.\<close>

definition template_Connect :: "env \<Rightarrow> template_cr \<Rightarrow> trace \<Rightarrow> client result \<times> trace" where
  "template_Connect E cr h =
     (case Connect E cr h of
        (Inl err, h1) \<Rightarrow> (Inl err, h1)
      | (Inr svc, h1) \<Rightarrow> (Inr svc, h1))"

lemma template_Connect_touches: "template_Connect E cr h = (r, h') \<Longrightarrow> ungated_kinds \<subseteq> K \<Longrightarrow> touches K h h'"
  by (auto simp: template_Connect_def split: prod.splits sum.splits dest: Connect_touches)

text \<open>The handler calls of a controller: those of the reconciler it was built with.\<close>

inductive handles :: "controller \<Rightarrow> trace \<Rightarrow> trace \<Rightarrow> bool" where
  template_Connect: "WithTypedExternalConnector KTemplate \<in> set (ct_Options ct) \<Longrightarrow>
    template_Connect E tcr t = (r, t') \<Longrightarrow> handles ct t t'"
| template_Observe: "WithTypedExternalConnector KTemplate \<in> set (ct_Options ct) \<Longrightarrow>
    template_Observe E x c tcr t = (ob, tcr', t') \<Longrightarrow> handles ct t t'"
| template_Create: "WithTypedExternalConnector KTemplate \<in> set (ct_Options ct) \<Longrightarrow>
    template_Create E x c tcr t = (err, tcr', t') \<Longrightarrow> handles ct t t'"
| template_Update: "WithTypedExternalConnector KTemplate \<in> set (ct_Options ct) \<Longrightarrow>
    template_Update E x c tcr t = (err, tcr', t') \<Longrightarrow> handles ct t t'"
| template_Delete: "WithTypedExternalConnector KTemplate \<in> set (ct_Options ct) \<Longrightarrow>
    template_Delete E x c tcr t = (err, tcr', t') \<Longrightarrow> handles ct t t'"
| endpoint_Connect: "WithTypedExternalConnector KEndpoint \<in> set (ct_Options ct) \<Longrightarrow>
    endpoint_Connect E x ecr t = (rb, t') \<Longrightarrow> handles ct t t'"
| endpoint_Observe: "WithTypedExternalConnector KEndpoint \<in> set (ct_Options ct) \<Longrightarrow>
    endpoint_Observe E x c tb ecr t = (ob, ecr', t') \<Longrightarrow> handles ct t t'"
| endpoint_Create: "WithTypedExternalConnector KEndpoint \<in> set (ct_Options ct) \<Longrightarrow>
    endpoint_Create E x c tb ecr t = (err, ecr', t') \<Longrightarrow> handles ct t t'"
| endpoint_Update: "WithTypedExternalConnector KEndpoint \<in> set (ct_Options ct) \<Longrightarrow>
    endpoint_Update E x c tb ecr t = (err, ecr', t') \<Longrightarrow> handles ct t t'"
| endpoint_Delete: "WithTypedExternalConnector KEndpoint \<in> set (ct_Options ct) \<Longrightarrow>
    endpoint_Delete E x c ecr t = (err, ecr', t') \<Longrightarrow> handles ct t t'"
| template_watch: "WatchResourceVersions KTemplate \<in> set (ct_Watches ct) \<Longrightarrow>
    requestsForTemplate E object t = (rs, t') \<Longrightarrow> handles ct t t'"
| janitor: "janitor_Reconcile E ns name t = (d, t') \<Longrightarrow> handles janitor_controller t t'"
| reaper: "templateReconciler_Reconcile E ns name t = (d, t') \<Longrightarrow> handles reaper_controller t t'"

text \<open>What a controller needs, by what it is built from.\<close>

definition needs :: "controller \<Rightarrow> kube_kind set" where
  "needs ct =
     (if WithTypedExternalConnector KTemplate \<in> set (ct_Options ct) then {KTemplate, KEndpoint} else {})
     \<union> (if WithTypedExternalConnector KEndpoint \<in> set (ct_Options ct) then {KEndpoint, KTemplate, KEndpointCheck} else {})
     \<union> (if WatchResourceVersions KTemplate \<in> set (ct_Watches ct) then {KTemplate, KEndpoint} else {})
     \<union> (if ct = janitor_controller then {KEndpoint, KTemplate, KEndpointCheck} else {})
     \<union> (if ct = reaper_controller then {KTemplate, KEndpoint} else {})"

lemma handles_touches: "handles ct t t' \<Longrightarrow> needs ct \<union> ungated_kinds \<subseteq> K \<Longrightarrow> touches K t t'"
  by (induction rule: handles.induct)
    (auto simp: needs_def split: if_splits intro: template_Connect_touches template_Observe_touches template_Create_touches
      template_Update_touches template_Delete_touches endpoint_Connect_touches endpoint_Observe_touches endpoint_Create_touches
      endpoint_Update_touches endpoint_Delete_touches requestsForTemplate_touches janitor_Reconcile_touches templateReconciler_touches)

text \<open>What the wiring trace may hold when the kinds \<open>es\<close> are established.\<close>

fun wired :: "kube_kind set \<Rightarrow> wiring_event \<Rightarrow> bool" where
  "wired es (WiRegister g ks) \<longleftrightarrow> ks = (case g of GatedTemplate \<Rightarrow> [KTemplate, KEndpoint] | _ \<Rightarrow> [KEndpoint, KTemplate, KEndpointCheck])"
| "wired es (WiAdd k) \<longleftrightarrow> k \<in> es"
| "wired es (WiComplete ct) \<longleftrightarrow> ct_For ct \<in> es \<union> ungated_kinds \<and> needs ct \<subseteq> es"
| "wired es _ \<longleftrightarrow> True"

lemma connector_option [simp]: "WithTypedExternalConnector k \<in> set (managed_options name kind os) \<longleftrightarrow> k = kind"
  by (auto simp: managed_options_def split: option.splits)

lemma plain_needs [simp]:
  "needs janitor_controller = {KEndpoint, KTemplate, KEndpointCheck}" "needs reaper_controller = {KTemplate, KEndpoint}"
  "ct_For janitor_controller = KEndpoint" "ct_For reaper_controller = KTemplate"
  by (auto simp: needs_def janitor_controller_def reaper_controller_def plain_controller_def)

lemma rate_limited_needs: "ct_RateLimited ct \<Longrightarrow> ct \<noteq> janitor_controller \<and> ct \<noteq> reaper_controller"
  by (auto simp: janitor_controller_def reaper_controller_def plain_controller_def)

lemma wired_mono: "wired es ev \<Longrightarrow> es \<subseteq> es' \<Longrightarrow> wired es' ev"
  by (cases ev) auto

lemma gated_callback_wired:
  assumes "gated_callback W os g h = (err, h')" "wired es (WiRegister g ks)" "set ks \<subseteq> es" "list_all (wired es) h"
  shows "list_all (wired es) h'"
  using assms
  by (cases g) (auto simp: template_Setup_def endpoint_Setup_def janitor_Setup_def add_state_recorder_def mgr_Add_def mgr_Complete_def
      Let_def needs_def rate_limited_needs split: option.splits prod.splits if_splits)

lemma gate_step_wired: "gate_step W os s t \<Longrightarrow> list_all (wired (fst s)) (snd s) \<Longrightarrow> list_all (wired (fst t)) (snd t)"
proof (induction rule: gate_step.induct)
  case (establish es es' h)
  then show ?case by (auto simp: list_all_iff intro: wired_mono)
next
  case (run g ks h es err h')
  then have "wired es (WiRegister g ks)" by (auto simp: list_all_iff)
  with run gated_callback_wired show ?case by auto
qed

interpretation gate: step_invariant "gate_step W os" "\<lambda>s. list_all (wired (fst s)) (snd s)" for W os
  by unfold_locales (rule gate_step_wired)

lemma provider_main_wired:
  assumes "provider_main W f [] = (ex, h)"
  shows "list_all (wired {}) h"
  using assms
  by (auto simp: provider_main_def fatal_on_def lib_call_def ctrl_NewManager_def runpod_SetupGated_def config_Setup_def setupNamespacedProviderConfig_def
      setupClusterProviderConfig_def template_SetupGated_def endpoint_SetupGated_def janitor_SetupGated_def mgr_Complete_def
      needs_def ungated_kinds_def rate_limited_needs split: option.splits prod.splits if_splits)

text \<open>The model router serves requests only when every step of its start succeeded.\<close>

lemma model_router_serves:
  assumes "model_router_main W serverClosed listen namespace stop [] = (ex, h)" "WiServe server \<in> set h"
  shows "namespace \<noteq> [] \<and> (ex = Exit \<longleftrightarrow> (\<forall>err. stopped_error stop = Some err \<longrightarrow> serverClosed err))
    \<and> (\<exists>h1. h = h1 @ [WiRun (2 * Second), WiCall ''mgr.Start'', WiServe server, WiCall ''cancel'', WiShutdown (10 * Second)]
       \<and> WiComplete (plain_controller ''endpointcheck.verification.runpod.crossplane.io'' KEndpointCheck) \<in> set h1)"
  using assms
  by (auto simp: model_router_main_def fatal_on_def lib_call_def ctrl_NewManager_def endpointcheck_Setup_def mgr_Complete_def
      router_serve_def router_New_def Let_def split: option.splits prod.splits if_splits)

section \<open>Properties\<close>

text \<open>
  C25: Safe start. Whatever the libraries answer, once \<open>main\<close> of the provider has registered the
  controllers, and in whatever order custom resource definitions become established and the gate
  runs its callbacks: a controller that has been built reconciles an established kind, or the
  ProviderConfig or ClusterProviderConfig kind, for which no gate waits; the state recorders list
  established kinds; and no call of a handler of that controller reads, lists, writes or deletes an
  object of any other kind, apart from the ungated ones: Secrets, ProviderConfigs,
  ClusterProviderConfigs and the ProviderConfigUsage that every \<open>Connect\<close> records. For these four the
  start gives no guarantee.
\<close>

theorem provider_safe_start:
  assumes "provider_main W f [] = (ex, h0)" "(gate_step W (provider_options f))\<^sup>*\<^sup>* ({}, h0) (es, h)" "WiComplete ct \<in> set h"
  shows "ct_For ct \<in> es \<union> ungated_kinds \<and> (\<forall>t t'. handles ct t t' \<longrightarrow> touches (es \<union> ungated_kinds) t t')
    \<and> {k. WiAdd k \<in> set h} \<subseteq> es"
proof -
  have "list_all (wired es) h"
    using gate.along_run [OF assms(2)] provider_main_wired [OF assms(1)] by simp
  then have ct: "wired es (WiComplete ct)" and add: "\<And>k. WiAdd k \<in> set h \<Longrightarrow> wired es (WiAdd k)"
    using assms(3) unfolding list_all_iff by blast+
  then have "needs ct \<union> ungated_kinds \<subseteq> es \<union> ungated_kinds" by auto
  with ct add handles_touches show ?thesis by auto
qed

text \<open>Nothing fails, all kinds become established, and the Endpoint controller is built.\<close>

definition quiet_wenv :: wenv where
  "quiet_wenv = \<lparr>we_ControllerName = (\<lambda>k. ''managed''), we_Add = (\<lambda>_ _. None), we_Complete = (\<lambda>_ _. None), we_Call = (\<lambda>_ _. None)\<rparr>"

definition default_flags :: provider_flags where
  "default_flags = \<lparr>pf_debug = False, pf_leaderElection = False, pf_syncInterval = Hour, pf_pollInterval = 60 * Second,
     pf_pollStateMetricInterval = 5 * Second, pf_maxReconcileRate = 10, pf_enableManagementPolicies = True,
     pf_enableChangeLogs = False, pf_changelogsSocketPath = ''/var/run/changelogs/changelogs.sock'', pf_enableSecretCache = True\<rparr>"

theorem provider_safe_start_witness:
  "\<exists>h t'. (gate_step quiet_wenv (provider_options default_flags))\<^sup>*\<^sup>*
       ({}, snd (provider_main quiet_wenv default_flags [])) ({KEndpoint, KTemplate, KEndpointCheck}, h)
     \<and> WiAdd KEndpoint \<in> set h \<and> t' = snd (snd (endpoint_Delete serving_env xp_plain demo_client bound_endpoint_cr []))
     \<and> touches ({KEndpoint, KTemplate, KEndpointCheck} \<union> ungated_kinds) [] t'"
proof -
  let ?W = quiet_wenv and ?o = "provider_options default_flags" and ?es = "{KEndpoint, KTemplate, KEndpointCheck}"
  let ?h0 = "snd (provider_main ?W default_flags [])"
  obtain ex where m: "provider_main ?W default_flags [] = (ex, ?h0)" by (metis prod.collapse)
  obtain err h where c: "gated_callback ?W ?o GatedEndpoint ?h0 = (err, h)" by fastforce
  define ct where "ct = \<lparr>ct_Named = ''managed'', ct_For = KEndpoint, ct_DesiredStateChanged = True, ct_Watches = [WatchResourceVersions KTemplate],
    ct_Options = managed_options ''managed'' KEndpoint ?o, ct_RateLimited = True, ct_MaxConcurrentReconciles = Some 10\<rparr>"
  have "WiRegister GatedEndpoint [KEndpoint, KTemplate, KEndpointCheck] \<in> set ?h0"
    by (simp add: provider_main_def fatal_on_def lib_call_def ctrl_NewManager_def runpod_SetupGated_def config_Setup_def setupNamespacedProviderConfig_def
        setupClusterProviderConfig_def template_SetupGated_def endpoint_SetupGated_def janitor_SetupGated_def mgr_Complete_def
        quiet_wenv_def default_flags_def)
  then have "gate_step ?W ?o (?es, ?h0) (?es, h)" by (rule gate_step.run [OF _ _ c]) simp
  then have run: "(gate_step ?W ?o)\<^sup>*\<^sup>* ({}, ?h0) (?es, h)"
    using establish [of "{}" ?es ?W ?o ?h0] by (meson converse_rtranclp_into_rtranclp empty_subsetI rtranclp.rtrancl_refl)
  have built: "WiComplete ct \<in> set h" "WiAdd KEndpoint \<in> set h"
    using c by (auto simp: ct_def endpoint_Setup_def add_state_recorder_def mgr_Add_def mgr_Complete_def quiet_wenv_def provider_options_def default_flags_def Let_def)
  obtain e cr' t' where d: "endpoint_Delete serving_env xp_plain demo_client bound_endpoint_cr [] = (e, cr', t')" by (metis surj_pair)
  have "handles ct [] t'" by (rule handles.endpoint_Delete [OF _ d]) (simp add: ct_def)
  with provider_safe_start [OF m run built(1)] run built(2) d show ?thesis by auto
qed

end
