(* ===== verification/Spec2Isabelle.thy ===== *)
theory Spec2Isabelle
  imports RouterBoundary Cluster Wiring
begin

text \<open>
  A verification development of provider-runpod, a Crossplane provider that manages bounded,
  short-lived RunPod serverless Endpoints, and of the model router beside it. All paths below are
  relative to \<open>src/\<close>.

  \<^bold>\<open>The program.\<close> A Template and an Endpoint are Kubernetes objects. For each, a controller
  (\<open>internal/controller/template\<close>, \<open>internal/controller/endpoint\<close>) implements the external client of
  Crossplane's managed reconciler (Observe, Create, Update, Delete) over the management client
  \<open>internal/client/runpod\<close>, which the connector \<open>internal/controller/management\<close> builds from a
  ProviderConfig. An EndpointCheck object asks for an Endpoint to be admitted for routing: its
  controller (\<open>internal/controller/endpointcheck\<close>) probes the Endpoint with \<open>internal/inference\<close> and
  records the verified revision in the status. The router (\<open>internal/router\<close>) reads the checks,
  routes requests to the single admitted Endpoint, and acknowledges the drain finalizer of a
  deleted check. The janitor (\<open>internal/controller/janitor\<close>) enforces lifetimes: it deletes checks,
  then Endpoints, then Templates. The parts interact only through the Kubernetes objects: the
  Endpoint controller writes the evidence in the Endpoint's status that the check controller and
  the router read, and finalizers order the deletions.

  \<^bold>\<open>The world.\<close> \<open>World\<close> has the environment \<open>env\<close>: the answers of the RunPod API, of the Kubernetes
  API, of the clock and of sleep, each a function of the trace of events so far, so that every
  interleaving with other actors, stale caches included, is some environment. An operation takes the trace
  and returns it extended; theorems about what is sent or written are about the trace. Crossplane's
  helper functions (external name, creation markers, conditions) are the record \<open>xp\<close>; what the code
  relies on is the predicate \<open>xp_laws\<close> (and \<open>xp_condition_laws\<close>), instantiated by \<open>xp_plain\<close> in the
  witnesses. \<open>Prelude\<close>, \<open>GoTime\<close>, \<open>GoErrors\<close>, \<open>GoStrings\<close>, \<open>GoFloat\<close>, \<open>GoJson\<close> and \<open>GoAny\<close> model what the source uses of the Go language
  and its standard library: fixed-width integers as words, durations that wrap, error chains with
  \<open>errors.Is\<close>, byte strings, float64 comparisons, encoding/json (lexer, parser, the string
  escapes of Marshal, struct decoders that fold the case of member names), and the dynamically
  typed values of \<open>map[string]any\<close> with their printed form, floats included. \<open>JsonRoundtrip\<close> shows
  that printing and parsing are inverse on every value the parser can return.

  \<^bold>\<open>Theories and sources.\<close>
  \<^item> \<open>Identifier\<close>, \<open>Credentials\<close>: \<open>internal/identifier/runpod.go\<close>, \<open>internal/credentials/purpose.go\<close>. The
    identifier alphabet, which keeps every identifier one path segment, and the purpose label that
    separates management from inference Secrets.
  \<^item> \<open>ApiTypes\<close>: \<open>apis/serverless/v1alpha1\<close>, \<open>apis/verification/v1alpha1\<close>, \<open>apis/v1alpha1\<close>; structs are
    records with the field names behind a prefix, and the two evidence predicates of the Endpoint.
  \<^item> \<open>RunpodTypes\<close>, \<open>RunpodClient\<close>: \<open>internal/client/runpod/types.go\<close>, \<open>client.go\<close>. Encoders and
    decoders, the request loop \<open>doJSON\<close> with retries, ambiguity of a POST, and every API operation.
    The lemmas bound what one call sends, classify its errors and validate what it returns.
  \<^item> \<open>Management\<close>: \<open>internal/controller/management/connect.go\<close> and what both controllers share.
  \<^item> \<open>Reconciler\<close>: the protocol of the managed reconciler as a step relation with crashes and
    edits, and the interface \<open>create_once\<close> whose main lemma is that no run commits two creations;
    \<open>TemplateController\<close> and \<open>EndpointController\<close> interpret it on their handlers.
  \<^item> \<open>TemplateController\<close>, \<open>EndpointController\<close>: \<open>template.go\<close>, \<open>endpoint.go\<close>. One definition per
    method, split where the code branches; guards of a creation, soundness of an up-to-date
    observation, order of a deletion, bounds on worker cost.
  \<^item> \<open>Janitor\<close>: \<open>janitor.go\<close>. Order and progress of the cleanup.
  \<^item> \<open>Inference\<close>, \<open>EndpointCheck\<close>: \<open>internal/inference/client.go\<close>, \<open>endpointcheck.go\<close>. What a passed
    verification sent and received, what a Ready status rests on, spacing of billable probes.
  \<^item> \<open>RouterState\<close>: the route of \<open>internal/router/router.go\<close> with its leases (\<open>replace\<close>, \<open>acquire\<close>,
    release) as a store, and the interleaving of requests, refreshes and the stop of \<open>Run\<close>
    as an inductive step relation with two invariants, interpreted in the interface
    \<open>step_invariant\<close>.
  \<^item> \<open>Router\<close>: \<open>Refresh\<close> with \<open>endpointRevisionMatches\<close>, \<open>endpointCheckRevision\<close> and the
    acknowledgement of finalizers, in the order of the code: the event \<open>EvRoute\<close> marks in the trace
    where \<open>replace\<close> has returned and which check's route it leaves active. The lemmas give the exact
    sequence of reads behind a committed route and of writes behind the replacement, and the
    refinement of the step relation.
  \<^item> \<open>Cluster\<close>: the API objects, the router and the Endpoint controller's \<open>Delete\<close> together, as a step
    relation over which \<open>Refresh\<close> is a run. Its invariant (a route in use is pinned by a check that
    still carries the drain finalizer and refers to the route's Endpoint) gives that a deletion
    reaches RunPod only after the route has drained. What the relation assumes of the other writers
    is \<open>keeps_pins\<close>, which the writes of the repository are shown to satisfy. The relation allows more
    than \<open>Refresh\<close> does (it may decide for no route at any time), which is what a safety result needs;
    what a refresh must do is stated of \<open>Refresh\<close> itself: its updates are the acknowledgements of its
    run, and one undisturbed refresh is enough for the Endpoint's \<open>Delete\<close> to go on.
  \<^item> \<open>RouterRequest\<close>: \<open>internal/router/request.go\<close> and the two secret filters of \<open>router.go\<close>. One
    definition per validator; a validator returns the value it accepts, with the changes that the
    code makes in place. \<open>SchemaBounds\<close> has the specification of a bounded tool schema and the
    soundness of the recursive check with its shared budget; \<open>ToolArguments\<close> the equivalence of the
    strict token decoder with the plain parser and a bound; \<open>ArgumentRoundtrip\<close> the canonical text
    of the arguments; \<open>ChatPayload\<close> the specification of a whole chat request; \<open>CredentialPattern\<close>
    the credential filter and the language of its regular expression.
  \<^item> \<open>RouterServe\<close>: \<open>ServeHTTP\<close>, \<open>proxyChat\<close>, \<open>copyBoundedAndFlush\<close>, the inference slot and \<open>Run\<close> of
    \<open>router.go\<close>. \<open>ResponseCopy\<close> relates the bounded copy to the text of the stream, for every way the
    transport cuts it and every way the client fails; \<open>RouterBoundary\<close> puts the parts together: what
    a client request can cause to be sent, and what it leaves behind.
  \<^item> \<open>Wiring\<close>: the Setup functions of the controllers, \<open>internal/controller/runpod.go\<close>,
    \<open>internal/controller/config/config.go\<close> and both main functions under \<open>cmd/\<close>, as traces of calls
    into the libraries. The relation \<open>touches\<close> follows the handlers of \<open>TemplateController\<close>,
    \<open>EndpointController\<close> and \<open>Janitor\<close> and bounds the kinds of objects they use by those their
    gate waits for and the four kinds no gate waits for (\<open>ungated_kinds\<close>).

  \<^bold>\<open>Bounds and fuel.\<close> The retry loop recurses on the attempts left (four at most). The string
  functions with fuel (\<open>trim_fuel\<close>, \<open>unquote_fuel\<close>, \<open>quote_fuel\<close>) get the length of their input, and
  each step consumes at least one byte. The schema check recurses on the depth left and then on the
  properties left, the copy loop on the bytes and reads left; both have termination proofs. The
  digits of a float are searched among one to seventeen, which always suffice for float64. All other
  recursion is structural.

  \<^bold>\<open>Readings of the source.\<close> A nil pointer dereference is an error value (\<open>panic\<close>). A deletion
  timestamp and other times are nanoseconds since the zero time; that the API server truncates them
  to seconds is not modelled. Cached and direct reads are both answers of the environment. In
  encoding/json, a struct member that occurs twice with different case reuses the earlier value, the
  elements of a slice included; a JSON number with hexadecimal or underscore syntax is refused by the
  scanner, but a decimal in a JSON string reaches ParseFloat, which is modelled with both. \<open>strings.ToLower\<close> is modelled on ASCII and on the letters the source can meet. A range
  over a map follows the order of the keys, which can change which error is reported, never whether
  one is. A request is handled in one piece: the interleaving of handlers is the step relation of
  \<open>RouterState\<close>, and the cancellation of an upstream call is an error of the transport.

  \<^bold>\<open>Not modelled.\<close> The transport settings and the test-only options of the HTTP clients; the
  libraries that the main functions and the Setup functions call (controller-runtime, the managed
  reconciler beyond its protocol, the gate, flag parsing, logging and metrics), whose answers come
  from an environment; the registration of schemes; generated deep copies and accessors, which are
  identities on immutable values; the JSON text of a list of Kubernetes objects, which is the
  parameter \<open>marshal\<close> of \<open>Refresh\<close>; more than one router process per namespace.
\<close>

end
